(* ===== verification/Prelude.thy ===== *)
theory Prelude
  imports Complex_Main "HOL-Library.Char_ord" "HOL-Library.List_Lexorder"
    "HOL-Library.Product_Lexorder" "HOL-Library.Sublist" "HOL-Library.Multiset"
begin

text \<open>
  What every other theory shares.

  \<^item> A state-and-exception monad \<open>('s, 'e, 'a) prog\<close> for the services' \<open>async\<close>
    functions: an exception keeps the state reached when it was raised, as a Python
    exception does.
  \<^item> \<open>evolution\<close>, the interface of frame reasoning: a reflexive and transitive
    relation between the state before and after, and the rules that lift it over the
    monad. Each component interprets it on a relation of its own.
  \<^item> The Python string, sorting and rounding primitives the sources use.

  Python \<open>str\<close> is modelled by \<open>string\<close>, that is by ASCII text; Python \<open>float\<close> by
  \<open>real\<close>, that is without the rounding of binary64 arithmetic; Python \<open>int\<close> by
  \<open>int\<close> or \<open>nat\<close>.
\<close>

named_theorems evo "evolution facts of the operations, applied by the frame proofs"
named_theorems opdefs "definitions of the small operations a proof usually unfolds"

section \<open>State and exceptions\<close>

type_synonym ('s, 'e, 'a) prog = "'s \<Rightarrow> ('e + 'a) \<times> 's"

definition ret :: "'a \<Rightarrow> ('s, 'e, 'a) prog" where
  "ret x = (\<lambda>s. (Inr x, s))"

definition raise :: "'e \<Rightarrow> ('s, 'e, 'a) prog" where
  "raise e = (\<lambda>s. (Inl e, s))"

definition bindE :: "('s, 'e, 'a) prog \<Rightarrow> ('a \<Rightarrow> ('s, 'e, 'b) prog) \<Rightarrow> ('s, 'e, 'b) prog" where
  "bindE m f = (\<lambda>s. case m s of (Inl e, s') \<Rightarrow> (Inl e, s') | (Inr x, s') \<Rightarrow> f x s')"

definition thenE :: "('s, 'e, 'a) prog \<Rightarrow> ('s, 'e, 'b) prog \<Rightarrow> ('s, 'e, 'b) prog" where
  "thenE m n = bindE m (\<lambda>_. n)"

text \<open>\<open>except\<close>: the handler gets the exception, in the state it was raised in.\<close>

definition catchE :: "('s, 'e, 'a) prog \<Rightarrow> ('e \<Rightarrow> ('s, 'e, 'a) prog) \<Rightarrow> ('s, 'e, 'a) prog" where
  "catchE m h = (\<lambda>s. case m s of (Inl e, s') \<Rightarrow> h e s' | (Inr x, s') \<Rightarrow> (Inr x, s'))"

text \<open>\<open>finally\<close> (and \<open>__aexit__\<close>): the cleanup runs on both exits; its own exception wins.\<close>

definition finallyE :: "('s, 'e, 'a) prog \<Rightarrow> ('s, 'e, unit) prog \<Rightarrow> ('s, 'e, 'a) prog" where
  "finallyE m c = (\<lambda>s. case m s of (r, s') \<Rightarrow>
     (case c s' of (Inl e, s'') \<Rightarrow> (Inl e, s'') | (Inr _, s'') \<Rightarrow> (r, s'')))"

text \<open>The outcome as a value: \<open>try\<close> with the \<open>except\<close> clauses written as a case distinction.\<close>

definition tryE :: "('s, 'e, 'a) prog \<Rightarrow> ('s, 'e, 'e + 'a) prog" where
  "tryE m = (\<lambda>s. case m s of (r, s') \<Rightarrow> (Inr r, s'))"

definition asks :: "('s \<Rightarrow> 'a) \<Rightarrow> ('s, 'e, 'a) prog" where
  "asks f = (\<lambda>s. (Inr (f s), s))"

definition modifyE :: "('s \<Rightarrow> 's) \<Rightarrow> ('s, 'e, unit) prog" where
  "modifyE f = (\<lambda>s. (Inr (), f s))"

fun forE :: "'a list \<Rightarrow> ('a \<Rightarrow> ('s, 'e, unit) prog) \<Rightarrow> ('s, 'e, unit) prog" where
  "forE [] f = ret ()"
| "forE (x # xs) f = thenE (f x) (forE xs f)"

fun foldE :: "('b \<Rightarrow> 'a \<Rightarrow> ('s, 'e, 'b) prog) \<Rightarrow> 'b \<Rightarrow> 'a list \<Rightarrow> ('s, 'e, 'b) prog" where
  "foldE f b [] = ret b"
| "foldE f b (x # xs) = bindE (f b x) (\<lambda>b'. foldE f b' xs)"

lemma ret_apply [simp]: "ret x s = (Inr x, s)" by (simp add: ret_def)
lemma raise_apply [simp]: "raise e s = (Inl e, s)" by (simp add: raise_def)
lemma asks_apply [simp]: "asks f s = (Inr (f s), s)" by (simp add: asks_def)
lemma modifyE_apply [simp]: "modifyE f s = (Inr (), f s)" by (simp add: modifyE_def)

lemma bindE_ret [simp]: "bindE (ret x) f = f x" by (simp add: bindE_def ret_def)
lemma bindE_raise [simp]: "bindE (raise e) f = raise e" by (simp add: bindE_def raise_def)

lemma bindE_Inr: "m s = (Inr x, s') \<Longrightarrow> bindE m f s = f x s'" by (simp add: bindE_def)
lemma bindE_Inl: "m s = (Inl e, s') \<Longrightarrow> bindE m f s = (Inl e, s')" by (simp add: bindE_def)
lemma thenE_Inr: "m s = (Inr x, s') \<Longrightarrow> thenE m n s = n s'" by (simp add: thenE_def bindE_def)
lemma thenE_Inl: "m s = (Inl e, s') \<Longrightarrow> thenE m n s = (Inl e, s')"
  by (simp add: thenE_def bindE_def)

lemma bindE_InrD:
  "bindE m f s = (Inr y, t) \<Longrightarrow> \<exists>x u. m s = (Inr x, u) \<and> f x u = (Inr y, t)"
  by (auto simp: bindE_def split: prod.splits sum.splits)

lemma bindE_InrE:
  assumes "bindE m f s = (Inr y, t)"
  obtains x u where "m s = (Inr x, u)" "f x u = (Inr y, t)"
  using bindE_InrD [OF assms] by blast

lemma thenE_InrE:
  assumes "thenE m n s = (Inr y, t)"
  obtains x u where "m s = (Inr x, u)" "n u = (Inr y, t)"
  using bindE_InrD [OF assms [unfolded thenE_def]] by blast

lemma catchE_Inr: "m s = (Inr x, s') \<Longrightarrow> catchE m h s = (Inr x, s')" by (simp add: catchE_def)
lemma catchE_Inl: "m s = (Inl e, s') \<Longrightarrow> catchE m h s = h e s'" by (simp add: catchE_def)

lemma tryE_eq: "m s = (r, s') \<Longrightarrow> tryE m s = (Inr r, s')" by (simp add: tryE_def)

section \<open>Evolution: relations kept by every program built from primitive steps\<close>

definition evolves :: "('s \<Rightarrow> 's \<Rightarrow> bool) \<Rightarrow> ('s, 'e, 'a) prog \<Rightarrow> bool" where
  "evolves R m \<longleftrightarrow> (\<forall>s. R s (snd (m s)))"

lemma evolvesI: "(\<And>s. R s (snd (m s))) \<Longrightarrow> evolves R m" by (simp add: evolves_def)
lemma evolvesD: "evolves R m \<Longrightarrow> R s (snd (m s))" by (simp add: evolves_def)
lemma evolvesE: "evolves R m \<Longrightarrow> m s = (r, t) \<Longrightarrow> R s t" by (metis evolves_def snd_conv)

locale evolution =
  fixes R :: "'s \<Rightarrow> 's \<Rightarrow> bool"
  assumes evo_refl: "R s s"
    and evo_trans: "R s t \<Longrightarrow> R t u \<Longrightarrow> R s u"
begin

lemma ev_ret: "evolves R (ret x)" by (simp add: evolves_def evo_refl)
lemma ev_raise: "evolves R (raise e)" by (simp add: evolves_def evo_refl)
lemma ev_asks: "evolves R (asks f)" by (simp add: evolves_def evo_refl)

lemma ev_modify: "(\<And>s. R s (f s)) \<Longrightarrow> evolves R (modifyE f)" by (simp add: evolves_def)

lemma ev_bind: "evolves R m \<Longrightarrow> (\<And>x. evolves R (f x)) \<Longrightarrow> evolves R (bindE m f)"
  unfolding evolves_def bindE_def
  by (auto split: prod.splits sum.splits) (metis evo_trans snd_conv)+

lemma ev_then: "evolves R m \<Longrightarrow> evolves R n \<Longrightarrow> evolves R (thenE m n)"
  unfolding thenE_def by (rule ev_bind)

lemma ev_catch: "evolves R m \<Longrightarrow> (\<And>e. evolves R (h e)) \<Longrightarrow> evolves R (catchE m h)"
  unfolding evolves_def catchE_def
  by (auto split: prod.splits sum.splits) (metis evo_trans snd_conv)+

lemma ev_finally: "evolves R m \<Longrightarrow> evolves R c \<Longrightarrow> evolves R (finallyE m c)"
  unfolding evolves_def finallyE_def
  by (auto split: prod.splits sum.splits) (metis evo_trans snd_conv)+

lemma ev_try: "evolves R m \<Longrightarrow> evolves R (tryE m)"
  by (simp add: evolves_def tryE_def case_prod_unfold)

lemma ev_for: "(\<And>x. evolves R (f x)) \<Longrightarrow> evolves R (forE xs f)"
  by (induction xs) (auto intro: ev_ret ev_then)

lemma ev_fold: "(\<And>b x. evolves R (f b x)) \<Longrightarrow> evolves R (foldE f b xs)"
  by (induction xs arbitrary: b) (auto intro: ev_ret ev_bind)

lemma ev_if: "(b \<Longrightarrow> evolves R m) \<Longrightarrow> (\<not> b \<Longrightarrow> evolves R n) \<Longrightarrow> evolves R (if b then m else n)"
  by simp

lemma ev_option:
  "(x = None \<Longrightarrow> evolves R m) \<Longrightarrow> (\<And>y. x = Some y \<Longrightarrow> evolves R (f y)) \<Longrightarrow>
   evolves R (case x of None \<Rightarrow> m | Some y \<Rightarrow> f y)"
  by (cases x) simp_all

lemma ev_sum:
  "(\<And>e. x = Inl e \<Longrightarrow> evolves R (g e)) \<Longrightarrow> (\<And>y. x = Inr y \<Longrightarrow> evolves R (f y)) \<Longrightarrow>
   evolves R (case x of Inl e \<Rightarrow> g e | Inr y \<Rightarrow> f y)"
  by (cases x) simp_all

lemmas ev_rules = ev_ret ev_raise ev_asks ev_bind ev_then ev_catch ev_finally ev_try ev_for ev_fold
  ev_if ev_option ev_sum

end

text \<open>
  Where a change happened: if a projection is different after a sequence and its first part
  keeps it, the first part returned and the change is in the rest.
\<close>

lemma changed_in_bind:
  assumes "\<And>s. g (snd (m s)) = g s" "g (snd (bindE m f s)) \<noteq> g s"
  obtains x t where "m s = (Inr x, t)" "g t = g s" "g (snd (f x t)) \<noteq> g t"
proof -
  obtain r t where mt: "m s = (r, t)" by fastforce
  then have gt: "g t = g s" using assms(1) [of s] by simp
  with assms(2) mt obtain x where "r = Inr x" by (cases r) (auto simp: bindE_def)
  with mt gt assms(2) that [of x t] show thesis by (simp add: bindE_def)
qed

lemma changed_in_then:
  assumes "\<And>s. g (snd (m s)) = g s" "g (snd (thenE m n s)) \<noteq> g s"
  obtains x t where "m s = (Inr x, t)" "g t = g s" "g (snd (n t)) \<noteq> g t"
  using changed_in_bind [of g m "\<lambda>_. n" s] assms unfolding thenE_def by blast

section \<open>Python strings\<close>

definition is_space :: "char \<Rightarrow> bool" where
  "is_space c \<longleftrightarrow> (of_char c :: nat) \<in> {9, 10, 11, 12, 13, 28, 29, 30, 31, 32}"

definition lstrip :: "string \<Rightarrow> string" where "lstrip s = dropWhile is_space s"
definition rstrip :: "string \<Rightarrow> string" where "rstrip s = rev (dropWhile is_space (rev s))"
definition strip :: "string \<Rightarrow> string" where "strip s = lstrip (rstrip s)"

definition lower_char :: "char \<Rightarrow> char" where
  "lower_char c = (let n = (of_char c :: nat) in
     if 65 \<le> n \<and> n \<le> 90 then char_of (n + 32) else c)"
definition upper_char :: "char \<Rightarrow> char" where
  "upper_char c = (let n = (of_char c :: nat) in
     if 97 \<le> n \<and> n \<le> 122 then char_of (n - 32) else c)"
definition lower :: "string \<Rightarrow> string" where "lower s = map lower_char s"
definition upper :: "string \<Rightarrow> string" where "upper s = map upper_char s"

definition startswith :: "string \<Rightarrow> string \<Rightarrow> bool" where
  "startswith s p \<longleftrightarrow> take (length p) s = p"

text \<open>\<open>s.split(c, 1)[1]\<close> for a separator that occurs.\<close>
definition after_first :: "char \<Rightarrow> string \<Rightarrow> string" where
  "after_first c s = tl (dropWhile (\<lambda>x. x \<noteq> c) s)"

fun join :: "string \<Rightarrow> string list \<Rightarrow> string" where
  "join sep [] = []"
| "join sep [x] = x"
| "join sep (x # y # ys) = x @ sep @ join sep (y # ys)"

definition digit_char :: "nat \<Rightarrow> char" where "digit_char d = char_of (48 + d)"
definition is_digit :: "char \<Rightarrow> bool" where
  "is_digit c \<longleftrightarrow> 48 \<le> (of_char c :: nat) \<and> (of_char c :: nat) \<le> 57"

fun str_nat :: "nat \<Rightarrow> string" where
  "str_nat n = (if n < 10 then [digit_char n] else str_nat (n div 10) @ [digit_char (n mod 10)])"
declare str_nat.simps [simp del]

definition str_int :: "int \<Rightarrow> string" where
  "str_int i = (if i < 0 then CHR ''-'' # str_nat (nat (- i)) else str_nat (nat i))"

lemma digit_char_is_digit: "d < 10 \<Longrightarrow> is_digit (digit_char d)"
  by (auto simp: is_digit_def digit_char_def)

lemma digit_char_inj: "a < 10 \<Longrightarrow> b < 10 \<Longrightarrow> digit_char a = digit_char b \<Longrightarrow> a = b"
proof -
  assume a: "a < 10" and b: "b < 10" and eq: "digit_char a = digit_char b"
  from eq have "(of_char (digit_char a) :: nat) = of_char (digit_char b)" by simp
  with a b show "a = b" by (simp add: digit_char_def)
qed

lemma str_nat_digits: "\<forall>c \<in> set (str_nat n). is_digit c"
proof (induction n rule: str_nat.induct)
  case (1 n)
  show ?case
    by (subst str_nat.simps) (use 1 in \<open>auto intro: digit_char_is_digit\<close>)
qed

lemma str_nat_nonempty [simp]: "str_nat n \<noteq> []" "[] \<noteq> str_nat n"
  by (subst str_nat.simps, simp)+

lemma str_nat_inj: "str_nat m = str_nat n \<Longrightarrow> m = n"
proof (induction m arbitrary: n rule: str_nat.induct)
  case (1 m)
  show ?case
  proof (cases "m < 10")
    case True
    then have m: "str_nat m = [digit_char m]" by (simp add: str_nat.simps)
    show ?thesis
    proof (cases "n < 10")
      case True
      with \<open>m < 10\<close> 1(2) m show ?thesis by (simp add: str_nat.simps [of n] digit_char_inj)
    next
      case False
      with 1(2) m show ?thesis by (simp add: str_nat.simps [of n])
    qed
  next
    case False
    then have m: "str_nat m = str_nat (m div 10) @ [digit_char (m mod 10)]"
      by (simp add: str_nat.simps [of m])
    show ?thesis
    proof (cases "n < 10")
      case True
      with 1(2) m show ?thesis by (simp add: str_nat.simps [of n])
    next
      case n: False
      with 1(2) m have "str_nat (m div 10) = str_nat (n div 10)"
        and "digit_char (m mod 10) = digit_char (n mod 10)"
        by (simp_all add: str_nat.simps [of n])
      with 1(1) [OF False] have "m div 10 = n div 10" "m mod 10 = n mod 10"
        by (auto intro: digit_char_inj)
      then show ?thesis by (metis div_mult_mod_eq)
    qed
  qed
qed

lemma str_int_inj: "str_int i = str_int j \<Longrightarrow> i = j"
proof -
  assume eq: "str_int i = str_int j"
  have nd: "CHR ''-'' \<notin> set (str_nat n)" for n
    using str_nat_digits [of n] by (auto simp: is_digit_def)
  have hd: "str_nat n \<noteq> CHR ''-'' # str_nat m" for n m
    using nd [of n] by (metis list.set_intros(1))
  show "i = j"
    using eq hd hd [symmetric] by (auto simp: str_int_def split: if_splits dest!: str_nat_inj)
qed

section \<open>Lists\<close>

lemma map_eq_map_iff:
  assumes "\<And>x y. f x = f y \<longleftrightarrow> g x = g y"
  shows "map f xs = map f ys \<longleftrightarrow> map g xs = map g ys"
proof (induction xs arbitrary: ys)
  case (Cons x xs)
  then show ?case using assms by (cases ys) auto
qed simp

section \<open>Rounding\<close>

text \<open>Python's \<open>round(x, n)\<close>: ties go to the even neighbour.\<close>

definition round_half_even :: "real \<Rightarrow> int" where
  "round_half_even y = (let f = \<lfloor>y\<rfloor>; d = y - of_int f in
     if d < 1/2 then f else if d > 1/2 then f + 1 else if even f then f else f + 1)"

definition py_round :: "real \<Rightarrow> nat \<Rightarrow> real" where
  "py_round x n = of_int (round_half_even (x * 10 ^ n)) / 10 ^ n"

lemma round_half_even_cases: "round_half_even y = \<lfloor>y\<rfloor> \<or> round_half_even y = \<lfloor>y\<rfloor> + 1"
  by (simp add: round_half_even_def Let_def)

lemma round_half_even_near: "\<bar>of_int (round_half_even y) - y\<bar> \<le> 1/2"
  by (auto simp: round_half_even_def Let_def abs_if) linarith+

lemma round_half_even_int [simp]: "round_half_even (of_int k) = k"
  by (simp add: round_half_even_def)

lemma round_half_even_mono: "x \<le> y \<Longrightarrow> round_half_even x \<le> round_half_even y"
proof (rule ccontr)
  assume xy: "x \<le> y" and n: "\<not> round_half_even x \<le> round_half_even y"
  then have fl: "\<lfloor>x\<rfloor> \<le> \<lfloor>y\<rfloor>" by (simp add: floor_mono)
  with n round_half_even_cases [of x] round_half_even_cases [of y]
  have eq: "\<lfloor>x\<rfloor> = \<lfloor>y\<rfloor>" and up: "round_half_even x = \<lfloor>x\<rfloor> + 1" and dn: "round_half_even y = \<lfloor>y\<rfloor>"
    by linarith+
  from up have "x - of_int \<lfloor>x\<rfloor> > 1/2 \<or> (x - of_int \<lfloor>x\<rfloor> = 1/2 \<and> odd \<lfloor>x\<rfloor>)"
    by (auto simp: round_half_even_def Let_def split: if_splits)
  moreover from dn have "y - of_int \<lfloor>y\<rfloor> < 1/2 \<or> (y - of_int \<lfloor>y\<rfloor> = 1/2 \<and> even \<lfloor>y\<rfloor>)"
    by (auto simp: round_half_even_def Let_def split: if_splits)
  ultimately show False using xy eq by auto
qed

lemma py_round_mono: "x \<le> y \<Longrightarrow> py_round x n \<le> py_round y n"
  by (simp add: py_round_def divide_right_mono round_half_even_mono mult_right_mono)

lemma py_round_int [simp]: "py_round (of_int k) n = of_int k"
proof -
  have "(of_int k :: real) * 10 ^ n = of_int (k * 10 ^ n)" by simp
  then show ?thesis unfolding py_round_def by (metis nonzero_mult_div_cancel_right
      of_int_mult of_int_numeral of_int_power power_not_zero round_half_even_int zero_neq_numeral)
qed

lemma py_round_0 [simp]: "py_round 0 n = 0" using py_round_int [of 0] by simp
lemma py_round_1 [simp]: "py_round 1 n = 1" using py_round_int [of 1] by simp

lemma py_round_unit: "0 \<le> x \<Longrightarrow> x \<le> 1 \<Longrightarrow> 0 \<le> py_round x n \<and> py_round x n \<le> 1"
  using py_round_mono [of 0 x n] py_round_mono [of x 1 n] by simp

lemma py_round_near: "\<bar>py_round x n - x\<bar> \<le> 1 / (2 * 10 ^ n)"
proof -
  have "\<bar>of_int (round_half_even (x * 10 ^ n)) - x * 10 ^ n\<bar> \<le> 1/2"
    by (rule round_half_even_near)
  then have "\<bar>of_int (round_half_even (x * 10 ^ n)) - x * 10 ^ n\<bar> / 10 ^ n \<le> (1/2) / 10 ^ n"
    by (rule divide_right_mono) simp
  then show ?thesis
    by (simp add: py_round_def abs_divide [symmetric] diff_divide_distrib abs_div_pos)
qed

end
