(* ===== verification/Money.thy ===== *)
theory Money
  imports Prelude
begin

text \<open>
  \<open>decimal.Decimal\<close> as the sources use it (parsing, printing, numeric value) and
  \<open>gateway/money.py\<close>: the conversion to integer minor units at the policy boundary.
  Finite decimals only (the wire type rejects NaN and infinities); the context precision of
  28 digits is never reached by a \<open>Numeric(12, 2)\<close> amount and is not modelled.
\<close>

record decimal =
  coeff :: int
  dexp :: int

definition dec_val :: "decimal \<Rightarrow> real" where
  "dec_val d = (if 0 \<le> dexp d then of_int (coeff d) * 10 ^ nat (dexp d)
                else of_int (coeff d) / 10 ^ nat (- dexp d))"

definition dec_zero :: decimal where "dec_zero = \<lparr>coeff = 0, dexp = 0\<rparr>"

section \<open>\<open>str(Decimal)\<close> and \<open>Decimal(str)\<close>\<close>

definition zeros :: "nat \<Rightarrow> string" where "zeros n = replicate n (CHR ''0'')"

definition dec_str :: "decimal \<Rightarrow> string" where
  "dec_str d = (let ds = str_nat (nat \<bar>coeff d\<bar>);
       left = dexp d + int (length ds);
       dot = (if dexp d \<le> 0 \<and> left > -6 then left else 1);
       ip = (if dot \<le> 0 then ''0''
             else if dot \<ge> int (length ds) then ds @ zeros (nat (dot - int (length ds)))
             else take (nat dot) ds);
       fp = (if dot \<le> 0 then ''.'' @ zeros (nat (- dot)) @ ds
             else if dot \<ge> int (length ds) then ''''
             else ''.'' @ drop (nat dot) ds);
       ep = (if left = dot then ''''
             else ''E'' @ (if left - dot \<ge> 0 then ''+'' else '''') @ str_int (left - dot))
     in (if coeff d < 0 then ''-'' else '''') @ ip @ fp @ ep)"

definition digits_nat :: "string \<Rightarrow> nat" where
  "digits_nat s = foldl (\<lambda>a c. 10 * a + (of_char c - 48)) 0 s"

definition take_sign :: "string \<Rightarrow> bool \<times> string" where
  "take_sign s = (case s of [] \<Rightarrow> (False, s)
     | c # t \<Rightarrow> if c = CHR ''-'' then (True, t) else if c = CHR ''+'' then (False, t) else (False, s))"

definition parse_exp :: "string \<Rightarrow> int option" where
  "parse_exp s = (case s of [] \<Rightarrow> Some 0
     | c # t \<Rightarrow> if c \<noteq> CHR ''E'' \<and> c \<noteq> CHR ''e'' then None
       else (case take_sign t of (neg, u) \<Rightarrow>
         if u \<noteq> [] \<and> list_all is_digit u
         then Some (if neg then - int (digits_nat u) else int (digits_nat u)) else None))"

text \<open>\<open>Decimal(v)\<close> on text: \<open>None\<close> is \<open>InvalidOperation\<close>.\<close>

definition parse_decimal :: "string \<Rightarrow> decimal option" where
  "parse_decimal v = (let s = filter (\<lambda>c. c \<noteq> CHR ''_'') (strip v) in
     case take_sign s of (neg, t) \<Rightarrow>
     let ip = takeWhile is_digit t; r = dropWhile is_digit t;
         fp = (if r \<noteq> [] \<and> hd r = CHR ''.'' then takeWhile is_digit (tl r) else []);
         r' = (if r \<noteq> [] \<and> hd r = CHR ''.'' then dropWhile is_digit (tl r) else r)
     in if ip = [] \<and> fp = [] then None
        else (case parse_exp r' of None \<Rightarrow> None
          | Some e \<Rightarrow> Some \<lparr>coeff = (if neg then - 1 else 1) * int (digits_nat (ip @ fp)),
                           dexp = e - int (length fp)\<rparr>))"

text \<open>Printing and parsing back is exact.\<close>

lemma digits_nat_append: "digits_nat (s @ t) = digits_nat s * 10 ^ length t + digits_nat t"
proof -
  have "foldl (\<lambda>a c. 10 * a + (of_char c - 48)) n t =
    n * 10 ^ length t + foldl (\<lambda>a c. 10 * a + (of_char c - 48)) (0 :: nat) t" for n
  proof (induction t arbitrary: n)
    case (Cons c t)
    from Cons.IH [of "10 * n + (of_char c - 48)"] Cons.IH [of "of_char c - 48"]
    show ?case by (simp add: add_mult_distrib add_mult_distrib2 ac_simps)
  qed simp
  then show ?thesis unfolding digits_nat_def foldl_append .
qed

lemma digits_nat_zeros: "digits_nat (zeros n) = 0"
  by (induction n) (auto simp: digits_nat_def zeros_def)

lemma digits_nat_str_nat [simp]: "digits_nat (str_nat n) = n"
proof (induction n rule: str_nat.induct)
  case (1 n)
  have d: "d < 10 \<Longrightarrow> digits_nat [digit_char d] = d" for d
    by (simp add: digits_nat_def digit_char_def)
  show ?case
    by (subst str_nat.simps) (use 1 in \<open>auto simp: d digits_nat_append\<close>)
qed

lemma str_nat_all_digits: "list_all is_digit (str_nat n)"
  using str_nat_digits by (auto simp: list_all_iff)

lemma zeros_digits: "list_all is_digit (zeros n)"
  by (auto simp: list_all_iff zeros_def is_digit_def)

lemma digits_span:
  assumes "list_all is_digit ds" "r = [] \<or> \<not> is_digit (hd r)"
  shows "takeWhile is_digit (ds @ r) = ds" "dropWhile is_digit (ds @ r) = r"
  using assms by (induction ds) (auto simp: neq_Nil_conv takeWhile_eq_Nil_iff dropWhile_eq_self_iff)

definition plain :: "string \<Rightarrow> bool" where
  "plain s \<longleftrightarrow> s \<noteq> [] \<and> list_all (\<lambda>c. is_digit c \<or> c \<in> set ''.E+-'') s"

lemma plain_strip: "plain s \<Longrightarrow> filter (\<lambda>c. c \<noteq> CHR ''_'') (strip s) = s"
proof -
  assume p: "plain s"
  have sp: "is_digit c \<or> c \<in> set ''.E+-'' \<Longrightarrow> \<not> is_space c \<and> c \<noteq> CHR ''_''" for c
    by (auto simp: is_space_def is_digit_def)
  have l: "list_all (\<lambda>c. \<not> is_space c) s" and u: "list_all (\<lambda>c. c \<noteq> CHR ''_'') s"
    using p sp by (auto simp: plain_def list_all_iff)
  have "dropWhile is_space s = s" "dropWhile is_space (rev s) = rev s"
    using l p by (auto simp: dropWhile_eq_self_iff list_all_iff plain_def hd_rev)
  then have "strip s = s" by (simp add: strip_def lstrip_def rstrip_def)
  with u show ?thesis by (simp add: filter_id_conv list_all_iff)
qed

text \<open>The three shapes of a printed exponent, and of what follows the integer part.\<close>

lemma parse_exp_printed: "parse_exp (''E'' @ (if k \<ge> 0 then ''+'' else '''') @ str_int k) = Some k"
proof -
  have d: "list_all is_digit (str_nat n)" "str_nat n \<noteq> []" for n
    using str_nat_all_digits by auto
  show ?thesis using d by (auto simp: parse_exp_def take_sign_def str_int_def)
qed

lemma take_sign_digit: "is_digit c \<Longrightarrow> take_sign (c # t) = (False, c # t)"
  by (auto simp: take_sign_def is_digit_def)

lemma parse_decimal_parts:
  assumes ip: "ip \<noteq> []" "list_all is_digit ip" and fp: "list_all is_digit fp"
    and rest: "rest = (if fs then CHR ''.'' # fp @ es else es)" "\<not> fs \<Longrightarrow> fp = []"
    and es: "es = [] \<or> hd es = CHR ''E''" "parse_exp es = Some e" "plain (ip @ es)"
  shows "parse_decimal ((if neg then ''-'' else '''') @ ip @ rest) =
    Some \<lparr>coeff = (if neg then - 1 else 1) * int (digits_nat (ip @ fp)), dexp = e - int (length fp)\<rparr>"
proof -
  have nE: "\<not> is_digit (CHR ''E'')" "\<not> is_digit (CHR ''.'')" by (simp_all add: is_digit_def)
  have es': "es = [] \<or> \<not> is_digit (hd es)" "es = [] \<or> hd es \<noteq> CHR ''.''" using es(1) nE by auto
  let ?s = "(if neg then ''-'' else '''') @ ip @ rest"
  have "plain ?s"
    using es(3) ip fp rest(1) by (auto simp: plain_def list_all_iff)
  then have f: "filter (\<lambda>c. c \<noteq> CHR ''_'') (strip ?s) = ?s" by (rule plain_strip)
  have ts: "take_sign ?s = (neg, ip @ rest)"
    using ip by (cases ip) (auto simp: take_sign_def is_digit_def)
  have r: "rest = [] \<or> \<not> is_digit (hd rest)" using rest(1) es' nE by auto
  have sp: "takeWhile is_digit (ip @ rest) = ip" "dropWhile is_digit (ip @ rest) = rest"
    using digits_span [OF ip(2) r] by auto
  have sf: "takeWhile is_digit (fp @ es) = fp" "dropWhile is_digit (fp @ es) = es"
    using digits_span [OF fp es'(1)] by auto
  show ?thesis
    unfolding parse_decimal_def f Let_def ts
    using sp sf rest es' es(2) ip(1) by (cases fs) auto
qed

theorem parse_decimal_dec_str: "parse_decimal (dec_str d) = Some d"
proof -
  define ds where "ds = str_nat (nat \<bar>coeff d\<bar>)"
  define left where "left = dexp d + int (length ds)"
  define dot where "dot = (if dexp d \<le> 0 \<and> left > -6 then left else 1)"
  define es where "es = (if left = dot then ''''
    else ''E'' @ (if left - dot \<ge> 0 then ''+'' else '''') @ str_int (left - dot))"
  have ds: "ds \<noteq> []" "list_all is_digit ds" "digits_nat ds = nat \<bar>coeff d\<bar>"
    using str_nat_all_digits by (auto simp: ds_def)
  have pe: "parse_exp es = Some (left - dot)"
    unfolding es_def using parse_exp_printed [of "left - dot"] by (auto simp: parse_exp_def)
  have es1: "es = [] \<or> hd es = CHR ''E''" by (simp add: es_def)
  have ples: "list_all (\<lambda>c. is_digit c \<or> c \<in> set ''.E+-'') es"
    using str_nat_all_digits by (auto simp: es_def str_int_def list_all_iff)
  have pl: "plain (u @ es)" if "u \<noteq> []" "list_all is_digit u" for u
    using that ples by (auto simp: plain_def list_all_iff)
  have sg: "(if coeff d < 0 then - 1 else 1) * int (nat \<bar>coeff d\<bar>) = coeff d" by simp
  have len: "0 < length ds" using ds(1) by simp
  have str: "dec_str d = (if coeff d < 0 then ''-'' else '''') @
      (if dot \<le> 0 then ''0'' else if dot \<ge> int (length ds) then ds @ zeros (nat (dot - int (length ds)))
         else take (nat dot) ds) @
      (if dot \<le> 0 then ''.'' @ zeros (nat (- dot)) @ ds
         else if dot \<ge> int (length ds) then '''' else ''.'' @ drop (nat dot) ds) @ es"
    by (simp add: dec_str_def Let_def ds_def left_def dot_def es_def)
  consider (a) "dot \<le> 0" | (b) "dot > 0" "dot \<ge> int (length ds)" | (c) "0 < dot" "dot < int (length ds)"
    by linarith
  then show ?thesis
  proof cases
    case a
    then have dl: "dot = left" using len by (auto simp: dot_def split: if_splits)
    let ?fp = "zeros (nat (- dot)) @ ds"
    have sh: "dec_str d = (if coeff d < 0 then ''-'' else '''') @ ''0'' @ (CHR ''.'' # ?fp @ es)"
      unfolding str using a by simp
    have "parse_decimal (dec_str d) = Some \<lparr>coeff = (if coeff d < 0 then - 1 else 1) *
        int (digits_nat (''0'' @ ?fp)), dexp = (left - dot) - int (length ?fp)\<rparr>"
      unfolding sh by (rule parse_decimal_parts [where fs = True and es = es])
        (use a ds pe es1 pl [of "''0''"] zeros_digits in \<open>auto simp: is_digit_def\<close>)
    moreover have "digits_nat (''0'' @ ?fp) = nat \<bar>coeff d\<bar>"
      using ds(3) digits_nat_append [of "''0''" ?fp] digits_nat_append [of "zeros (nat (- dot))" ds]
      by (simp add: digits_nat_zeros) (simp add: digits_nat_def)
    moreover have "(left - dot) - int (length ?fp) = dexp d" using a dl by (simp add: zeros_def left_def)
    ultimately show ?thesis using sg by simp
  next
    case b
    have z: "dot = int (length ds)"
    proof (cases "dexp d \<le> 0 \<and> left > -6")
      case True
      with b len show ?thesis by (simp add: dot_def left_def)
    next
      case False
      then have "dot = 1" by (auto simp: dot_def)
      with b len show ?thesis by linarith
    qed
    have sh: "dec_str d = (if coeff d < 0 then ''-'' else '''') @ ds @ es"
      unfolding str using b z by (simp add: zeros_def)
    have "parse_decimal (dec_str d) = Some \<lparr>coeff = (if coeff d < 0 then - 1 else 1) *
        int (digits_nat (ds @ [])), dexp = (left - dot) - int (length ([] :: string))\<rparr>"
      unfolding sh by (rule parse_decimal_parts [where fs = False and es = es])
        (use b z ds pe es1 pl [of ds] in auto)
    then show ?thesis using sg ds(3) z by (simp add: left_def)
  next
    case c
    let ?ip = "take (nat dot) ds" and ?fp = "drop (nat dot) ds"
    have sh: "dec_str d = (if coeff d < 0 then ''-'' else '''') @ ?ip @ (CHR ''.'' # ?fp @ es)"
      unfolding str using c by simp
    have dg: "?ip \<noteq> []" "list_all is_digit ?ip" "list_all is_digit ?fp"
      using c ds by (auto simp: list_all_iff dest: in_set_takeD in_set_dropD)
    have "parse_decimal (dec_str d) = Some \<lparr>coeff = (if coeff d < 0 then - 1 else 1) *
        int (digits_nat (?ip @ ?fp)), dexp = (left - dot) - int (length ?fp)\<rparr>"
      unfolding sh by (rule parse_decimal_parts [where fs = True and es = es])
        (use c dg pe es1 pl [of ?ip] in auto)
    then show ?thesis using sg ds(3) c by (simp add: left_def)
  qed
qed

corollary dec_str_inj: "dec_str a = dec_str b \<Longrightarrow> a = b"
  by (metis option.inject parse_decimal_dec_str)

section \<open>Minor units\<close>

text \<open>\<open>(value * 100).to_integral_value(ROUND_HALF_UP)\<close>: ties go away from zero.\<close>

definition div_half_up :: "int \<Rightarrow> int \<Rightarrow> int" where
  "div_half_up c m = sgn c * ((2 * \<bar>c\<bar> + m) div (2 * m))"

definition to_minor_units :: "decimal \<Rightarrow> int" where
  "to_minor_units v = (let e = dexp v + 2 in
     if 0 \<le> e then coeff v * 10 ^ nat e else div_half_up (coeff v) (10 ^ nat (- e)))"

text \<open>An amount that is a whole number of minor units, however it is written.\<close>

definition whole_minor :: "decimal \<Rightarrow> bool" where
  "whole_minor d \<longleftrightarrow> -2 \<le> dexp d \<or> 10 ^ nat (- dexp d - 2) dvd coeff d"

lemma div_half_up_dvd: "0 < m \<Longrightarrow> m dvd c \<Longrightarrow> div_half_up c m * m = c"
proof -
  assume m: "0 < m" and "m dvd c"
  then obtain k where c: "c = m * k" by (elim dvdE)
  have "(2 * \<bar>c\<bar> + m) div (2 * m) = \<bar>k\<bar>"
  proof -
    have e: "2 * \<bar>c\<bar> + m = m + \<bar>k\<bar> * (2 * m)" using m by (simp add: c abs_mult)
    show ?thesis unfolding e using m by (simp add: div_pos_pos_trivial)
  qed
  then show ?thesis using m by (simp add: div_half_up_def c sgn_mult abs_mult sgn_mult_abs mult.commute abs_mult_sgn)
qed

lemma to_minor_units_exact: "whole_minor d \<Longrightarrow> of_int (to_minor_units d) = 100 * dec_val d"
proof -
  assume wm: "whole_minor d"
  consider "0 \<le> dexp d" | "dexp d = -1" | "dexp d = -2" | "dexp d < -2" by linarith
  then show ?thesis
  proof cases
    case 1
    then have e: "nat (dexp d + 2) = nat (dexp d) + 2" by linarith
    from 1 show ?thesis by (simp add: to_minor_units_def dec_val_def e power_add)
  next
    case 4
    define k where "k = nat (- dexp d - 2)"
    have e: "nat (- dexp d) = k + 2" "nat (- (dexp d + 2)) = k" "nat (- dexp d - 2) = k" using 4 by (auto simp: k_def)
    have "div_half_up (coeff d) (10 ^ k) * 10 ^ k = coeff d"
      using wm 4 by (intro div_half_up_dvd) (auto simp: whole_minor_def k_def)
    then have "(of_int (div_half_up (coeff d) (10 ^ k)) :: real) * 10 ^ k = of_int (coeff d)"
      by (metis of_int_mult of_int_numeral of_int_power)
    then show ?thesis using 4 by (simp add: to_minor_units_def dec_val_def e power_add field_simps)
  qed (auto simp: to_minor_units_def dec_val_def)
qed

lemma to_minor_units_le_iff:
  "whole_minor a \<Longrightarrow> whole_minor b \<Longrightarrow> to_minor_units a \<le> to_minor_units b \<longleftrightarrow> dec_val a \<le> dec_val b"
  using to_minor_units_exact [of a] to_minor_units_exact [of b] by linarith

lemma to_minor_units_eq_iff:
  "whole_minor a \<Longrightarrow> whole_minor b \<Longrightarrow> to_minor_units a = to_minor_units b \<longleftrightarrow> dec_val a = dec_val b"
  by (metis eq_iff to_minor_units_le_iff)

lemma div_half_up_near:
  assumes "0 < m"
  shows "\<bar>2 * (div_half_up c m * m - c)\<bar> \<le> m"
proof -
  define q where "q = (2 * \<bar>c\<bar> + m) div (2 * m)"
  have b: "2 * m * q \<le> 2 * \<bar>c\<bar> + m" "2 * \<bar>c\<bar> + m < 2 * m * q + 2 * m"
    unfolding q_def
    using assms pos_mod_bound [of "2 * m" "2 * \<bar>c\<bar> + m"] pos_mod_sign [of "2 * m" "2 * \<bar>c\<bar> + m"]
      mult_div_mod_eq [of "2 * m" "2 * \<bar>c\<bar> + m"] by linarith+
  have d: "div_half_up c m * m = sgn c * (m * q)" by (simp add: div_half_up_def q_def)
  show ?thesis
    unfolding d using b assms by (cases c "0 :: int" rule: linorder_cases) simp_all
qed

definition dec_of_minor :: "int \<Rightarrow> decimal" where
  "dec_of_minor n = \<lparr>coeff = n, dexp = -2\<rparr>"

lemma to_minor_of_minor [simp]: "to_minor_units (dec_of_minor n) = n"
  by (simp add: to_minor_units_def dec_of_minor_def)

lemma whole_minor_of_minor [simp]: "whole_minor (dec_of_minor n)"
  by (simp add: whole_minor_def dec_of_minor_def)

lemma dec_val_of_minor: "dec_val (dec_of_minor n) = of_int n / 100"
  by (simp add: dec_val_def dec_of_minor_def)

end
