(* ===== verification/Json.thy ===== *)
theory Json
  imports Prelude
begin

text \<open>
  JSON values and \<open>json.dumps\<close>, as the hashes, the audit chain and the idempotency
  records use it. A Python dict is an association list in insertion order. The decimal
  text of a float is the interpreter's \<open>float.__repr__\<close>, a parameter \<open>frepr\<close> here; what
  is relied on is \<open>float_repr_ok\<close>. The main fact is that the canonical form
  (\<open>sort_keys=True\<close>, compact separators) determines the value up to the order of
  dict entries, so a collision of two hashed blobs is a collision of the values or of the
  hash function itself.
\<close>

datatype json =
    JNull
  | JBool bool
  | JInt int
  | JFloat real
  | JStr string
  | JList "json list"
  | JObj "(string \<times> json) list"

section \<open>String escapes (\<open>ensure_ascii=True\<close>)\<close>

definition hex_char :: "nat \<Rightarrow> char" where
  "hex_char d = (if d < 10 then char_of (48 + d) else char_of (87 + d))"

definition esc_char :: "char \<Rightarrow> string" where
  "esc_char c = (let n = (of_char c :: nat) in
     if c = CHR 0x22 then [CHR 0x5C, CHR 0x22]
     else if c = CHR 0x5C then [CHR 0x5C, CHR 0x5C]
     else if n = 10 then [CHR 0x5C, CHR ''n'']
     else if n = 13 then [CHR 0x5C, CHR ''r'']
     else if n = 9 then [CHR 0x5C, CHR ''t'']
     else if n = 12 then [CHR 0x5C, CHR ''f'']
     else if n = 8 then [CHR 0x5C, CHR ''b'']
     else if 32 \<le> n \<and> n \<le> 126 then [c]
     else [CHR 0x5C, CHR ''u'', CHR ''0'', CHR ''0'', hex_char (n div 16), hex_char (n mod 16)])"

definition quote :: "string \<Rightarrow> string" where
  "quote s = CHR 0x22 # concat (map esc_char s) @ [CHR 0x22]"

text \<open>Reading one escaped unit back.\<close>

definition hex_val :: "char \<Rightarrow> nat" where
  "hex_val c = (let n = of_char c in if n < 58 then n - 48 else n - 87)"

definition unesc1 :: "string \<Rightarrow> char \<times> string" where
  "unesc1 s = (if hd s \<noteq> CHR 0x5C then (hd s, tl s)
     else let k = s ! 1 in
       if k = CHR ''n'' then (char_of (10 :: nat), drop 2 s)
       else if k = CHR ''r'' then (char_of (13 :: nat), drop 2 s)
       else if k = CHR ''t'' then (char_of (9 :: nat), drop 2 s)
       else if k = CHR ''f'' then (char_of (12 :: nat), drop 2 s)
       else if k = CHR ''b'' then (char_of (8 :: nat), drop 2 s)
       else if k = CHR ''u'' then (char_of (16 * hex_val (s ! 4) + hex_val (s ! 5)), drop 6 s)
       else (k, drop 2 s))"

lemma hex_val_char: "d < 16 \<Longrightarrow> hex_val (hex_char d) = d"
  by (simp add: hex_char_def hex_val_def)

lemma unesc1_esc_char: "unesc1 (esc_char c @ s) = (c, s)"
proof -
  have b: "(of_char c :: nat) div 16 < 16"
    by (rule less_mult_imp_div_less) (use nat_of_char_less_256 [of c] in simp)
  have hx: "char_of (16 * hex_val (hex_char (of_char c div 16)) + hex_val (hex_char (of_char c mod 16))) = c"
    using b by (simp add: hex_val_char)
  have k: "(of_char c :: nat) = k \<Longrightarrow> c = char_of k" for k by auto
  consider "c = CHR 0x22" | "c = CHR 0x5C" | "c = char_of (10 :: nat)" | "c = char_of (13 :: nat)"
    | "c = char_of (9 :: nat)" | "c = char_of (12 :: nat)" | "c = char_of (8 :: nat)"
    | (raw) "c \<noteq> CHR 0x5C" "esc_char c = [c]"
    | (hex) "esc_char c = [CHR 0x5C, CHR ''u'', CHR ''0'', CHR ''0'', hex_char (of_char c div 16), hex_char (of_char c mod 16)]"
    using k unfolding esc_char_def Let_def by presburger
  then show ?thesis
  proof cases
    case raw
    then show ?thesis by (simp add: unesc1_def)
  next
    case hex
    then show ?thesis using hx by (simp add: unesc1_def Let_def)
  qed (simp_all add: esc_char_def unesc1_def)
qed

lemma esc_char_prefix_free: "esc_char c @ s = esc_char d @ t \<Longrightarrow> c = d \<and> s = t"
  by (metis Pair_inject unesc1_esc_char)

lemma esc_char_not_quote: "esc_char c \<noteq> CHR 0x22 # s" "CHR 0x22 # s \<noteq> esc_char c" "esc_char c \<noteq> []"
  by (auto simp: esc_char_def Let_def)

lemma escape_body_inj:
  "concat (map esc_char s) @ CHR 0x22 # r = concat (map esc_char s') @ CHR 0x22 # r' \<Longrightarrow>
   s = s' \<and> r = r'"
proof (induction s arbitrary: s')
  case Nil
  then show ?case
    by (cases s') (auto simp: append_eq_Cons_conv Cons_eq_append_conv esc_char_not_quote)
next
  case (Cons c s)
  show ?case
  proof (cases s')
    case Nil
    with Cons.prems show ?thesis
      by (auto simp: append_eq_Cons_conv Cons_eq_append_conv esc_char_not_quote)
  next
    case (Cons d s'')
    with Cons.prems have
      "esc_char c @ (concat (map esc_char s) @ CHR 0x22 # r) =
       esc_char d @ (concat (map esc_char s'') @ CHR 0x22 # r')" by simp
    then have "c = d" and rest: "concat (map esc_char s) @ CHR 0x22 # r =
       concat (map esc_char s'') @ CHR 0x22 # r'"
      by (auto dest: esc_char_prefix_free)
    with Cons.IH [OF rest] Cons show ?thesis by simp
  qed
qed

lemma quote_prefix_free: "quote s @ r = quote s' @ r' \<Longrightarrow> s = s' \<and> r = r'"
  by (auto simp: quote_def dest: escape_body_inj)

lemma quote_inj: "quote s = quote s' \<Longrightarrow> s = s'"
  using quote_prefix_free [of s "[]" s' "[]"] by simp

section \<open>\<open>json.dumps\<close>\<close>

text \<open>
  \<open>dumps frepr sk isep ksep\<close>: \<open>sk\<close> is \<open>sort_keys\<close>; \<open>isep\<close> and \<open>ksep\<close> are the
  separators.
\<close>

primrec dumps :: "(real \<Rightarrow> string) \<Rightarrow> bool \<Rightarrow> string \<Rightarrow> string \<Rightarrow> json \<Rightarrow> string" where
  "dumps frepr sk isep ksep JNull = ''null''"
| "dumps frepr sk isep ksep (JBool b) = (if b then ''true'' else ''false'')"
| "dumps frepr sk isep ksep (JInt i) = str_int i"
| "dumps frepr sk isep ksep (JFloat x) = frepr x"
| "dumps frepr sk isep ksep (JStr s) = quote s"
| "dumps frepr sk isep ksep (JList xs) =
     ''['' @ join isep (map (dumps frepr sk isep ksep) xs) @ '']''"
| "dumps frepr sk isep ksep (JObj kvs) =
     (let ts = map (map_prod id (dumps frepr sk isep ksep)) kvs;
          us = (if sk then sort_key fst ts else ts)
      in ''{'' @ join isep (map (\<lambda>(k, t). quote k @ ksep @ t) us) @ ''}'')"

definition canonical_dumps :: "(real \<Rightarrow> string) \<Rightarrow> json \<Rightarrow> string" where
  "canonical_dumps frepr j = dumps frepr True '','' '':'' j"

text \<open>The value with every dict's entries in key order: what \<open>sort_keys\<close> prints.\<close>

primrec canon :: "json \<Rightarrow> json" where
  "canon JNull = JNull"
| "canon (JBool b) = JBool b"
| "canon (JInt i) = JInt i"
| "canon (JFloat x) = JFloat x"
| "canon (JStr s) = JStr s"
| "canon (JList xs) = JList (map canon xs)"
| "canon (JObj kvs) = JObj (sort_key fst (map (map_prod id canon) kvs))"

lemma insort_key_map_prod:
  "map (map_prod id f) (insort_key fst x xs) = insort_key fst (map_prod id f x) (map (map_prod id f) xs)"
  by (induction xs) (auto simp: map_prod_def split: prod.splits)

lemma sort_key_map_prod:
  "map (map_prod id f) (sort_key fst xs) = sort_key fst (map (map_prod id f) xs)"
  by (induction xs) (simp_all add: insort_key_map_prod del: map_map id_apply map_prod_simp)

lemma canonical_dumps_canon:
  "canonical_dumps frepr j = dumps frepr False '','' '':'' (canon j)"
  unfolding canonical_dumps_def
proof (induction j)
  case (JList xs)
  then have "map (dumps frepr True '','' '':'') xs =
    map (dumps frepr False '','' '':'') (map canon xs)" by simp
  then show ?case by (simp only: dumps.simps canon.simps)
next
  case (JObj kvs)
  have "map (map_prod id (dumps frepr True '','' '':'')) kvs =
    map (map_prod id (dumps frepr False '','' '':'')) (map (map_prod id canon) kvs)"
    using JObj by (auto simp: map_prod_def split: prod.splits)
  then show ?case by (simp only: dumps.simps canon.simps sort_key_map_prod if_True if_False Let_def)
qed simp_all

section \<open>The text determines the value\<close>

text \<open>
  What is relied on of \<open>float.__repr__\<close>: it round-trips, it has a point or an exponent, so
  it is not the text of an int, and it uses only the characters of a JSON number.
\<close>

definition num_char :: "char \<Rightarrow> bool" where
  "num_char c \<longleftrightarrow> is_digit c \<or> c \<in> set ''+-.e''"

text \<open>
  A Python float is one of finitely many reals, so the law is stated of the set \<open>F\<close> of the
  values that are printed.
\<close>

definition float_repr_ok :: "real set \<Rightarrow> (real \<Rightarrow> string) \<Rightarrow> bool" where
  "float_repr_ok F frepr \<longleftrightarrow> inj_on frepr F \<and>
     (\<forall>x \<in> F. frepr x \<noteq> [] \<and> list_all num_char (frepr x) \<and>
          (CHR ''.'' \<in> set (frepr x) \<or> CHR ''e'' \<in> set (frepr x)))"

lemma float_repr_ok_empty [simp]: "float_repr_ok {} frepr"
  by (simp add: float_repr_ok_def)

text \<open>The floats in a value.\<close>

primrec json_floats :: "json \<Rightarrow> real set" where
  "json_floats JNull = {}"
| "json_floats (JBool b) = {}"
| "json_floats (JInt i) = {}"
| "json_floats (JFloat x) = {x}"
| "json_floats (JStr s) = {}"
| "json_floats (JList xs) = \<Union> (set (map json_floats xs))"
| "json_floats (JObj kvs) = \<Union> (set (map snd (map (map_prod id json_floats) kvs)))"

lemma json_floats_obj: "json_floats (JObj kvs) = (\<Union>p \<in> set kvs. json_floats (snd p))"
  by (simp add: image_image)

lemma json_floats_canon: "json_floats (canon j) = json_floats j"
proof (induction j)
  case (JObj kvs)
  then have "json_floats (canon (snd p)) = json_floats (snd p)" if "p \<in> set kvs" for p
    using that by (metis snds.intros)
  then show ?case by (simp only: canon.simps json_floats_obj) simp
qed auto

definition num_text :: "string \<Rightarrow> bool" where "num_text s \<longleftrightarrow> s \<noteq> [] \<and> list_all num_char s"

definition closes :: "string \<Rightarrow> bool" where
  "closes r \<longleftrightarrow> r = [] \<or> hd r \<in> {CHR '','', CHR '']'', CHR ''}''}"

lemma str_int_text: "num_text (str_int i)" "CHR ''.'' \<notin> set (str_int i)" "CHR ''e'' \<notin> set (str_int i)"
proof -
  have d: "list_all num_char (str_nat n) \<and> CHR ''.'' \<notin> set (str_nat n) \<and> CHR ''e'' \<notin> set (str_nat n)" for n
    using str_nat_digits [of n] by (auto simp: num_char_def list_all_iff is_digit_def)
  show "num_text (str_int i)" "CHR ''.'' \<notin> set (str_int i)" "CHR ''e'' \<notin> set (str_int i)"
    using d by (auto simp: str_int_def num_text_def num_char_def)
qed

lemma num_text_split:
  assumes "num_text s" "num_text t" "closes r" "closes r'" "s @ r = t @ r'"
  shows "s = t \<and> r = r'"
proof -
  have "takeWhile num_char (u @ v) = u" if "num_text u" "closes v" for u v
    using that by (cases v) (auto simp: num_text_def closes_def num_char_def is_digit_def list_all_iff)
  then have "s = t" using assms by metis
  with assms(5) show ?thesis by simp
qed

lemma num_text_hd: "num_text s \<Longrightarrow> \<exists>c s'. s = c # s' \<and> num_char c"
  by (cases s) (auto simp: num_text_def)

text \<open>The first character of a dump tells the constructors apart.\<close>

definition dump_tag :: "json \<Rightarrow> nat" where
  "dump_tag j = (case j of JNull \<Rightarrow> 0 | JBool b \<Rightarrow> if b then 1 else 2 | JInt _ \<Rightarrow> 3 | JFloat _ \<Rightarrow> 3
     | JStr _ \<Rightarrow> 4 | JList _ \<Rightarrow> 5 | JObj _ \<Rightarrow> 6)"

definition tag_of_char :: "char \<Rightarrow> nat" where
  "tag_of_char c = (if num_char c then 3 else if c = CHR ''n'' then 0 else if c = CHR ''t'' then 1
     else if c = CHR ''f'' then 2 else if c = CHR 0x22 then 4 else if c = CHR ''['' then 5 else 6)"

lemma dumps_tag:
  assumes "float_repr_ok F frepr" "json_floats j \<subseteq> F"
  shows "dumps frepr sk isep ksep j \<noteq> []" "tag_of_char (hd (dumps frepr sk isep ksep j @ r)) = dump_tag j"
proof -
  have f: "num_text (frepr x)" if "x \<in> F" for x
    using assms(1) that by (auto simp: float_repr_ok_def num_text_def)
  show ne: "dumps frepr sk isep ksep j \<noteq> []"
    using assms(2) f str_int_text(1) by (cases j) (auto simp: num_text_def quote_def Let_def)
  have n: "tag_of_char (hd (s @ r)) = 3" if "num_text s" for s
    using num_text_hd [OF that] by (auto simp: tag_of_char_def)
  show "tag_of_char (hd (dumps frepr sk isep ksep j @ r)) = dump_tag j"
    using assms(2) n [OF f] n [OF str_int_text(1)]
    by (cases j) (auto simp: dump_tag_def quote_def Let_def tag_of_char_def num_char_def is_digit_def)
qed

lemma dump_tag_eq:
  assumes "float_repr_ok F frepr" "json_floats j \<subseteq> F" "json_floats k \<subseteq> F"
    "dumps frepr sk isep ksep j @ r = dumps frepr sk isep ksep k @ r'"
  shows "dump_tag k = dump_tag j"
  using dumps_tag(2) [OF assms(1,2)] dumps_tag(2) [OF assms(1,3)] assms(4) by metis

lemma closes_not_tag:
  assumes "closes (c # r)"
  shows "tag_of_char c = 6 \<and> c \<noteq> CHR ''{''"
proof -
  have t: "tag_of_char CHR '','' = 6" "tag_of_char CHR '']'' = 6" "tag_of_char CHR ''}'' = 6"
    by (simp_all add: tag_of_char_def num_char_def is_digit_def)
  from assms have "c = CHR '','' \<or> c = CHR '']'' \<or> c = CHR ''}''" by (simp add: closes_def)
  with t show ?thesis by auto
qed

text \<open>A comma-separated, bracketed list of items parses back, if each item does.\<close>

definition parses :: "'a set \<Rightarrow> ('a \<Rightarrow> string) \<Rightarrow> 'a \<Rightarrow> bool" where
  "parses D f x \<longleftrightarrow> f x \<noteq> [] \<and> \<not> closes (f x) \<and>
     (\<forall>y \<in> D. \<forall>r r'. closes r \<longrightarrow> closes r' \<longrightarrow> f x @ r = f y @ r' \<longrightarrow> x = y \<and> r = r')"

lemma join_items_inj:
  assumes "\<forall>x \<in> set xs. parses D f x" "set ys \<subseteq> D" "\<forall>y \<in> D. f y \<noteq> [] \<and> \<not> closes (f y)"
    "c \<in> {CHR '']'', CHR ''}''}" "join '','' (map f xs) @ c # r = join '','' (map f ys) @ c # r'"
  shows "xs = ys \<and> r = r'"
  using assms
proof (induction xs arbitrary: ys)
  case Nil
  have nc: "closes (c # z)" for z using Nil.prems(4) by (auto simp: closes_def)
  show ?case
  proof (cases ys)
    case Nil
    with Nil.prems show ?thesis by simp
  next
    case (Cons y ys')
    then have "hd (f y) = c" using Nil.prems(2,3,5) by (cases ys'; cases "f y") auto
    then show ?thesis using Nil.prems(2,3) nc Cons by (auto simp: closes_def)
  qed
next
  case (Cons x xs)
  have cl: "closes (c # z)" "closes (CHR '','' # z)" for z
    using Cons.prems(4) by (auto simp: closes_def)
  have x: "f x \<noteq> []" "\<not> closes (f x)" using Cons.prems(1) by (simp_all add: parses_def)
  have tl: "\<exists>z. join '','' (map f (w # ws)) @ c # q = f w @ z \<and> closes z \<and>
      (ws = [] \<longrightarrow> z = c # q) \<and> (ws \<noteq> [] \<longrightarrow> z = CHR '','' # join '','' (map f ws) @ c # q)" for w ws q
    using cl by (cases ws) auto
  show ?case
  proof (cases ys)
    case Nil
    then have "hd (f x) = c" using x Cons.prems(5) by (cases xs; cases "f x") auto
    then show ?thesis using x cl by (auto simp: closes_def)
  next
    case ys: (Cons y ys')
    obtain z where z: "join '','' (map f (x # xs)) @ c # r = f x @ z" "closes z"
      "xs = [] \<longrightarrow> z = c # r" "xs \<noteq> [] \<longrightarrow> z = CHR '','' # join '','' (map f xs) @ c # r"
      using tl by blast
    obtain z' where z': "join '','' (map f (y # ys')) @ c # r' = f y @ z'" "closes z'"
      "ys' = [] \<longrightarrow> z' = c # r'" "ys' \<noteq> [] \<longrightarrow> z' = CHR '','' # join '','' (map f ys') @ c # r'"
      using tl by blast
    have "f x @ z = f y @ z'" using Cons.prems(5) z(1) z'(1) ys by simp
    then have eq: "x = y" "z = z'"
      using Cons.prems(1,2) ys z(2) z'(2) unfolding parses_def by (metis list.set_intros(1) subsetD)+
    have "xs = ys' \<and> r = r'"
    proof (cases "xs = []")
      case True
      with eq z(3) z'(3,4) Cons.prems(4) show ?thesis by (cases "ys' = []") auto
    next
      case False
      with eq z(4) z'(3,4) Cons.prems(4) have "join '','' (map f xs) @ c # r = join '','' (map f ys') @ c # r'"
        by (cases "ys' = []") auto
      then show ?thesis using Cons.IH [of ys'] Cons.prems ys by simp
    qed
    with eq ys show ?thesis by simp
  qed
qed

lemma dumps_not_closes:
  assumes "float_repr_ok F frepr" "json_floats j \<subseteq> F"
  shows "\<not> closes (dumps frepr False '','' '':'' j)"
proof (cases "dumps frepr False '','' '':'' j")
  case Nil
  then show ?thesis using dumps_tag(1) [OF assms] by simp
next
  case (Cons c r)
  have t: "tag_of_char c = dump_tag j"
    using dumps_tag(2) [OF assms, of False "'',''" "'':''" "[]"] Cons by simp
  show ?thesis
  proof
    assume "closes (dumps frepr False '','' '':'' j)"
    then have c: "tag_of_char c = 6" "c \<noteq> CHR ''{''" using Cons closes_not_tag by auto
    with t have "dump_tag j = 6" by simp
    then obtain kvs where "j = JObj kvs" by (cases j) (auto simp: dump_tag_def split: if_splits)
    with Cons c show False by (simp add: Let_def)
  qed
qed

lemma dumps_parses:
  assumes f: "float_repr_ok F frepr" and "json_floats j \<subseteq> F"
  shows "parses {k. json_floats k \<subseteq> F} (dumps frepr False '','' '':'') j"
proof -
  let ?d = "dumps frepr False '','' '':''"
  let ?D = "{k. json_floats k \<subseteq> F}"
  have ne: "?d k \<noteq> [] \<and> \<not> closes (?d k)" if "k \<in> ?D" for k
    using that dumps_tag(1) [OF f] dumps_not_closes [OF f] by simp
  have tag: "dump_tag k = dump_tag l" if "k \<in> ?D" "l \<in> ?D" "?d l @ r = ?d k @ r'" for k l r r'
    using dump_tag_eq [OF f _ _ that(3)] that by simp
  have fr: "num_text (frepr x)" "CHR ''.'' \<in> set (frepr x) \<or> CHR ''e'' \<in> set (frepr x)" if "x \<in> F" for x
    using f that by (auto simp: float_repr_ok_def num_text_def)
  have inj: "frepr x = frepr y \<Longrightarrow> x = y" if "x \<in> F" "y \<in> F" for x y
    using f that by (auto simp: float_repr_ok_def inj_on_def)
  have "\<forall>k \<in> ?D. \<forall>r r'. closes r \<longrightarrow> closes r' \<longrightarrow> ?d j @ r = ?d k @ r' \<longrightarrow> j = k \<and> r = r'"
    using assms(2)
  proof (induction j)
    case (JList xs)
    show ?case
    proof (intro ballI allI impI)
      fix k r r' assume D: "k \<in> ?D" and cl: "closes r" "closes r'" and eq: "?d (JList xs) @ r = ?d k @ r'"
      have "dump_tag k = 5" using tag [OF D _ eq] JList.prems by (simp add: dump_tag_def)
      then obtain ys where k: "k = JList ys" by (cases k) (auto simp: dump_tag_def split: if_splits)
      have sub: "set xs \<subseteq> ?D" "set ys \<subseteq> ?D" using JList.prems D k by auto
      then have "\<forall>x \<in> set xs. parses ?D ?d x" using JList.IH ne unfolding parses_def by blast
      moreover have "join '','' (map ?d xs) @ CHR '']'' # r = join '','' (map ?d ys) @ CHR '']'' # r'"
        using eq k by simp
      ultimately show "JList xs = k \<and> r = r'" using join_items_inj [of xs ?D ?d ys "CHR '']''" r r'] ne k sub by auto
    qed
  next
    case (JObj kvs)
    let ?i = "\<lambda>(k, v). quote k @ '':'' @ ?d v"
    have unf: "?d (JObj us) = ''{'' @ join '','' (map ?i us) @ ''}''" for us
    proof -
      have "map (\<lambda>(k, t). quote k @ '':'' @ t) (map (map_prod id ?d) us) = map ?i us" by auto
      then show ?thesis by (simp add: Let_def del: map_map)
    qed
    have inn: "?i p \<noteq> [] \<and> \<not> closes (?i p)" for p by (auto simp: quote_def closes_def split: prod.splits)
    let ?P = "{p. snd p \<in> ?D}"
    have kv: "set kvs \<subseteq> ?P" using JObj.prems unfolding json_floats_obj by blast
    have ip: "parses ?P ?i p" if p: "p \<in> set kvs" for p
    proof -
      obtain a v where pa: "p = (a, v)" by (cases p)
      have v: "closes r \<longrightarrow> closes r' \<longrightarrow> ?d v @ r = ?d w @ r' \<longrightarrow> v = w \<and> r = r'" if "w \<in> ?D" for w r r'
        using JObj.IH [of p v] p pa kv that by (auto intro: snds.intros)
      show ?thesis unfolding parses_def
      proof (intro conjI ballI allI impI)
        fix q r r' assume qP: "q \<in> ?P" and cl: "closes r" "closes r'" and e: "?i p @ r = ?i q @ r'"
        obtain b w where q: "q = (b, w)" by (cases q)
        from e pa q have e2: "quote a @ (CHR '':'' # ?d v @ r) = quote b @ (CHR '':'' # ?d w @ r')" by simp
        from quote_prefix_free [OF e2] have ab: "a = b" and "?d v @ r = ?d w @ r'" by auto
        with v [of w] cl qP q have "v = w \<and> r = r'" by simp
        with ab pa q show "p = q" "r = r'" by auto
      qed (use inn in auto)
    qed
    show ?case
    proof (intro ballI allI impI)
      fix k r r' assume D: "k \<in> ?D" and cl: "closes r" "closes r'" and eq: "?d (JObj kvs) @ r = ?d k @ r'"
      have "dump_tag k = 6" using tag [OF D _ eq] JObj.prems by (simp add: dump_tag_def)
      then obtain us where k: "k = JObj us" by (cases k) (auto simp: dump_tag_def split: if_splits)
      have us: "set us \<subseteq> ?P" using D unfolding k json_floats_obj mem_Collect_eq by blast
      have "join '','' (map ?i kvs) @ CHR ''}'' # r = join '','' (map ?i us) @ CHR ''}'' # r'"
        using eq unfolding k unf by simp
      then show "JObj kvs = k \<and> r = r'"
        using join_items_inj [of kvs ?P ?i us "CHR ''}''" r r'] ip inn us k by auto
    qed
  next
    case (JStr s)
    show ?case
    proof (intro ballI allI impI)
      fix k r r' assume D: "k \<in> ?D" and "closes r" "closes r'" and eq: "?d (JStr s) @ r = ?d k @ r'"
      have "dump_tag k = 4" using tag [OF D _ eq] JStr.prems by (simp add: dump_tag_def)
      then obtain t where "k = JStr t" by (cases k) (auto simp: dump_tag_def split: if_splits)
      with eq show "JStr s = k \<and> r = r'" by (auto dest: quote_prefix_free)
    qed
  next
    case (JInt i)
    show ?case
    proof (intro ballI allI impI)
      fix k r r' assume D: "k \<in> ?D" and cl: "closes r" "closes r'" and eq: "?d (JInt i) @ r = ?d k @ r'"
      have "dump_tag k = 3" using tag [OF D _ eq] JInt.prems by (simp add: dump_tag_def)
      then consider (i) i' where "k = JInt i'" | (f) x where "k = JFloat x"
        by (cases k) (auto simp: dump_tag_def split: if_splits)
      then show "JInt i = k \<and> r = r'"
      proof cases
        case i
        with eq cl num_text_split [OF str_int_text(1) str_int_text(1)] str_int_inj show ?thesis
          by (metis dumps.simps(3))
      next
        case f
        with D have x: "x \<in> F" by simp
        with f eq cl num_text_split [OF str_int_text(1) fr(1) [OF x]] have "str_int i = frepr x" by simp
        with fr(2) [OF x] str_int_text show ?thesis by metis
      qed
    qed
  next
    case (JFloat z)
    then have z: "z \<in> F" by simp
    show ?case
    proof (intro ballI allI impI)
      fix k r r' assume D: "k \<in> ?D" and cl: "closes r" "closes r'" and eq: "?d (JFloat z) @ r = ?d k @ r'"
      have "dump_tag k = 3" using tag [OF D _ eq] JFloat.prems by (simp add: dump_tag_def)
      then consider (i) i' where "k = JInt i'" | (f) x where "k = JFloat x"
        by (cases k) (auto simp: dump_tag_def split: if_splits)
      then show "JFloat z = k \<and> r = r'"
      proof cases
        case i
        with eq have "frepr z @ r = str_int i' @ r'" by simp
        with cl num_text_split [OF fr(1) [OF z] str_int_text(1)] have "frepr z = str_int i'" by blast
        with fr(2) [OF z] str_int_text show ?thesis by metis
      next
        case f
        with D have x: "x \<in> F" by simp
        from f eq cl num_text_split [OF fr(1) [OF z] fr(1) [OF x]] inj [OF z x] show ?thesis by simp
      qed
    qed
  next
    case JNull
    show ?case
    proof (intro ballI allI impI)
      fix k r r' assume D: "k \<in> ?D" and "closes r" "closes r'" and eq: "?d JNull @ r = ?d k @ r'"
      have "dump_tag k = 0" using tag [OF D _ eq] by (simp add: dump_tag_def)
      then have "k = JNull" by (cases k) (auto simp: dump_tag_def split: if_splits)
      with eq show "JNull = k \<and> r = r'" by simp
    qed
  next
    case (JBool b)
    show ?case
    proof (intro ballI allI impI)
      fix k r r' assume D: "k \<in> ?D" and "closes r" "closes r'" and eq: "?d (JBool b) @ r = ?d k @ r'"
      have "dump_tag k = dump_tag (JBool b)" using tag [OF D _ eq] by simp
      then have "k = JBool b" by (cases k; cases b) (auto simp: dump_tag_def split: if_splits)
      with eq show "JBool b = k \<and> r = r'" by simp
    qed
  qed
  then show ?thesis using ne assms(2) by (auto simp: parses_def)
qed

text \<open>
  The canonical text determines the value, up to the order of dict entries. This is the
  fact every comparison of two hashes rests on.
\<close>

theorem canonical_dumps_inj:
  assumes "float_repr_ok F frepr" "json_floats a \<subseteq> F" "json_floats b \<subseteq> F"
    "canonical_dumps frepr a = canonical_dumps frepr b"
  shows "canon a = canon b"
proof -
  have "parses {k. json_floats k \<subseteq> F} (dumps frepr False '','' '':'') (canon a)"
    using assms(2) by (intro dumps_parses [OF assms(1)]) (simp add: json_floats_canon)
  moreover have "canon b \<in> {k. json_floats k \<subseteq> F}" using assms(3) by (simp add: json_floats_canon)
  moreover have "closes []" by (simp add: closes_def)
  ultimately show ?thesis using assms(4) unfolding parses_def canonical_dumps_canon by (metis append_Nil2)
qed

section \<open>Reading a dict\<close>

fun jget :: "json \<Rightarrow> string \<Rightarrow> json option" where
  "jget (JObj kvs) k = map_of kvs k"
| "jget _ k = None"

fun jstr :: "json \<Rightarrow> string option" where
  "jstr (JStr s) = Some s"
| "jstr _ = None"

definition jopt :: "('a \<Rightarrow> json) \<Rightarrow> 'a option \<Rightarrow> json" where
  "jopt f x = (case x of None \<Rightarrow> JNull | Some y \<Rightarrow> f y)"

lemma jopt_inj: "inj f \<Longrightarrow> (\<And>y. f y \<noteq> JNull) \<Longrightarrow> jopt f x = jopt f y \<Longrightarrow> x = y"
  unfolding jopt_def by (metis injD option.case_eq_if option.expand)

section \<open>Truth and text of a value\<close>

text \<open>\<open>bool(v)\<close>.\<close>

fun truthy :: "json \<Rightarrow> bool" where
  "truthy JNull = False"
| "truthy (JBool b) = b"
| "truthy (JInt i) = (i \<noteq> 0)"
| "truthy (JFloat x) = (x \<noteq> 0)"
| "truthy (JStr s) = (s \<noteq> [])"
| "truthy (JList xs) = (xs \<noteq> [])"
| "truthy (JObj kvs) = (kvs \<noteq> [])"

text \<open>\<open>repr(str)\<close>: single quotes, unless the text has one and no double quote.\<close>

definition repr_char :: "char \<Rightarrow> char \<Rightarrow> string" where
  "repr_char q c = (let n = (of_char c :: nat) in
     if c = q \<or> c = CHR 0x5C then [CHR 0x5C, c]
     else if n = 10 then [CHR 0x5C, CHR ''n'']
     else if n = 13 then [CHR 0x5C, CHR ''r'']
     else if n = 9 then [CHR 0x5C, CHR ''t'']
     else if 32 \<le> n \<and> n \<le> 126 then [c]
     else [CHR 0x5C, CHR ''x'', hex_char (n div 16), hex_char (n mod 16)])"

definition repr_str :: "string \<Rightarrow> string" where
  "repr_str s = (let q = (if CHR 0x27 \<in> set s \<and> CHR 0x22 \<notin> set s then CHR 0x22 else CHR 0x27)
     in q # concat (map (repr_char q) s) @ [q])"

primrec py_repr :: "(real \<Rightarrow> string) \<Rightarrow> json \<Rightarrow> string" where
  "py_repr frepr JNull = ''None''"
| "py_repr frepr (JBool b) = (if b then ''True'' else ''False'')"
| "py_repr frepr (JInt i) = str_int i"
| "py_repr frepr (JFloat x) = frepr x"
| "py_repr frepr (JStr s) = repr_str s"
| "py_repr frepr (JList xs) = ''['' @ join '', '' (map (py_repr frepr) xs) @ '']''"
| "py_repr frepr (JObj kvs) = (let ts = map (map_prod id (py_repr frepr)) kvs in
     ''{'' @ join '', '' (map (\<lambda>(k, t). repr_str k @ '': '' @ t) ts) @ ''}'')"

text \<open>\<open>str(v)\<close>.\<close>

definition py_str :: "(real \<Rightarrow> string) \<Rightarrow> json \<Rightarrow> string" where
  "py_str frepr j = (case j of JStr s \<Rightarrow> s | _ \<Rightarrow> py_repr frepr j)"

lemma py_str_JStr [simp]: "py_str frepr (JStr s) = s" by (simp add: py_str_def)

end
