(* ===== verification/Store.thy ===== *)
theory Store
  imports Prelude
begin

text \<open>
  \<open>gateway/store.py\<close>: the shared store (the in-process implementation, whose surface is
  the one the gateway programs against) and the distributed lock built on it.

  Two interfaces are stated as locales and interpreted on the store's own operations:
  \<open>expiring_kv\<close>, the key-value part with time-to-live, whose client is the lock, and
  \<open>window_counter\<close>, the sliding-window counters, whose clients are the edge rate limit and
  the velocity rule. Every operation takes the time \<open>now\<close> it reads; the values of the
  key-value part are left abstract (\<open>'v\<close>).
\<close>

section \<open>The store and its operations\<close>

record 'v store =
  kv :: "string \<rightharpoonup> 'v \<times> real option"
  sets :: "string \<Rightarrow> string list"
  zsets :: "string \<Rightarrow> (string \<times> real) list"

definition empty_store :: "'v store" where
  "empty_store = \<lparr>kv = Map.empty, sets = (\<lambda>_. []), zsets = (\<lambda>_. [])\<rparr>"

text \<open>\<open>_alive\<close> drops an expired entry on the way.\<close>

definition st_alive :: "real \<Rightarrow> string \<Rightarrow> 'v store \<Rightarrow> bool \<times> 'v store" where
  "st_alive now key st = (case kv st key of
       None \<Rightarrow> (False, st)
     | Some (_, None) \<Rightarrow> (True, st)
     | Some (_, Some expiry) \<Rightarrow>
         if expiry < now then (False, st\<lparr>kv := (kv st)(key := None)\<rparr>) else (True, st))"

definition st_get :: "real \<Rightarrow> string \<Rightarrow> 'v store \<Rightarrow> 'v option \<times> 'v store" where
  "st_get now key st = (case st_alive now key st of
       (False, st') \<Rightarrow> (None, st')
     | (True, st') \<Rightarrow> (map_option fst (kv st' key), st'))"

text \<open>\<open>time.time() + ex if ex else None\<close>: a missing or zero \<open>ex\<close> never expires.\<close>

definition expiry_of :: "real \<Rightarrow> int option \<Rightarrow> real option" where
  "expiry_of now ex = (case ex of None \<Rightarrow> None | Some e \<Rightarrow> if e = 0 then None else Some (now + of_int e))"

definition st_set :: "real \<Rightarrow> string \<Rightarrow> 'v \<Rightarrow> int option \<Rightarrow> 'v store \<Rightarrow> bool \<times> 'v store" where
  "st_set now key v ex st = (True, st\<lparr>kv := (kv st)(key \<mapsto> (v, expiry_of now ex))\<rparr>)"

definition st_set_nx :: "real \<Rightarrow> string \<Rightarrow> 'v \<Rightarrow> int option \<Rightarrow> 'v store \<Rightarrow> bool \<times> 'v store" where
  "st_set_nx now key v ex st = (case st_alive now key st of
       (True, st') \<Rightarrow> (False, st')
     | (False, st') \<Rightarrow> (True, st'\<lparr>kv := (kv st')(key \<mapsto> (v, expiry_of now ex))\<rparr>))"

definition st_delete_if_value :: "real \<Rightarrow> string \<Rightarrow> 'v \<Rightarrow> 'v store \<Rightarrow> bool \<times> 'v store" where
  "st_delete_if_value now key v st = (case st_alive now key st of
       (False, st') \<Rightarrow> (False, st')
     | (True, st') \<Rightarrow> if map_option fst (kv st' key) = Some v
                      then (True, st'\<lparr>kv := (kv st')(key := None)\<rparr>) else (False, st'))"

definition st_sadd :: "string \<Rightarrow> string \<Rightarrow> 'v store \<Rightarrow> 'v store" where
  "st_sadd key m st = st\<lparr>sets := (sets st)(key := List.insert m (sets st key))\<rparr>"

definition st_srem :: "string \<Rightarrow> string \<Rightarrow> 'v store \<Rightarrow> 'v store" where
  "st_srem key m st = st\<lparr>sets := (sets st)(key := removeAll m (sets st key))\<rparr>"

definition st_sismember :: "string \<Rightarrow> string \<Rightarrow> 'v store \<Rightarrow> bool" where
  "st_sismember key m st \<longleftrightarrow> m \<in> set (sets st key)"

definition st_smembers :: "string \<Rightarrow> 'v store \<Rightarrow> string list" where
  "st_smembers key st = sets st key"

text \<open>\<open>z[uuid4().hex] = now\<close>: the member's name is passed in.\<close>

definition st_zadd_window :: "real \<Rightarrow> string \<Rightarrow> int \<Rightarrow> string \<Rightarrow> 'v store \<Rightarrow> nat \<times> 'v store" where
  "st_zadd_window now key window member st =
     (let live = filter (\<lambda>(m, ts). \<not> ts < now - of_int window) (zsets st key);
          z = filter (\<lambda>(m, ts). m \<noteq> member) live @ [(member, now)]
      in (length z, st\<lparr>zsets := (zsets st)(key := z)\<rparr>))"

definition st_zcount_window :: "real \<Rightarrow> string \<Rightarrow> int \<Rightarrow> 'v store \<Rightarrow> nat" where
  "st_zcount_window now key window st =
     length (filter (\<lambda>(m, ts). ts \<ge> now - of_int window) (zsets st key))"

definition st_clear_replay :: "'v store \<Rightarrow> 'v store" where
  "st_clear_replay st = st\<lparr>kv := Map.empty, zsets := (\<lambda>_. [])\<rparr>"

lemmas store_defs = st_get_def st_set_def st_set_nx_def st_delete_if_value_def st_alive_def

section \<open>The expiring key-value interface\<close>

text \<open>
  \<open>look now s k\<close> is the value visible at time \<open>now\<close>; \<open>deadline s k\<close> is the last instant it
  is visible. The laws say what each operation does to every key at every later time.
\<close>

locale expiring_kv =
  fixes get :: "real \<Rightarrow> 'k \<Rightarrow> 's \<Rightarrow> 'v option \<times> 's"
    and set_nx :: "real \<Rightarrow> 'k \<Rightarrow> 'v \<Rightarrow> int option \<Rightarrow> 's \<Rightarrow> bool \<times> 's"
    and del_val :: "real \<Rightarrow> 'k \<Rightarrow> 'v \<Rightarrow> 's \<Rightarrow> bool \<times> 's"
    and look :: "real \<Rightarrow> 's \<Rightarrow> 'k \<Rightarrow> 'v option"
  assumes get_val: "fst (get now k s) = look now s k"
    and get_look: "now \<le> t \<Longrightarrow> look t (snd (get now k s)) j = look t s j"
    and nx_ok: "fst (set_nx now k v ex s) \<longleftrightarrow> look now s k = None"
    and nx_new: "0 < e \<Longrightarrow> look now s k = None \<Longrightarrow>
          look t (snd (set_nx now k v (Some e) s)) k = (if now + of_int e < t then None else Some v)"
    and nx_old: "look now s k \<noteq> None \<or> j \<noteq> k \<Longrightarrow> now \<le> t \<Longrightarrow>
          look t (snd (set_nx now k v ex s)) j = look t s j"
    and del_ok: "fst (del_val now k v s) \<longleftrightarrow> look now s k = Some v"
    and del_look: "now \<le> t \<Longrightarrow> look t (snd (del_val now k v s)) j =
          (if j = k \<and> look now s k = Some v then None else look t s j)"
    and look_dead: "now \<le> t \<Longrightarrow> look now s k = None \<Longrightarrow> look t s k = None"
    and look_val: "now \<le> t \<Longrightarrow> look t s k = Some v \<Longrightarrow> look now s k = Some v"
begin

text \<open>
  The lock's protocol on one key: clients named by their tokens try to enter, leave and let
  time pass, in any order. \<open>holds t\<close> is what client \<open>t\<close> believes (it is inside the
  \<open>async with\<close> block), \<open>since t\<close> the time it entered.
\<close>

inductive lock_reach :: "'k \<Rightarrow> int \<Rightarrow> 's \<Rightarrow> real \<Rightarrow> ('v \<Rightarrow> bool) \<Rightarrow> ('v \<Rightarrow> real) \<Rightarrow> bool"
  for k :: 'k and ttl :: int where
  start: "look t0 s k = None \<Longrightarrow> lock_reach k ttl s t0 (\<lambda>_. False) (\<lambda>_. 0)"
| enter: "lock_reach k ttl s now holds since \<Longrightarrow> \<not> holds t \<Longrightarrow>
     set_nx now k t (Some ttl) s = (True, s') \<Longrightarrow>
     lock_reach k ttl s' now (holds(t := True)) (since(t := now))"
| wait: "lock_reach k ttl s now holds since \<Longrightarrow> set_nx now k t (Some ttl) s = (False, s') \<Longrightarrow>
     lock_reach k ttl s' now holds since"
| tick: "lock_reach k ttl s now holds since \<Longrightarrow> 0 \<le> d \<Longrightarrow> lock_reach k ttl s (now + d) holds since"
| leave: "lock_reach k ttl s now holds since \<Longrightarrow> holds t \<Longrightarrow>
     del_val now k t s = (b, s') \<Longrightarrow> lock_reach k ttl s' now (holds(t := False)) since"

text \<open>
  The invariant: a client that is inside and has not outstayed the time-to-live owns the key
  until its deadline.
\<close>

lemma lock_inv:
  assumes "lock_reach k ttl s now holds since" "0 < ttl" "holds t" "now \<le> since t + of_int ttl"
  shows "since t \<le> now \<and>
    (\<forall>u. now \<le> u \<longrightarrow> look u s k = (if since t + of_int ttl < u then None else Some t))"
  using assms
proof (induction arbitrary: t rule: lock_reach.induct)
  case (start t0 s)
  then show ?case by simp
next
  case (enter s now holds since t' s')
  have free: "look now s k = None" using nx_ok [of now k t' "Some ttl" s] enter.hyps(3) by simp
  show ?case
  proof (cases "t = t'")
    case True
    with nx_new [OF enter.prems(1) free, of _ t'] enter.hyps(3) show ?thesis by simp
  next
    case False
    with enter.IH [OF enter.prems(1), of t] enter.prems have "look now s k = Some t" by auto
    with free show ?thesis by simp
  qed
next
  case (wait s now holds since t' s')
  have "look now s k \<noteq> None" using nx_ok [of now k t' "Some ttl" s] wait.hyps(2) by simp
  with nx_old [of now s k k _ t' "Some ttl"] wait show ?case by auto
next
  case (tick s now holds since d)
  have early: "now \<le> since t + of_int ttl" using tick.prems(3) tick.hyps(2) by linarith
  from tick.IH [OF tick.prems(1,2) early] have s: "since t \<le> now"
    and l: "\<And>u. now \<le> u \<Longrightarrow> look u s k = (if since t + of_int ttl < u then None else Some t)" by blast+
  have "now + d \<le> u \<Longrightarrow> now \<le> u" for u using tick.hyps(2) by linarith
  moreover have "since t \<le> now + d" using s tick.hyps(2) by linarith
  ultimately show ?case using l by blast
next
  case (leave s now holds since t' b s')
  then have ne: "t \<noteq> t'" and h: "holds t" by (auto split: if_splits)
  from leave.IH [OF leave.prems(1) h leave.prems(3)]
  have own: "\<forall>u. now \<le> u \<longrightarrow> look u s k = (if since t + of_int ttl < u then None else Some t)" "since t \<le> now"
    by auto
  with leave.prems(3) have "look now s k = Some t" by auto
  with own ne del_look [of now _ k t' s k] leave.hyps(3) show ?case by auto
qed

lemma lock_mutex:
  assumes "lock_reach k ttl s now holds since" "0 < ttl"
    and "holds t" "now \<le> since t + of_int ttl" "holds u" "now \<le> since u + of_int ttl"
  shows "t = u"
  using lock_inv [OF assms(1,2,3,4)] lock_inv [OF assms(1,2,5,6)] assms(4,6) by fastforce

text \<open>Leaving late never takes the lock away from the client that has it by then.\<close>

lemma lock_late_leave:
  assumes "lock_reach k ttl s now holds since" "0 < ttl"
    and "holds t" "now \<le> since t + of_int ttl" "t \<noteq> u"
  shows "fst (del_val now k u s) = False \<and> look now (snd (del_val now k u s)) k = Some t"
  using lock_inv [OF assms(1-4)] assms(4,5) del_ok [of now k u s] del_look [of now now k u s k] by auto

end

text \<open>The store's own operations satisfy the laws.\<close>

definition st_look :: "real \<Rightarrow> 'v store \<Rightarrow> string \<Rightarrow> 'v option" where
  "st_look now st key = (case kv st key of None \<Rightarrow> None
     | Some (v, None) \<Rightarrow> Some v
     | Some (v, Some expiry) \<Rightarrow> if expiry < now then None else Some v)"

interpretation mem: expiring_kv st_get st_set_nx st_delete_if_value st_look
  by unfold_locales
    (auto simp: store_defs st_look_def expiry_of_def split: option.splits prod.splits if_splits)

text \<open>The protocol of one lock key, over the store's own operations.\<close>

inductive lock_run :: "string \<Rightarrow> int \<Rightarrow> 'v store \<Rightarrow> real \<Rightarrow> ('v \<Rightarrow> bool) \<Rightarrow> ('v \<Rightarrow> real) \<Rightarrow> bool"
  for k :: string and ttl :: int where
  lr_start: "st_look t0 s k = None \<Longrightarrow> lock_run k ttl s t0 (\<lambda>_. False) (\<lambda>_. 0)"
| lr_enter: "lock_run k ttl s now holds since \<Longrightarrow> \<not> holds t \<Longrightarrow>
     st_set_nx now k t (Some ttl) s = (True, s') \<Longrightarrow> lock_run k ttl s' now (holds(t := True)) (since(t := now))"
| lr_wait: "lock_run k ttl s now holds since \<Longrightarrow> st_set_nx now k t (Some ttl) s = (False, s') \<Longrightarrow>
     lock_run k ttl s' now holds since"
| lr_tick: "lock_run k ttl s now holds since \<Longrightarrow> 0 \<le> d \<Longrightarrow> lock_run k ttl s (now + d) holds since"
| lr_leave: "lock_run k ttl s now holds since \<Longrightarrow> holds t \<Longrightarrow>
     st_delete_if_value now k t s = (b, s') \<Longrightarrow> lock_run k ttl s' now (holds(t := False)) since"

lemma lock_run_reach: "lock_run k ttl s now holds since \<Longrightarrow> mem.lock_reach k ttl s now holds since"
  by (induction rule: lock_run.induct) (blast intro: mem.lock_reach.intros)+

lemma st_set_look: "now \<le> t \<Longrightarrow> st_look t (snd (st_set now k v ex st)) j =
   (if j = k then (case expiry_of now ex of None \<Rightarrow> Some v | Some e \<Rightarrow> if e < t then None else Some v)
    else st_look t st j)"
  by (simp add: st_set_def st_look_def split: option.splits)

section \<open>Sliding windows\<close>

locale window_counter =
  fixes zadd :: "real \<Rightarrow> 'k \<Rightarrow> int \<Rightarrow> 'm \<Rightarrow> 's \<Rightarrow> nat \<times> 's"
    and zcount :: "real \<Rightarrow> 'k \<Rightarrow> int \<Rightarrow> 's \<Rightarrow> nat"
    and fresh_in :: "'k \<Rightarrow> 'm \<Rightarrow> 's \<Rightarrow> bool"
  assumes zadd_count: "0 \<le> w \<Longrightarrow> fresh_in k m s \<Longrightarrow> zcount now k w (snd (zadd now k w m s)) = Suc (zcount now k w s)"
    and zadd_result: "0 \<le> w \<Longrightarrow> fresh_in k m s \<Longrightarrow> fst (zadd now k w m s) = Suc (zcount now k w s)"
    and zadd_other: "j \<noteq> k \<Longrightarrow> zcount t j w (snd (zadd now k w' m s)) = zcount t j w s"
    and zcount_mono: "t \<le> t' \<Longrightarrow> zcount t' k w s \<le> zcount t k w s"
begin

text \<open>
  A limiter that counts first and records only what it admits never lets more than the limit
  into a window.
\<close>

definition admit :: "real \<Rightarrow> 'k \<Rightarrow> int \<Rightarrow> nat \<Rightarrow> 'm \<Rightarrow> 's \<Rightarrow> bool \<times> 's" where
  "admit now k w limit m s =
     (if limit \<le> zcount now k w s then (False, s) else (True, snd (zadd now k w m s)))"

lemma admit_bounded:
  assumes "0 \<le> w" "fresh_in k m s" "zcount now k w s \<le> limit"
  shows "zcount now k w (snd (admit now k w limit m s)) \<le> limit"
  using assms zadd_count by (simp add: admit_def)

lemma admit_iff: "fst (admit now k w limit m s) \<longleftrightarrow> zcount now k w s < limit"
  by (simp add: admit_def not_le)

end

definition st_fresh :: "string \<Rightarrow> string \<Rightarrow> 'v store \<Rightarrow> bool" where
  "st_fresh key m st \<longleftrightarrow> m \<notin> fst ` set (zsets st key)"

lemma zadd_filter_fresh:
  "m \<notin> fst ` set z \<Longrightarrow> filter (\<lambda>(m', ts). m' \<noteq> m) (filter P z) = filter P z"
  by (induction z) auto

interpretation win: window_counter st_zadd_window st_zcount_window st_fresh
proof
  fix w :: int and k m :: string and s :: "'v store" and now :: real
  assume w: "0 \<le> w" and f: "st_fresh k m s"
  from f have nd: "m \<notin> fst ` set (zsets s k)" by (simp add: st_fresh_def)
  show "st_zcount_window now k w (snd (st_zadd_window now k w m s)) = Suc (st_zcount_window now k w s)"
    using w unfolding st_zcount_window_def st_zadd_window_def Let_def zadd_filter_fresh [OF nd]
    by (simp add: not_less)
  show "fst (st_zadd_window now k w m s) = Suc (st_zcount_window now k w s)"
    unfolding st_zcount_window_def st_zadd_window_def Let_def zadd_filter_fresh [OF nd] by (simp add: not_less)
next
  fix j k m :: string and s :: "'v store" and t now :: real and w w' :: int
  assume "j \<noteq> k"
  then show "st_zcount_window t j w (snd (st_zadd_window now k w' m s)) = st_zcount_window t j w s"
    by (simp add: st_zcount_window_def st_zadd_window_def Let_def)
next
  fix k :: string and s :: "'v store" and t t' :: real and w :: int
  assume "t \<le> t'"
  then have "filter (\<lambda>(m, ts). ts \<ge> t' - of_int w) (zsets s k) =
    filter (\<lambda>(m, ts). ts \<ge> t' - of_int w) (filter (\<lambda>(m, ts). ts \<ge> t - of_int w) (zsets s k))"
    by (auto intro!: filter_cong)
  then show "st_zcount_window t' k w s \<le> st_zcount_window t k w s"
    unfolding st_zcount_window_def by (metis length_filter_le)
qed

end
