(* ===== verification/Models.thy ===== *)
theory Models
  imports Schemas Store
begin

text \<open>
  The stored data: the tables of \<open>gateway/models.py\<close>, \<open>gateway/checkpoint.py\<close>,
  \<open>control_plane/audit.py\<close> and \<open>control_plane/telegram.py\<close> as records and lists of rows, the
  values kept in the shared store, and the pipeline's stage events.

  A table looked up by its primary key is a map; one whose order or sums matter is a list of
  rows in insertion order. A \<open>Numeric(12, 2)\<close> column holds an amount rounded to hundredths.
\<close>

section \<open>Registry tables\<close>

record agent_row =
  ag_owner_user_id :: string
  ag_display_name :: string
  ag_allowed_scopes :: "string list"
  ag_allowed_categories :: "string list"
  ag_active :: bool

record policy_row =
  sp_user_id :: string
  sp_agent_id :: string
  sp_policy_version :: string
  sp_per_transaction_limit :: decimal
  sp_daily_limit :: decimal
  sp_currency :: string
  sp_allowed_merchants :: "string list"
  sp_blocked_merchants :: "string list"
  sp_require_verified :: bool
  sp_approval_threshold :: decimal
  sp_max_per_hour :: int
  sp_revoked :: bool

record merchant_row =
  mr_display_name :: string
  mr_category :: string
  mr_verified :: bool
  mr_risk_score :: real

text \<open>What a \<open>Numeric(12, 2)\<close> column keeps of an amount.\<close>

definition numeric_12_2 :: "decimal \<Rightarrow> decimal" where
  "numeric_12_2 d = dec_of_minor (to_minor_units d)"

section \<open>Transactions and the audit log\<close>

record txn_row =
  tr_pa_id :: string
  tr_idempotency_key :: string
  tr_payload_hash :: string
  tr_fingerprint :: string
  tr_user_id :: string
  tr_agent_id :: string
  tr_delegation_id :: string
  tr_merchant_id :: string
  tr_amount :: decimal
  tr_currency :: string
  tr_cart_hash :: string
  tr_decision :: string
  tr_reason_codes :: "string list"
  tr_state :: payment_state
  tr_risk :: risk_assessment
  tr_policy_version :: string
  tr_token_jti :: "string option"
  tr_token_uses :: nat
  tr_token_expires_at :: "int option"
  tr_provider_reference :: "string option"
  tr_provider_detail :: "string option"
  tr_created_at :: real

record audit_row =
  ae_seq :: nat
  ae_event_id :: string
  ae_event_type :: string
  ae_pa_id :: "string option"
  ae_user_id :: "string option"
  ae_agent_id :: "string option"
  ae_decision :: "string option"
  ae_reason_codes :: "string list"
  ae_risk :: json
  ae_policy_version :: "string option"
  ae_payload :: json
  ae_prev_hash :: string
  ae_event_hash :: string
  ae_created_at :: int \<comment> \<open>microseconds since the epoch\<close>

text \<open>\<open>uq_user_idempotency_authorized\<close>: unique, over the rows that are not blocked.\<close>

definition index_conflict :: "txn_row \<Rightarrow> txn_row \<Rightarrow> bool" where
  "index_conflict r r' \<longleftrightarrow> tr_decision r \<noteq> ''BLOCK'' \<and> tr_decision r' \<noteq> ''BLOCK'' \<and>
     tr_user_id r = tr_user_id r' \<and> tr_idempotency_key r = tr_idempotency_key r'"

definition insertable :: "txn_row \<Rightarrow> txn_row list \<Rightarrow> bool" where
  "insertable r rows \<longleftrightarrow> (\<forall>r' \<in> set rows. tr_pa_id r' \<noteq> tr_pa_id r \<and> \<not> index_conflict r r')"

fun txns_ok :: "txn_row list \<Rightarrow> bool" where
  "txns_ok [] \<longleftrightarrow> True"
| "txns_ok (r # rows) \<longleftrightarrow> insertable r rows \<and> txns_ok rows"

fun find_txn :: "string \<Rightarrow> txn_row list \<Rightarrow> txn_row option" where
  "find_txn pa [] = None"
| "find_txn pa (r # rows) = (if tr_pa_id r = pa then Some r else find_txn pa rows)"

definition update_txn :: "string \<Rightarrow> (txn_row \<Rightarrow> txn_row) \<Rightarrow> txn_row list \<Rightarrow> txn_row list" where
  "update_txn pa f rows = map (\<lambda>r. if tr_pa_id r = pa then f r else r) rows"

lemma find_txn_SomeD: "find_txn pa rows = Some r \<Longrightarrow> r \<in> set rows \<and> tr_pa_id r = pa"
  by (induction rows) (auto split: if_splits)

lemma find_txn_NoneD: "find_txn pa rows = None \<Longrightarrow> r \<in> set rows \<Longrightarrow> tr_pa_id r \<noteq> pa"
  by (induction rows) (auto split: if_splits)

lemma find_txn_append: "find_txn pa (xs @ ys) = (case find_txn pa xs of None \<Rightarrow> find_txn pa ys | Some r \<Rightarrow> Some r)"
  by (induction xs) auto

lemma find_txn_update:
  assumes "\<And>r. tr_pa_id (f r) = tr_pa_id r"
  shows "find_txn pa (update_txn q f rows) = map_option (\<lambda>r. if pa = q then f r else r) (find_txn pa rows)"
  using assms by (induction rows) (auto simp: update_txn_def)

lemma index_conflict_key:
  assumes "tr_user_id r = tr_user_id s" "tr_idempotency_key r = tr_idempotency_key s" "tr_decision r = tr_decision s"
  shows "index_conflict r x = index_conflict s x" "index_conflict x r = index_conflict x s"
  using assms by (simp_all add: index_conflict_def)

lemma insertable_update:
  assumes "\<And>r. tr_pa_id (f r) = tr_pa_id r \<and> tr_user_id (f r) = tr_user_id r \<and>
      tr_idempotency_key (f r) = tr_idempotency_key r \<and> tr_decision (f r) = tr_decision r"
  shows "insertable r (update_txn q f rows) = insertable r rows" "insertable (f r) rows = insertable r rows"
proof -
  have k: "tr_pa_id (f s) = tr_pa_id s" "index_conflict x (f s) = index_conflict x s"
    "index_conflict (f s) x = index_conflict s x" for s x
    using assms [of s] by (simp_all add: index_conflict_key [of "f s" s])
  show "insertable r (update_txn q f rows) = insertable r rows"
    unfolding insertable_def update_txn_def by (induction rows) (simp_all add: k)
  show "insertable (f r) rows = insertable r rows" by (simp add: insertable_def k)
qed

lemma txns_ok_update:
  assumes "\<And>r. tr_pa_id (f r) = tr_pa_id r \<and> tr_user_id (f r) = tr_user_id r \<and>
      tr_idempotency_key (f r) = tr_idempotency_key r \<and> tr_decision (f r) = tr_decision r"
  shows "txns_ok (update_txn q f rows) = txns_ok rows"
proof (induction rows)
  case (Cons r rows)
  have "update_txn q f (r # rows) = (if tr_pa_id r = q then f r else r) # update_txn q f rows"
    by (simp add: update_txn_def)
  with Cons show ?case by (simp add: insertable_update [OF assms])
qed (simp add: update_txn_def)

lemma txns_ok_snoc: "txns_ok (rows @ [r]) \<longleftrightarrow> txns_ok rows \<and> insertable r rows"
  by (induction rows) (auto simp: insertable_def index_conflict_def)

section \<open>The control plane's and the checkpoint store's own tables\<close>

record checkpoint_row =
  ck_seq :: nat
  ck_chain_events :: nat
  ck_head_hash :: string
  ck_created_at :: real

record admin_row =
  ad_admin_id :: string
  ad_action :: string
  ad_target :: string
  ad_payload_sha256 :: string
  ad_detail :: string
  ad_at :: real

record tg_link_row =
  tl_telegram_id :: string
  tl_user_id :: string
  tl_linked_at :: real

record tg_code_row =
  tc_code :: string
  tc_user_id :: string
  tc_created_at :: real
  tc_used_at :: "real option"

record database =
  agents :: "string \<rightharpoonup> agent_row"
  policies :: "string \<rightharpoonup> policy_row"
  merchants :: "string \<rightharpoonup> merchant_row"
  txns :: "txn_row list"
  audit_log :: "audit_row list"
  admin_log :: "admin_row list"
  tg_links :: "tg_link_row list"
  tg_codes :: "tg_code_row list"

definition empty_db :: database where
  "empty_db = \<lparr>agents = Map.empty, policies = Map.empty, merchants = Map.empty, txns = [],
     audit_log = [], admin_log = [], tg_links = [], tg_codes = []\<rparr>"

section \<open>What the shared store holds\<close>

text \<open>
  The gateway writes JSON text and reads it back. A stored value is kept here as the thing
  that was serialised; \<open>SStr\<close> is plain text (a lock token, an authorization id, or text that
  does not parse as a record).
\<close>

record approval_request =
  ar_id :: string
  ar_user_id :: string
  ar_merchant_id :: string
  ar_amount :: string
  ar_currency :: string
  ar_cart_hash :: string
  ar_reason_codes :: "string list"
  ar_pa_id :: string
  ar_granted :: bool

datatype sval = SStr string
  | SIdem string decision_response
  | SApproval approval_request

section \<open>Stage events\<close>

datatype stage = IDENTITY | CANONICAL | ANALYZER | RISK | PDP | AUTHORIZATION | AUDIT

fun stage_str :: "stage \<Rightarrow> string" where
  "stage_str IDENTITY = ''identity''"
| "stage_str CANONICAL = ''canonical''"
| "stage_str ANALYZER = ''analyzer''"
| "stage_str RISK = ''risk''"
| "stage_str PDP = ''pdp''"
| "stage_str AUTHORIZATION = ''authorization''"
| "stage_str AUDIT = ''audit''"

datatype stage_status = STARTED | PASSED | BLOCKED | PAUSED | STAGE_FAILED | SKIPPED

definition STAGE_ORDER :: "stage list" where
  "STAGE_ORDER = [IDENTITY, CANONICAL, ANALYZER, RISK, PDP, AUTHORIZATION, AUDIT]"

record stage_event =
  ev_seq :: nat
  ev_request_id :: string
  ev_pa_id :: string
  ev_stage :: stage
  ev_status :: stage_status
  ev_latency_ms :: "int option"
  ev_elapsed_ms :: int
  ev_detail :: "(string \<times> json) list"

text \<open>\<open>PipelineEmitter\<close>: one per request.\<close>

record emitter_state =
  em_request_id :: string
  em_pa_id :: string
  em_started :: "stage \<rightharpoonup> real"
  em_t0 :: real
  em_seq :: nat

end
