(* ===== verification/Policy.thy ===== *)
theory Policy
  imports Schemas
begin

text \<open>
  The policy bundle \<open>policies/*.rego\<close>: the input document, the rule packages, and the decision.

  A partial rule (\<open>deny contains code if body\<close>) is a conditional one-element list; a package's
  set is the concatenation of its rules. A complete rule (\<open>decision := v if body\<close>) is the list
  of the values whose bodies hold: OPA reports an evaluation error when two of them differ, and
  the default applies when there is none. Amounts are integers, as the gateway sends them.
\<close>

section \<open>The input document\<close>

record approval_finding =
  af_present :: bool
  af_valid :: bool
  af_expired :: bool
  af_bound_amount :: "int option"
  af_bound_merchant_id :: "string option"
  af_bound_currency :: "string option"
  af_bound_cart_hash :: "string option"

record duplicate_finding =
  df_idempotency_conflict :: bool
  df_fingerprint_conflict :: bool
  df_detail :: string

record identity_finding =
  if_valid :: bool
  if_user_id :: string
  if_reason_codes :: "string list"

record txn_input =
  ti_user_id :: string
  ti_agent_id :: string
  ti_delegation_id :: string
  ti_merchant_id :: string
  ti_merchant_verified_claim :: bool
  ti_amount :: int
  ti_currency :: string
  ti_cart_hash :: string
  ti_item_count :: int
  ti_agent_scopes :: "string list"

record security_input =
  si_injection_confidence :: real
  si_injection_labels :: "string list"
  si_classifier_degraded :: bool
  si_deterministic_confidence :: real
  si_source_trust_score :: real

record context_input =
  ci_policy_found :: bool
  ci_policy_version :: string
  ci_per_transaction_limit :: int
  ci_daily_limit :: int
  ci_policy_currency :: string
  ci_allowed_merchants :: "string list"
  ci_blocked_merchants :: "string list"
  ci_require_verified_merchant :: bool
  ci_approval_threshold :: int
  ci_max_transactions_per_hour :: int
  ci_policy_revoked :: bool
  ci_merchant_known :: bool
  ci_merchant_verified :: bool
  ci_merchant_category :: string
  ci_agent_registered :: bool
  ci_agent_active :: bool
  ci_agent_allowed_categories :: "string list"
  ci_spent_today :: int
  ci_transactions_last_hour :: int
  ci_allow_degraded_classifier :: bool
  ci_degraded_requires_review :: bool

record pdp_input =
  in_identity :: identity_finding
  in_txn :: txn_input
  in_security :: security_input
  in_weighted_score :: real
  in_signals :: risk_signals
  in_context :: context_input
  in_approval :: approval_finding
  in_duplicate :: duplicate_finding

definition rule :: "bool \<Rightarrow> string \<Rightarrow> string list" where
  "rule body code = (if body then [code] else [])"

lemma set_rule [simp]: "set (rule b c) = (if b then {c} else {})" by (simp add: rule_def)
lemma rule_Nil [simp]: "rule b c = [] \<longleftrightarrow> \<not> b" by (simp add: rule_def)

section \<open>The rule packages\<close>

definition injection_hard_block :: real where "injection_hard_block = 85 / 100"
definition injection_review :: real where "injection_review = 1 / 2"
definition score_review :: real where "score_review = 60"
definition velocity_review_ratio :: real where "velocity_review_ratio = 8 / 10"

lemmas thresholds = injection_hard_block_def injection_review_def score_review_def
  velocity_review_ratio_def

definition agent_scope_deny :: "pdp_input \<Rightarrow> string list" where
  "agent_scope_deny i = (let t = in_txn i; c = in_context i; d = in_identity i in
     rule (\<not> if_valid d) ''INVALID_IDENTITY'' @
     (if \<not> if_valid d then if_reason_codes d else []) @
     rule (if_valid d \<and> \<not> ci_agent_registered c) ''AGENT_NOT_REGISTERED'' @
     rule (ci_agent_registered c \<and> \<not> ci_agent_active c) ''AGENT_DEACTIVATED'' @
     rule (''payments:authorize'' \<notin> set (ti_agent_scopes t)) ''AGENT_SCOPE_VIOLATION'' @
     rule (ci_agent_allowed_categories c \<noteq> [] \<and>
           ci_merchant_category c \<notin> set (ci_agent_allowed_categories c)) ''AGENT_CATEGORY_NOT_PERMITTED'' @
     rule (ti_user_id t \<noteq> if_user_id d) ''DELEGATION_USER_MISMATCH'')"

definition approvals_deny :: "pdp_input \<Rightarrow> string list" where
  "approvals_deny i = (let t = in_txn i; a = in_approval i in
     rule (af_present a \<and> af_bound_amount a \<noteq> Some (ti_amount t)) ''APPROVAL_BINDING_MISMATCH'' @
     rule (af_present a \<and> af_bound_merchant_id a \<noteq> Some (ti_merchant_id t)) ''APPROVAL_BINDING_MISMATCH'' @
     rule (af_present a \<and> af_bound_currency a \<noteq> Some (ti_currency t)) ''APPROVAL_BINDING_MISMATCH'' @
     rule (af_present a \<and> af_bound_cart_hash a \<noteq> Some (ti_cart_hash t)) ''APPROVAL_BINDING_MISMATCH'' @
     rule (af_present a \<and> af_expired a) ''APPROVAL_EXPIRED'' @
     rule (af_present a \<and> \<not> af_valid a) ''APPROVAL_INVALID'')"

definition approvals_review :: "pdp_input \<Rightarrow> string list" where
  "approvals_review i = rule (in_weighted_score i \<ge> score_review) ''COMPOSITE_RISK_ELEVATED''"

definition duplicates_deny :: "pdp_input \<Rightarrow> string list" where
  "duplicates_deny i =
     rule (df_idempotency_conflict (in_duplicate i)) ''DUPLICATE_IDEMPOTENCY_KEY'' @
     rule (df_fingerprint_conflict (in_duplicate i)) ''DUPLICATE_TRANSACTION_FINGERPRINT''"

definition escalate_degraded_to_human :: "pdp_input \<Rightarrow> bool" where
  "escalate_degraded_to_human i \<longleftrightarrow> si_classifier_degraded (in_security i) \<and>
     ci_degraded_requires_review (in_context i) \<and> \<not> ci_allow_degraded_classifier (in_context i) \<and>
     si_deterministic_confidence (in_security i) < injection_review"

definition injection_deny :: "pdp_input \<Rightarrow> string list" where
  "injection_deny i =
     rule (si_injection_confidence (in_security i) \<ge> injection_hard_block) ''PROMPT_INJECTION_HIGH_CONFIDENCE'' @
     rule (si_classifier_degraded (in_security i) \<and> \<not> ci_allow_degraded_classifier (in_context i) \<and>
           \<not> escalate_degraded_to_human i) ''CLASSIFIER_UNAVAILABLE_FAIL_CLOSED''"

definition injection_review_rules :: "pdp_input \<Rightarrow> string list" where
  "injection_review_rules i =
     rule (escalate_degraded_to_human i) ''CLASSIFIER_UNAVAILABLE_HUMAN_REVIEW'' @
     rule (si_injection_confidence (in_security i) \<ge> injection_review \<and>
           si_injection_confidence (in_security i) < injection_hard_block) ''PROMPT_INJECTION_SUSPECTED''"

definition merchant_deny :: "pdp_input \<Rightarrow> string list" where
  "merchant_deny i = (let t = in_txn i; c = in_context i in
     rule (ti_merchant_id t \<in> set (ci_blocked_merchants c)) ''MERCHANT_BLOCKED'' @
     rule (ci_allowed_merchants c \<noteq> [] \<and> ti_merchant_id t \<notin> set (ci_allowed_merchants c)) ''MERCHANT_NOT_IN_ALLOWLIST'' @
     rule (ci_require_verified_merchant c \<and> \<not> ci_merchant_verified c) ''UNVERIFIED_MERCHANT'' @
     rule (ti_merchant_verified_claim t \<and> ci_merchant_known c \<and> \<not> ci_merchant_verified c) ''MERCHANT_VERIFICATION_SPOOFED'')"

definition merchant_review :: "pdp_input \<Rightarrow> string list" where
  "merchant_review i = (let c = in_context i in
     rule (\<not> ci_merchant_known c \<and> \<not> ci_require_verified_merchant c) ''UNKNOWN_MERCHANT'' @
     rule (merchant_risk (in_signals i) \<ge> 6 / 10 \<and> ci_merchant_known c \<and> ci_merchant_verified c) ''ELEVATED_MERCHANT_RISK'')"

definition spending_deny :: "pdp_input \<Rightarrow> string list" where
  "spending_deny i = (let t = in_txn i; c = in_context i in
     rule (\<not> ci_policy_found c) ''NO_SPENDING_POLICY_BOUND'' @
     rule (ci_policy_revoked c) ''DELEGATION_POLICY_REVOKED'' @
     rule (ci_policy_found c \<and> ti_amount t > ci_per_transaction_limit c) ''BUDGET_EXCEEDED'' @
     rule (ci_policy_found c \<and> ci_spent_today c + ti_amount t > ci_daily_limit c) ''DAILY_BUDGET_EXCEEDED'' @
     rule (ci_policy_found c \<and> ti_currency t \<noteq> ci_policy_currency c) ''CURRENCY_NOT_PERMITTED'' @
     rule (ci_transactions_last_hour c \<ge> ci_max_transactions_per_hour c) ''VELOCITY_LIMIT_EXCEEDED'')"

definition spending_review :: "pdp_input \<Rightarrow> string list" where
  "spending_review i = (let t = in_txn i; c = in_context i in
     rule (ci_policy_found c \<and> ti_amount t \<ge> ci_approval_threshold c) ''ABOVE_APPROVAL_THRESHOLD'' @
     rule (ci_max_transactions_per_hour c > 0 \<and>
           of_int (ci_transactions_last_hour c) / of_int (ci_max_transactions_per_hour c) \<ge> velocity_review_ratio \<and>
           ci_transactions_last_hour c < ci_max_transactions_per_hour c) ''VELOCITY_ELEVATED'')"

section \<open>The decision\<close>

definition deny_reasons :: "pdp_input \<Rightarrow> string list" where
  "deny_reasons i = injection_deny i @ spending_deny i @ merchant_deny i @ agent_scope_deny i @
     approvals_deny i @ duplicates_deny i"

definition approval_reasons :: "pdp_input \<Rightarrow> string list" where
  "approval_reasons i = injection_review_rules i @ spending_review i @ merchant_review i @ approvals_review i"

definition approval_satisfied :: "pdp_input \<Rightarrow> bool" where
  "approval_satisfied i \<longleftrightarrow> (let a = in_approval i; t = in_txn i in
     af_present a \<and> af_valid a \<and> \<not> af_expired a \<and> af_bound_amount a = Some (ti_amount t) \<and>
     af_bound_merchant_id a = Some (ti_merchant_id t) \<and> af_bound_currency a = Some (ti_currency t) \<and>
     af_bound_cart_hash a = Some (ti_cart_hash t))"

definition holds_then :: "bool \<Rightarrow> 'a \<Rightarrow> 'a list" where "holds_then b v = (if b then [v] else [])"

definition decision_rules :: "pdp_input \<Rightarrow> decision list" where
  "decision_rules i =
     holds_then (deny_reasons i \<noteq> []) BLOCK @
     holds_then (deny_reasons i = [] \<and> approval_reasons i \<noteq> [] \<and> \<not> approval_satisfied i) REQUIRE_APPROVAL @
     holds_then (deny_reasons i = [] \<and> approval_reasons i = []) ALLOW @
     holds_then (deny_reasons i = [] \<and> approval_reasons i \<noteq> [] \<and> approval_satisfied i) ALLOW"

text \<open>\<open>sort([r | some r in reasons])\<close> over a set: sorted, without repetitions.\<close>

definition sorted_codes :: "string list \<Rightarrow> string list" where
  "sorted_codes xs = sort (remdups xs)"

definition reason_rules :: "pdp_input \<Rightarrow> string list list" where
  "reason_rules i =
     holds_then (deny_reasons i \<noteq> []) (sorted_codes (deny_reasons i)) @
     holds_then (deny_reasons i = [] \<and> approval_reasons i \<noteq> [] \<and> \<not> approval_satisfied i) (sorted_codes (approval_reasons i)) @
     holds_then (deny_reasons i = [] \<and> approval_reasons i \<noteq> [] \<and> approval_satisfied i) [''APPROVAL_SATISFIED''] @
     holds_then (deny_reasons i = [] \<and> approval_reasons i = []) [''POLICY_SATISFIED'']"

text \<open>
  The value of a complete rule: \<open>None\<close> is OPA's conflict error, \<open>Some None\<close> an undefined
  result, and a default replaces the latter.
\<close>

definition complete_rule :: "'a list \<Rightarrow> 'a option option" where
  "complete_rule vs = (case remdups vs of [] \<Rightarrow> Some None | [v] \<Rightarrow> Some (Some v) | _ \<Rightarrow> None)"

definition with_default :: "'a \<Rightarrow> 'a option option \<Rightarrow> 'a option option" where
  "with_default d r = (case r of Some None \<Rightarrow> Some (Some d) | _ \<Rightarrow> r)"

record opa_result =
  or_decision :: string
  or_reason_codes :: "string list"
  or_deny_reasons :: "string list"
  or_approval_reasons :: "string list"
  or_policy_version :: string
  or_weighted_score :: real

text \<open>What OPA answers: a transport or status error (by class), a body that is not JSON, a
  body without a decision, or a result object.\<close>

datatype opa_reply = OpaError string | OpaNotJson | OpaUndefined | OpaResult opa_result

definition rego_result :: "pdp_input \<Rightarrow> opa_reply" where
  "rego_result i = (case (with_default BLOCK (complete_rule (decision_rules i)), complete_rule (reason_rules i)) of
       (Some (Some d), Some (Some rc)) \<Rightarrow> OpaResult \<lparr>or_decision = decision_str d, or_reason_codes = rc,
          or_deny_reasons = sorted_codes (deny_reasons i),
          or_approval_reasons = sorted_codes (approval_reasons i),
          or_policy_version = ci_policy_version (in_context i),
          or_weighted_score = in_weighted_score i\<rparr>
     | (None, _) \<Rightarrow> OpaError ''HTTPStatusError''
     | (_, None) \<Rightarrow> OpaError ''HTTPStatusError''
     | _ \<Rightarrow> OpaUndefined)"

text \<open>The decision as one function of the three aggregates.\<close>

definition rego_decision :: "pdp_input \<Rightarrow> decision" where
  "rego_decision i = (if deny_reasons i \<noteq> [] then BLOCK
     else if approval_reasons i = [] \<or> approval_satisfied i then ALLOW else REQUIRE_APPROVAL)"

lemma decision_rules_single: "decision_rules i = [rego_decision i]"
  by (auto simp: decision_rules_def rego_decision_def holds_then_def)

lemma reason_rules_single: "\<exists>rc. reason_rules i = [rc]"
  by (auto simp: reason_rules_def holds_then_def)

lemma rego_result_decision:
  "\<exists>rc. rego_result i = OpaResult \<lparr>or_decision = decision_str (rego_decision i), or_reason_codes = rc,
      or_deny_reasons = sorted_codes (deny_reasons i), or_approval_reasons = sorted_codes (approval_reasons i),
      or_policy_version = ci_policy_version (in_context i), or_weighted_score = in_weighted_score i\<rparr> \<and>
    reason_rules i = [rc]"
  using reason_rules_single [of i]
  by (auto simp: rego_result_def decision_rules_single complete_rule_def with_default_def)

lemmas deny_defs = deny_reasons_def injection_deny_def spending_deny_def merchant_deny_def
  agent_scope_deny_def approvals_deny_def duplicates_deny_def

lemma no_deny_facts:
  assumes "deny_reasons i = []"
  shows "ci_policy_found (in_context i)" "\<not> ci_policy_revoked (in_context i)"
    "ti_amount (in_txn i) \<le> ci_per_transaction_limit (in_context i)"
    "ci_spent_today (in_context i) + ti_amount (in_txn i) \<le> ci_daily_limit (in_context i)"
    "ti_currency (in_txn i) = ci_policy_currency (in_context i)"
    "ci_transactions_last_hour (in_context i) < ci_max_transactions_per_hour (in_context i)"
    "ti_merchant_id (in_txn i) \<notin> set (ci_blocked_merchants (in_context i))"
    "ci_allowed_merchants (in_context i) = [] \<or> ti_merchant_id (in_txn i) \<in> set (ci_allowed_merchants (in_context i))"
    "ci_require_verified_merchant (in_context i) \<Longrightarrow> ci_merchant_verified (in_context i)"
    "if_valid (in_identity i)" "ci_agent_registered (in_context i)" "ci_agent_active (in_context i)"
    "''payments:authorize'' \<in> set (ti_agent_scopes (in_txn i))"
    "ti_user_id (in_txn i) = if_user_id (in_identity i)"
    "si_injection_confidence (in_security i) < injection_hard_block"
    "\<not> df_idempotency_conflict (in_duplicate i)" "\<not> df_fingerprint_conflict (in_duplicate i)"
    "af_present (in_approval i) \<Longrightarrow> approval_satisfied i"
  using assms by (auto simp: deny_defs Let_def not_le not_less approval_satisfied_def)

lemma no_review_facts:
  assumes "approval_reasons i = []" "deny_reasons i = []"
  shows "ti_amount (in_txn i) < ci_approval_threshold (in_context i)"
    "in_weighted_score i < score_review"
    "si_injection_confidence (in_security i) < injection_review"
    "si_classifier_degraded (in_security i) \<Longrightarrow> ci_allow_degraded_classifier (in_context i)"
    "ci_merchant_known (in_context i) \<or> ci_require_verified_merchant (in_context i)"
  using assms by (auto simp: approval_reasons_def injection_review_rules_def spending_review_def
      merchant_review_def approvals_review_def deny_defs Let_def not_le not_less)

end
