(* ===== verification/World.thy ===== *)
theory World
  imports Models Policy
begin

text \<open>
  The environment and the state of one run of the services, and the primitive effects every
  component is written with: a call to the shared store, a database session
  (\<open>gateway/db.py\<close>), the clock, \<open>uuid4\<close>, and the distributed lock of \<open>gateway/store.py\<close>.

  Code that is not in the repository appears as the fields of \<open>env\<close>: SHA-256, the JWT
  library, OPA's answer, the model's answer, the network. Every operation that leaves the
  process counts in \<open>ops\<close>, and the environment decides for each count whether it succeeds and
  how long it takes, so any call may fail or be slow at any point of any run. What other
  processes do to the shared store while a request waits for the provider is \<open>e_others\<close>.
\<close>

section \<open>Exceptions\<close>

datatype exn = StoreDown
  | DbDown
  | IntegrityError
  | LockTimeout string
  | KeyMissing string
  | InvalidTransition payment_state payment_state
  | IdentityError string string
  | RateLimitError string int
  | HttpError nat string
  | LinkError nat string
  | RuntimeErr string
  | BadValue string

section \<open>What the services run in\<close>

type_synonym claims = "(string \<times> json) list"

datatype jwt_error = JwtExpired | JwtInvalid string

datatype llm_reply = LlmTimeout | LlmApiError string
  | LlmAnswer string "json option" \<comment> \<open>finish reason; the content, when it parses\<close>

datatype net_fault = Delivered real | LostRequest | LostReply

record env =
  e_H :: "string \<Rightarrow> string"
  e_frepr :: "real \<Rightarrow> string"
  e_cfg :: settings
  e_admin_api_key :: string
  e_uuid :: "nat \<Rightarrow> string"
  e_store_ok :: "nat \<Rightarrow> bool"
  e_db_ok :: "nat \<Rightarrow> bool"
  e_delay :: "nat \<Rightarrow> real"
  e_jwt_encode :: "string \<Rightarrow> claims \<Rightarrow> string"
  e_jwt_decode :: "string \<Rightarrow> string list \<Rightarrow> string \<Rightarrow> string \<Rightarrow> real \<Rightarrow> string \<Rightarrow> jwt_error + claims"
  e_payment_private :: string
  e_payment_public :: string
  e_delegation_public :: "string option"
  e_delegation_private :: "string option"
  e_opa :: "nat \<Rightarrow> pdp_input \<Rightarrow> opa_reply"
  e_llm :: "nat \<Rightarrow> string \<Rightarrow> llm_reply"
  e_net :: "nat \<Rightarrow> net_fault"
  e_net_error :: "nat \<Rightarrow> string"
  e_others :: "nat \<Rightarrow> sval store \<Rightarrow> sval store"
  e_link_code :: "nat \<Rightarrow> string"

text \<open>The mock provider's \<open>STATE\<close> (\<open>mock_provider/main.py\<close>).\<close>

datatype behaviour = SUCCESS | DECLINE | ERROR | TIMEOUT_BEHAVIOUR

record charge =
  ch_status :: string
  ch_detail :: "string option"
  ch_reference :: "string option"
  ch_amount :: "string option"
  ch_currency :: "string option"
  ch_merchant_id :: "string option"

record provider_state =
  pv_behaviour :: behaviour
  pv_timeout_delay :: real
  pv_charges :: "string \<rightharpoonup> charge"
  pv_consumed_jti :: "string list"
  pv_call_count :: nat
  pv_calls :: "(string \<times> string \<times> string) list"

record circuit =
  open_until :: real
  consecutive_failures :: int

record world =
  now :: real
  ops :: nat
  uuids :: nat
  store :: "sval store"
  db :: database
  checkpoints :: "checkpoint_row list"
  provider :: provider_state
  breaker :: circuit
  emitter :: emitter_state
  outbox :: "stage_event list"

type_synonym 'a act = "(world, exn, 'a) prog"

definition init_provider :: provider_state where
  "init_provider = \<lparr>pv_behaviour = SUCCESS, pv_timeout_delay = 30, pv_charges = Map.empty,
     pv_consumed_jti = [], pv_call_count = 0, pv_calls = []\<rparr>"

definition init_world :: world where
  "init_world = \<lparr>now = 0, ops = 0, uuids = 0, store = empty_store, db = empty_db, checkpoints = [],
     provider = init_provider, breaker = \<lparr>open_until = 0, consecutive_failures = 0\<rparr>,
     emitter = \<lparr>em_request_id = '''', em_pa_id = '''', em_started = Map.empty, em_t0 = 0, em_seq = 0\<rparr>,
     outbox = []\<rparr>"

section \<open>Primitive effects\<close>

text \<open>One step outside the process: it counts and it takes time.\<close>

definition tick :: "env \<Rightarrow> world \<Rightarrow> world" where
  "tick E w = w\<lparr>ops := Suc (ops w), now := now w + max 0 (e_delay E (ops w))\<rparr>"

definition sleep :: "real \<Rightarrow> unit act" where
  "sleep d = modifyE (\<lambda>w. w\<lparr>now := now w + max 0 d\<rparr>)"

definition uuid4_hex :: "env \<Rightarrow> string act" where
  "uuid4_hex E = (\<lambda>w. (Inr (e_uuid E (uuids w)), w\<lparr>uuids := Suc (uuids w)\<rparr>))"

definition store_call :: "env \<Rightarrow> (real \<Rightarrow> sval store \<Rightarrow> 'a \<times> sval store) \<Rightarrow> 'a act" where
  "store_call E f = (\<lambda>w. let w' = tick E w in
     if e_store_ok E (ops w) then (case f (now w') (store w') of (a, st) \<Rightarrow> (Inr a, w'\<lparr>store := st\<rparr>))
     else (Inl StoreDown, w'))"

text \<open>\<open>get_store().publish\<close> has no state of the store to change.\<close>

definition store_get :: "env \<Rightarrow> string \<Rightarrow> sval option act" where
  "store_get E key = store_call E (\<lambda>t. st_get t key)"

definition store_set :: "env \<Rightarrow> string \<Rightarrow> sval \<Rightarrow> int \<Rightarrow> unit act" where
  "store_set E key v ex = thenE (store_call E (\<lambda>t. st_set t key v (Some ex))) (ret ())"

text \<open>
  \<open>session_scope\<close>: the body works on the database, an exception or a failed commit leaves it as
  it was.
\<close>

definition session_scope :: "env \<Rightarrow> (world, exn, 'a) prog \<Rightarrow> 'a act" where
  "session_scope E body = (\<lambda>w. let w1 = tick E w in
     case body w1 of
       (Inl e, w2) \<Rightarrow> (Inl e, w2\<lparr>db := db w1\<rparr>)
     | (Inr x, w2) \<Rightarrow> if e_db_ok E (ops w) then (Inr x, w2) else (Inl DbDown, w2\<lparr>db := db w1\<rparr>))"

definition db_get :: "(database \<Rightarrow> 'a) \<Rightarrow> 'a act" where
  "db_get f = asks (\<lambda>w. f (db w))"

definition db_modify :: "(database \<Rightarrow> database) \<Rightarrow> unit act" where
  "db_modify f = modifyE (\<lambda>w. w\<lparr>db := f (db w)\<rparr>)"

section \<open>The distributed lock\<close>

definition lock_name :: "string \<Rightarrow> string" where
  "lock_name key = ''agentpay:lock:'' @ key"

text \<open>The 50 attempts of \<open>__aenter__\<close>, 50 ms apart.\<close>

fun lock_attempts :: "env \<Rightarrow> nat \<Rightarrow> string \<Rightarrow> string \<Rightarrow> int \<Rightarrow> unit act" where
  "lock_attempts E 0 key token ttl = raise (LockTimeout key)"
| "lock_attempts E (Suc n) key token ttl =
     bindE (store_call E (\<lambda>t. st_set_nx t key (SStr token) (Some ttl)))
       (\<lambda>ok. if ok then ret () else thenE (sleep (1 / 20)) (lock_attempts E n key token ttl))"

definition lock_ttl_of :: "env \<Rightarrow> int option \<Rightarrow> int" where
  "lock_ttl_of E ttl = (case ttl of None \<Rightarrow> cfg_lock_ttl (e_cfg E)
     | Some t \<Rightarrow> if t = 0 then cfg_lock_ttl (e_cfg E) else t)"

definition lock_enter :: "env \<Rightarrow> string \<Rightarrow> string \<Rightarrow> int option \<Rightarrow> unit act" where
  "lock_enter E key token ttl = lock_attempts E 50 (lock_name key) token (lock_ttl_of E ttl)"

definition lock_exit :: "env \<Rightarrow> string \<Rightarrow> string \<Rightarrow> unit act" where
  "lock_exit E key token =
     thenE (store_call E (\<lambda>t. st_delete_if_value t (lock_name key) (SStr token))) (ret ())"

text \<open>\<open>async with DistributedLock(key, ttl): body\<close>.\<close>

definition with_lock :: "env \<Rightarrow> string \<Rightarrow> int option \<Rightarrow> 'a act \<Rightarrow> 'a act" where
  "with_lock E key ttl body = bindE (uuid4_hex E) (\<lambda>token.
     thenE (lock_enter E key token ttl) (finallyE body (lock_exit E key token)))"

section \<open>Frames\<close>

text \<open>
  What a computation leaves alone is a relation between the worlds before and after it:
  equality of a projection. Each primitive is shown to keep every projection it does not
  touch; a component's operations inherit it by the rules of \<open>evolution\<close>.
\<close>

definition keeps :: "(world \<Rightarrow> 'b) \<Rightarrow> world \<Rightarrow> world \<Rightarrow> bool" where
  "keeps f w w' \<longleftrightarrow> f w' = f w"

interpretation frame: evolution "keeps f" for f :: "world \<Rightarrow> 'b"
  by unfold_locales (simp_all add: keeps_def)

text \<open>The clock never goes back.\<close>

definition later :: "world \<Rightarrow> world \<Rightarrow> bool" where "later w w' \<longleftrightarrow> now w \<le> now w'"

interpretation clock: evolution later
  by unfold_locales (simp_all add: later_def)

text \<open>A projection that only reads the given parts.\<close>

definition ignores_clock :: "(world \<Rightarrow> 'b) \<Rightarrow> bool" where
  "ignores_clock f \<longleftrightarrow> (\<forall>w n. f (w\<lparr>ops := n\<rparr>) = f w) \<and> (\<forall>w t. f (w\<lparr>now := t\<rparr>) = f w)
     \<and> (\<forall>w n. f (w\<lparr>uuids := n\<rparr>) = f w)"

definition ignores_store :: "(world \<Rightarrow> 'b) \<Rightarrow> bool" where
  "ignores_store f \<longleftrightarrow> ignores_clock f \<and> (\<forall>w s. f (w\<lparr>store := s\<rparr>) = f w)"

definition ignores_db :: "(world \<Rightarrow> 'b) \<Rightarrow> bool" where
  "ignores_db f \<longleftrightarrow> ignores_clock f \<and> (\<forall>w d. f (w\<lparr>db := d\<rparr>) = f w)"

lemmas ignores_defs = ignores_clock_def ignores_store_def ignores_db_def

lemma tick_keeps: "ignores_clock f \<Longrightarrow> f (tick E w) = f w"
  by (simp add: tick_def ignores_clock_def)

lemma tick_simps [simp]: "ops (tick E w) = Suc (ops w)" "store (tick E w) = store w" "db (tick E w) = db w"
  "provider (tick E w) = provider w" "checkpoints (tick E w) = checkpoints w" "breaker (tick E w) = breaker w"
  "emitter (tick E w) = emitter w" "outbox (tick E w) = outbox w" "uuids (tick E w) = uuids w"
  by (simp_all add: tick_def)

lemma now_tick: "now w \<le> now (tick E w)" by (simp add: tick_def)

lemma keeps_sleep [evo]: "ignores_clock f \<Longrightarrow> evolves (keeps f) (sleep d)"
  by (simp add: sleep_def evolves_def keeps_def ignores_clock_def)

lemma keeps_uuid [evo]: "ignores_clock f \<Longrightarrow> evolves (keeps f) (uuid4_hex E)"
  by (simp add: uuid4_hex_def evolves_def keeps_def ignores_clock_def)

lemma keeps_store_call [evo]: "ignores_store f \<Longrightarrow> evolves (keeps f) (store_call E g)"
  by (auto simp: store_call_def evolves_def keeps_def Let_def ignores_store_def tick_keeps split: prod.splits)

lemma keeps_store_get [evo]: "ignores_store f \<Longrightarrow> evolves (keeps f) (store_get E k)"
  by (simp add: store_get_def keeps_store_call)

lemma keeps_store_set [evo]: "ignores_store f \<Longrightarrow> evolves (keeps f) (store_set E k v ex)"
  unfolding store_set_def by (intro frame.ev_rules keeps_store_call)

lemma ignores_store_clock: "ignores_store f \<Longrightarrow> ignores_clock f" by (simp add: ignores_store_def)
lemma ignores_db_clock: "ignores_db f \<Longrightarrow> ignores_clock f" by (simp add: ignores_db_def)

lemma keeps_lock_attempts [evo]: "ignores_store f \<Longrightarrow> evolves (keeps f) (lock_attempts E n k t ttl)"
  by (induction n) (auto intro!: frame.ev_rules keeps_store_call keeps_sleep ignores_store_clock)

lemma keeps_with_lock [evo]:
  assumes "ignores_store f" "evolves (keeps f) body"
  shows "evolves (keeps f) (with_lock E k ttl body)"
  unfolding with_lock_def lock_enter_def lock_exit_def
  by (intro frame.ev_rules keeps_uuid keeps_lock_attempts keeps_store_call assms ignores_store_clock)

lemma keeps_session [evo]:
  assumes "ignores_db f" "evolves (keeps f) body"
  shows "evolves (keeps f) (session_scope E body)"
proof (rule evolvesI)
  fix w
  have "f (snd (body (tick E w))) = f w"
    using assms evolvesD [OF assms(2), of "tick E w"] tick_keeps [OF ignores_db_clock [OF assms(1)]]
    by (simp add: keeps_def)
  then show "keeps f w (snd (session_scope E body w))"
    using assms(1) by (auto simp: session_scope_def Let_def keeps_def ignores_db_def split: prod.splits sum.splits)
qed

lemma keeps_db_get [evo]: "evolves (keeps f) (db_get g)"
  unfolding db_get_def by (rule frame.ev_asks)

lemma keeps_db_modify [evo]: "ignores_db f \<Longrightarrow> evolves (keeps f) (db_modify g)"
  by (simp add: db_modify_def evolves_def keeps_def ignores_db_def)

lemma ignores_provider [simp]: "ignores_clock provider" "ignores_store provider" "ignores_db provider"
  by (simp_all add: ignores_defs)

lemma ignores_database [simp]: "ignores_clock db" "ignores_store db"
  by (simp_all add: ignores_defs)

lemma ignores_checkpoints [simp]: "ignores_clock checkpoints" "ignores_store checkpoints" "ignores_db checkpoints"
  by (simp_all add: ignores_defs)

lemma ignores_the_store [simp]: "ignores_clock store" "ignores_db store"
  by (simp_all add: ignores_defs)

lemma ignores_outbox [simp]: "ignores_clock outbox" "ignores_store outbox" "ignores_db outbox"
  by (simp_all add: ignores_defs)

section \<open>Rollback and the bound on the lock's wait\<close>

text \<open>A session that raises leaves the database exactly as it was.\<close>

lemma session_rollback:
  "session_scope E body w = (Inl e, w') \<Longrightarrow> db w' = db w"
  by (auto simp: session_scope_def Let_def split: prod.splits sum.splits if_splits)

lemma session_commit:
  "session_scope E body w = (Inr x, w') \<longleftrightarrow> body (tick E w) = (Inr x, w') \<and> e_db_ok E (ops w)"
  by (auto simp: session_scope_def Let_def split: prod.splits sum.splits)

text \<open>Entering makes at most \<open>n\<close> attempts, and ends in the lock or in an exception.\<close>

lemma lock_attempts_ops: "ops (snd (lock_attempts E n k t ttl w)) \<le> ops w + n"
proof (induction n arbitrary: w)
  case (Suc n)
  let ?r = "store_call E (\<lambda>u. st_set_nx u k (SStr t) (Some ttl)) w"
  have o: "ops (snd ?r) = Suc (ops w)"
    by (auto simp: store_call_def Let_def split: prod.splits)
  have "ops (snd (lock_attempts E n k t ttl (snd (sleep (1/20) (snd ?r))))) \<le> Suc (ops w) + n"
    using Suc.IH [of "snd (sleep (1/20) (snd ?r))"] o by (simp add: sleep_def)
  with o show ?case
    by (auto simp: bindE_def thenE_def sleep_def split: prod.splits sum.splits)
qed simp

lemma lock_attempts_owner:
  "0 < ttl \<Longrightarrow> lock_attempts E n k t ttl w = (Inr (), w') \<Longrightarrow> st_look (now w') (store w') k = Some (SStr t)"
proof (induction n arbitrary: w)
  case (Suc n)
  show ?case
  proof (cases "e_store_ok E (ops w) \<and> fst (st_set_nx (now (tick E w)) k (SStr t) (Some ttl) (store w))")
    case True
    then have free: "st_look (now (tick E w)) (store w) k = None" by (simp add: mem.nx_ok)
    from True Suc.prems(2)
    have "now w' = now (tick E w)" "store w' = snd (st_set_nx (now (tick E w)) k (SStr t) (Some ttl) (store w))"
      by (auto simp: bindE_def thenE_def store_call_def Let_def split: prod.splits)
    with mem.nx_new [OF Suc.prems(1) free, of "now (tick E w)" "SStr t"] Suc.prems(1) show ?thesis by simp
  next
    case False
    with Suc.prems(2) obtain w1 where "lock_attempts E n k t ttl w1 = (Inr (), w')"
      by (auto simp: bindE_def thenE_def store_call_def Let_def sleep_def split: prod.splits sum.splits if_splits)
    then show ?thesis by (rule Suc.IH [OF Suc.prems(1)])
  qed
qed simp

section \<open>What the database keeps while a service runs\<close>

text \<open>
  A relation \<open>P\<close> between the database before and after. A session commits or rolls back, so \<open>P\<close>
  of the body is \<open>P\<close> of the session; everything else the primitives do leaves the database alone.
\<close>

definition on_db :: "(database \<Rightarrow> database \<Rightarrow> bool) \<Rightarrow> world \<Rightarrow> world \<Rightarrow> bool" where
  "on_db P w w' \<longleftrightarrow> P (db w) (db w')"

locale db_relation =
  fixes P :: "database \<Rightarrow> database \<Rightarrow> bool"
  assumes P_refl: "P d d"
    and P_trans: "P a b \<Longrightarrow> P b c \<Longrightarrow> P a c"

sublocale db_relation \<subseteq> evolution "on_db P"
  by unfold_locales (auto simp: on_db_def intro: P_refl P_trans)

context db_relation
begin

lemma db_keeps: "evolves (keeps db) m \<Longrightarrow> evolves (on_db P) m"
  by (auto simp: evolves_def keeps_def on_db_def P_refl)

lemma db_modify_rule: "(\<And>d. P d (f d)) \<Longrightarrow> evolves (on_db P) (db_modify f)"
  by (simp add: evolves_def db_modify_def on_db_def)

lemma db_session:
  assumes "evolves (on_db P) body"
  shows "evolves (on_db P) (session_scope E body)"
proof (rule evolvesI)
  fix w
  have "P (db w) (db (snd (body (tick E w))))" using evolvesD [OF assms, of "tick E w"] by (simp add: on_db_def)
  then show "on_db P w (snd (session_scope E body w))"
    by (auto simp: session_scope_def Let_def on_db_def P_refl split: prod.splits sum.splits)
qed

lemma db_lock: "evolves (on_db P) body \<Longrightarrow> evolves (on_db P) (with_lock E k ttl body)"
  unfolding with_lock_def lock_enter_def lock_exit_def
  by (intro ev_rules db_keeps [OF keeps_uuid] db_keeps [OF keeps_lock_attempts] db_keeps [OF keeps_store_call]) simp_all

end

end
