(* ===== verification/Tokens.thy ===== *)
theory Tokens
  imports World
begin

text \<open>
  \<open>gateway/tokens.py\<close>: the payment-authorization and human-approval tokens, and the parts of
  the JWT library's documented behaviour that the proofs rely on. Signing and verification
  belong to PyJWT and are the fields \<open>e_jwt_encode\<close> and \<open>e_jwt_decode\<close> of the environment.
\<close>

definition AUTH_AUDIENCE :: string where "AUTH_AUDIENCE = ''agentpay-provider''"
definition APPROVAL_AUDIENCE :: string where "APPROVAL_AUDIENCE = ''agentpay-approval''"

definition token_requires :: "string list" where
  "token_requires = [''exp'', ''iat'', ''jti'', ''aud'', ''iss'']"

record issued_token =
  it_token :: string
  it_jti :: string
  it_expires_at :: int

section \<open>Authorization tokens\<close>

definition authorization_claims :: "env \<Rightarrow> int \<Rightarrow> int \<Rightarrow> string \<Rightarrow> string \<Rightarrow> string \<Rightarrow> string \<Rightarrow> string \<Rightarrow>
    decimal \<Rightarrow> string \<Rightarrow> string \<Rightarrow> string \<Rightarrow> claims" where
  "authorization_claims E now_s ttl jti pa_id user agent merchant amount currency cart policy =
     [(''iss'', JStr (cfg_jwt_issuer (e_cfg E))), (''aud'', JStr AUTH_AUDIENCE), (''sub'', JStr user),
      (''jti'', JStr jti), (''iat'', JInt now_s), (''exp'', JInt (now_s + ttl)),
      (''payment_authorization_id'', JStr pa_id), (''agent_id'', JStr agent),
      (''merchant_id'', JStr merchant), (''amount'', JStr (dec_str amount)),
      (''currency'', JStr currency), (''cart_hash'', JStr cart), (''max_uses'', JInt 1),
      (''policy_version'', JStr policy)]"

definition issue_authorization_token :: "env \<Rightarrow> string \<Rightarrow> string \<Rightarrow> string \<Rightarrow> string \<Rightarrow> decimal \<Rightarrow>
    string \<Rightarrow> string \<Rightarrow> string \<Rightarrow> issued_token act" where
  "issue_authorization_token E pa_id user agent merchant amount currency cart policy =
     bindE (asks (\<lambda>w. \<lfloor>now w\<rfloor>)) (\<lambda>now_s. bindE (uuid4_hex E) (\<lambda>u.
       let ttl = cfg_token_ttl (e_cfg E); jti = ''pat_'' @ u;
           c = authorization_claims E now_s ttl jti pa_id user agent merchant amount currency cart policy
       in ret \<lparr>it_token = e_jwt_encode E (e_payment_private E) c, it_jti = jti, it_expires_at = now_s + ttl\<rparr>))"

definition verify_authorization_token :: "env \<Rightarrow> real \<Rightarrow> string \<Rightarrow> jwt_error + claims" where
  "verify_authorization_token E t token = e_jwt_decode E (e_payment_public E) token_requires
     AUTH_AUDIENCE (cfg_jwt_issuer (e_cfg E)) t token"

section \<open>Approval tokens\<close>

definition approval_claims :: "env \<Rightarrow> int \<Rightarrow> int \<Rightarrow> string \<Rightarrow> string \<Rightarrow> string \<Rightarrow> string \<Rightarrow> decimal \<Rightarrow>
    string \<Rightarrow> string \<Rightarrow> claims" where
  "approval_claims E now_s ttl jti req_id user merchant amount currency cart =
     [(''iss'', JStr (cfg_jwt_issuer (e_cfg E))), (''aud'', JStr APPROVAL_AUDIENCE), (''sub'', JStr user),
      (''jti'', JStr jti), (''iat'', JInt now_s), (''exp'', JInt (now_s + ttl)),
      (''approval_request_id'', JStr req_id), (''bound_merchant_id'', JStr merchant),
      (''bound_amount'', JStr (dec_str amount)), (''bound_currency'', JStr currency),
      (''bound_cart_hash'', JStr cart)]"

definition issue_approval_token :: "env \<Rightarrow> string \<Rightarrow> string \<Rightarrow> string \<Rightarrow> decimal \<Rightarrow> string \<Rightarrow> string \<Rightarrow>
    int \<Rightarrow> string act" where
  "issue_approval_token E req_id user merchant amount currency cart ttl =
     bindE (asks (\<lambda>w. \<lfloor>now w\<rfloor>)) (\<lambda>now_s. bindE (uuid4_hex E) (\<lambda>u.
       ret (e_jwt_encode E (e_payment_private E)
         (approval_claims E now_s ttl (''apr_'' @ u) req_id user merchant amount currency cart))))"

definition verify_approval_token :: "env \<Rightarrow> real \<Rightarrow> string \<Rightarrow> jwt_error + claims" where
  "verify_approval_token E t token = e_jwt_decode E (e_payment_public E) token_requires
     APPROVAL_AUDIENCE (cfg_jwt_issuer (e_cfg E)) t token"

section \<open>What is relied on of the JWT library\<close>

definition claim :: "claims \<Rightarrow> string \<Rightarrow> json option" where "claim c k = map_of c k"

definition claim_str :: "claims \<Rightarrow> string \<Rightarrow> string option" where
  "claim_str c k = (case claim c k of Some (JStr s) \<Rightarrow> Some s | _ \<Rightarrow> None)"

text \<open>
  The checks of \<open>jwt.decode\<close>: the required claims are there, issuer and audience are the
  expected ones, the token is not expired and not issued in the future.
\<close>

definition jwt_accepts :: "string list \<Rightarrow> string \<Rightarrow> string \<Rightarrow> real \<Rightarrow> claims \<Rightarrow> bool" where
  "jwt_accepts req aud iss t c \<longleftrightarrow> list_all (\<lambda>k. claim c k \<noteq> None) req \<and>
     claim c ''aud'' = Some (JStr aud) \<and> claim c ''iss'' = Some (JStr iss) \<and>
     (case claim c ''exp'' of Some (JInt e) \<Rightarrow> t < of_int e | _ \<Rightarrow> False) \<and>
     (case claim c ''iat'' of Some (JInt i) \<Rightarrow> of_int i \<le> t | _ \<Rightarrow> False)"

text \<open>Decoding returns only claims that pass the checks; and, for a token signed with the
  matching private key, the claims that were signed.\<close>

definition jwt_sound :: "env \<Rightarrow> bool" where
  "jwt_sound E \<longleftrightarrow> (\<forall>key req aud iss t tok c. e_jwt_decode E key req aud iss t tok = Inr c \<longrightarrow> jwt_accepts req aud iss t c)"

definition jwt_returns :: "env \<Rightarrow> string \<Rightarrow> string \<Rightarrow> claims \<Rightarrow> bool" where
  "jwt_returns E private public c \<longleftrightarrow> (\<forall>req aud iss t. jwt_accepts req aud iss t c \<longrightarrow>
     e_jwt_decode E public req aud iss t (e_jwt_encode E private c) = Inr c)"

lemma keeps_issue_authorization [evo]:
  "ignores_clock f \<Longrightarrow> evolves (keeps f) (issue_authorization_token E pa u a m am cu ca po)"
  unfolding issue_authorization_token_def Let_def by (intro frame.ev_rules keeps_uuid)

lemma keeps_issue_approval [evo]: "ignores_clock f \<Longrightarrow> evolves (keeps f) (issue_approval_token E i u m am cu ca ttl)"
  unfolding issue_approval_token_def by (intro frame.ev_rules keeps_uuid)

lemma authorization_accepted:
  assumes "of_int now_s \<le> t" "t < of_int (now_s + ttl)"
  shows "jwt_accepts token_requires AUTH_AUDIENCE (cfg_jwt_issuer (e_cfg E)) t
    (authorization_claims E now_s ttl jti pa u a m am cu ca po)"
  using assms by (simp add: jwt_accepts_def token_requires_def claim_def authorization_claims_def)

lemma approval_accepted:
  assumes "of_int now_s \<le> t" "t < of_int (now_s + ttl)"
  shows "jwt_accepts token_requires APPROVAL_AUDIENCE (cfg_jwt_issuer (e_cfg E)) t
    (approval_claims E now_s ttl jti i u m am cu ca)"
  using assms by (simp add: jwt_accepts_def token_requires_def claim_def approval_claims_def)

text \<open>\<open>authorization.split(" ", 1)[1].strip()\<close> when the header starts with \<open>bearer \<close>.\<close>

definition bearer :: "string option \<Rightarrow> string option" where
  "bearer header = (case header of None \<Rightarrow> None
     | Some h \<Rightarrow> if h \<noteq> [] \<and> startswith (lower h) ''bearer '' then Some (strip (after_first CHR '' '' h)) else None)"

end
