(* ===== verification/Identity.thy ===== *)
theory Identity
  imports Tokens
begin

text \<open>
  \<open>gateway/identity.py\<close>: who is asking, for which delegation, and whether it is revoked. Every
  failure is an \<open>IdentityError\<close>, and a store that cannot be asked counts as a failure.
\<close>

definition REQUIRED_SCOPE :: string where "REQUIRED_SCOPE = ''payments:authorize''"
definition REVOCATION_SET :: string where "REVOCATION_SET = ''agentpay:revoked_delegations''"

record agent_identity =
  id_agent_id :: string
  id_user_id :: string
  id_delegation_id :: string
  id_scopes :: "string list"
  id_jti :: string

text \<open>\<open>list(claims.get("scopes", []))\<close>, with the entries that are text; \<open>None\<close> is the
  \<open>TypeError\<close> of a value that cannot be iterated.\<close>

fun scopes_of :: "json option \<Rightarrow> string list option" where
  "scopes_of None = Some []"
| "scopes_of (Some (JList xs)) = Some (List.map_filter jstr xs)"
| "scopes_of (Some (JStr s)) = Some (map (\<lambda>c. [c]) s)"
| "scopes_of (Some (JObj kvs)) = Some (map fst kvs)"
| "scopes_of (Some _) = None"

definition delegation_requires :: "string list" where
  "delegation_requires = [''exp'', ''iat'', ''sub'', ''jti'', ''iss'', ''aud'']"

definition missing_claims :: "claims \<Rightarrow> string list" where
  "missing_claims c = filter (\<lambda>k. case claim c k of None \<Rightarrow> True | Some v \<Rightarrow> \<not> truthy v) [''agent_id'', ''delegation_id'']"

definition claim_text :: "env \<Rightarrow> claims \<Rightarrow> string \<Rightarrow> string" where
  "claim_text E c k = (case claim c k of None \<Rightarrow> '''' | Some v \<Rightarrow> py_str (e_frepr E) v)"

definition decode_delegation_token :: "env \<Rightarrow> string \<Rightarrow> agent_identity act" where
  "decode_delegation_token E token = (case e_delegation_public E of
       None \<Rightarrow> raise (IdentityError ''IDENTITY_KEY_UNAVAILABLE'' ''delegation public key missing'')
     | Some key \<Rightarrow> bindE (asks now) (\<lambda>t.
         case e_jwt_decode E key delegation_requires (cfg_jwt_audience (e_cfg E)) (cfg_jwt_issuer (e_cfg E)) t token of
           Inl JwtExpired \<Rightarrow> raise (IdentityError ''DELEGATION_EXPIRED'' ''delegation token expired'')
         | Inl (JwtInvalid m) \<Rightarrow> raise (IdentityError ''INVALID_IDENTITY'' (''invalid delegation token: '' @ m))
         | Inr c \<Rightarrow>
             if missing_claims c \<noteq> [] then
               raise (IdentityError ''INVALID_IDENTITY'' (''delegation token missing claims: '' @ join '','' (missing_claims c)))
             else (case scopes_of (claim c ''scopes'') of
                 None \<Rightarrow> raise (BadValue ''scopes'')
               | Some scopes \<Rightarrow> ret \<lparr>id_agent_id = claim_text E c ''agent_id'', id_user_id = claim_text E c ''sub'',
                   id_delegation_id = claim_text E c ''delegation_id'', id_scopes = scopes, id_jti = claim_text E c ''jti''\<rparr>)))"

text \<open>The revocation set could not be read: fail closed.\<close>

definition assert_not_revoked :: "env \<Rightarrow> string \<Rightarrow> unit act" where
  "assert_not_revoked E delegation_id =
     bindE (catchE (store_call E (\<lambda>t st. (st_sismember REVOCATION_SET delegation_id st, st)))
       (\<lambda>_. raise (IdentityError ''REVOCATION_CHECK_UNAVAILABLE''
          ''cannot verify delegation revocation status; failing closed'')))
     (\<lambda>revoked. if revoked then raise (IdentityError ''DELEGATION_REVOKED'' ''delegation has been revoked'') else ret ())"

definition assert_scope :: "agent_identity \<Rightarrow> string \<Rightarrow> unit act" where
  "assert_scope i scope = (if scope \<notin> set (id_scopes i)
     then raise (IdentityError ''AGENT_SCOPE_VIOLATION''
       (''agent '' @ id_agent_id i @ '' lacks required scope '' @ scope)) else ret ())"

definition binding_mismatches :: "agent_identity \<Rightarrow> payment_intent \<Rightarrow> string list" where
  "binding_mismatches i p =
     (if id_agent_id i \<noteq> pi_agent_id p then [''agent_id''] else []) @
     (if id_user_id i \<noteq> pi_user_id p then [''user_id''] else []) @
     (if id_delegation_id i \<noteq> pi_delegation_id p then [''delegation_id''] else [])"

definition assert_binding :: "agent_identity \<Rightarrow> payment_intent \<Rightarrow> unit act" where
  "assert_binding i p = (if binding_mismatches i p \<noteq> []
     then raise (IdentityError ''IDENTITY_INTENT_MISMATCH''
       (''delegation token does not match intent fields: '' @ join '','' (binding_mismatches i p))) else ret ())"

definition authenticate :: "env \<Rightarrow> string option \<Rightarrow> payment_intent \<Rightarrow> agent_identity act" where
  "authenticate E authorization intent = (case bearer authorization of
       None \<Rightarrow> raise (IdentityError ''MISSING_CREDENTIALS'' ''missing bearer delegation token'')
     | Some token \<Rightarrow> bindE (decode_delegation_token E token) (\<lambda>i.
         thenE (assert_binding i intent) (thenE (assert_scope i REQUIRED_SCOPE)
           (thenE (assert_not_revoked E (id_delegation_id i)) (ret i)))))"

definition delegation_claims :: "env \<Rightarrow> int \<Rightarrow> string \<Rightarrow> string \<Rightarrow> string \<Rightarrow> string list option \<Rightarrow> int \<Rightarrow> claims" where
  "delegation_claims E now_s agent user delegation scopes ttl =
     [(''iss'', JStr (cfg_jwt_issuer (e_cfg E))), (''aud'', JStr (cfg_jwt_audience (e_cfg E))),
      (''sub'', JStr user), (''agent_id'', JStr agent), (''delegation_id'', JStr delegation),
      (''scopes'', JList (map JStr (case scopes of None \<Rightarrow> [REQUIRED_SCOPE] | Some s \<Rightarrow> s))),
      (''iat'', JInt now_s), (''exp'', JInt (now_s + ttl)),
      (''jti'', JStr (''jti_'' @ str_int now_s @ ''_'' @ delegation))]"

text \<open>\<open>mint_delegation_token\<close> reads the private key, which only the control plane has.\<close>

definition mint_delegation_token :: "env \<Rightarrow> string \<Rightarrow> string \<Rightarrow> string \<Rightarrow> string list option \<Rightarrow> int \<Rightarrow> string act" where
  "mint_delegation_token E agent user delegation scopes ttl = (case e_delegation_private E of
       None \<Rightarrow> raise (KeyMissing ''delegation_private'')
     | Some key \<Rightarrow> bindE (asks (\<lambda>w. \<lfloor>now w\<rfloor>)) (\<lambda>now_s.
         ret (e_jwt_encode E key (delegation_claims E now_s agent user delegation scopes ttl))))"

section \<open>What a successful authentication establishes\<close>

lemma assert_binding_ok: "assert_binding i p w = (Inr (), w') \<Longrightarrow>
   id_agent_id i = pi_agent_id p \<and> id_user_id i = pi_user_id p \<and> id_delegation_id i = pi_delegation_id p \<and> w' = w"
  by (auto simp: assert_binding_def binding_mismatches_def split: if_splits)

lemma assert_not_revoked_ok: "assert_not_revoked E d w = (Inr (), w') \<Longrightarrow>
   \<not> st_sismember REVOCATION_SET d (store w) \<and> e_store_ok E (ops w) \<and> store w' = store w"
  by (auto simp: assert_not_revoked_def bindE_def catchE_def store_call_def Let_def
      split: prod.splits sum.splits if_splits)

lemma decode_ok:
  assumes "decode_delegation_token E tok w = (Inr i, w')"
  shows "w' = w \<and> (\<exists>key c. e_delegation_public E = Some key \<and>
    e_jwt_decode E key delegation_requires (cfg_jwt_audience (e_cfg E)) (cfg_jwt_issuer (e_cfg E)) (now w) tok = Inr c \<and>
    id_agent_id i = claim_text E c ''agent_id'' \<and> id_user_id i = claim_text E c ''sub'' \<and>
    id_delegation_id i = claim_text E c ''delegation_id'' \<and> scopes_of (claim c ''scopes'') = Some (id_scopes i) \<and>
    missing_claims c = [])"
  using assms by (auto simp: decode_delegation_token_def bindE_def
      split: option.splits sum.splits jwt_error.splits if_splits)

lemma authenticate_ok:
  assumes "authenticate E h p w = (Inr i, w')"
  shows "\<exists>tok key c. bearer h = Some tok \<and> e_delegation_public E = Some key \<and>
    e_jwt_decode E key delegation_requires (cfg_jwt_audience (e_cfg E)) (cfg_jwt_issuer (e_cfg E)) (now w) tok = Inr c \<and>
    claim_text E c ''agent_id'' = pi_agent_id p \<and> claim_text E c ''sub'' = pi_user_id p \<and>
    claim_text E c ''delegation_id'' = pi_delegation_id p \<and>
    scopes_of (claim c ''scopes'') = Some (id_scopes i) \<and> REQUIRED_SCOPE \<in> set (id_scopes i) \<and>
    id_agent_id i = pi_agent_id p \<and> id_user_id i = pi_user_id p \<and> id_delegation_id i = pi_delegation_id p \<and>
    \<not> st_sismember REVOCATION_SET (pi_delegation_id p) (store w) \<and> e_store_ok E (ops w) \<and> store w' = store w"
proof -
  from assms obtain tok where t: "bearer h = Some tok"
    and r: "bindE (decode_delegation_token E tok) (\<lambda>i. thenE (assert_binding i p) (thenE (assert_scope i REQUIRED_SCOPE)
           (thenE (assert_not_revoked E (id_delegation_id i)) (ret i)))) w = (Inr i, w')"
    by (auto simp: authenticate_def split: option.splits)
  from r obtain j w1 where d: "decode_delegation_token E tok w = (Inr j, w1)"
    and r1: "thenE (assert_binding j p) (thenE (assert_scope j REQUIRED_SCOPE)
           (thenE (assert_not_revoked E (id_delegation_id j)) (ret j))) w1 = (Inr i, w')" by (rule bindE_InrE)
  from r1 obtain u2 w2 where b: "assert_binding j p w1 = (Inr u2, w2)"
    and r2: "thenE (assert_scope j REQUIRED_SCOPE) (thenE (assert_not_revoked E (id_delegation_id j)) (ret j)) w2 = (Inr i, w')"
    by (rule thenE_InrE)
  from r2 obtain u3 w3 where s: "assert_scope j REQUIRED_SCOPE w2 = (Inr u3, w3)"
    and r3: "thenE (assert_not_revoked E (id_delegation_id j)) (ret j) w3 = (Inr i, w')" by (rule thenE_InrE)
  from r3 obtain u4 w4 where n: "assert_not_revoked E (id_delegation_id j) w3 = (Inr u4, w4)"
    and i: "j = i" "w4 = w'" by (rule thenE_InrE) simp
  have "REQUIRED_SCOPE \<in> set (id_scopes j)" "w3 = w2" using s by (auto simp: assert_scope_def split: if_splits)
  with decode_ok [OF d] assert_binding_ok [of j p w1 w2] assert_not_revoked_ok [of E "id_delegation_id j" w3 w4]
    b n i t show ?thesis by auto
qed

text \<open>Failing is always an exception of one kind, whatever the store does.\<close>

lemma authenticate_error:
  assumes "authenticate E h p w = (Inl e, w')"
  shows "(\<exists>code msg. e = IdentityError code msg) \<or> e = BadValue ''scopes''"
  using assms by (auto simp: authenticate_def decode_delegation_token_def assert_binding_def assert_scope_def
      assert_not_revoked_def bindE_def thenE_def catchE_def store_call_def Let_def
      split: option.splits sum.splits jwt_error.splits if_splits prod.splits)

lemma keeps_authenticate [evo]:
  assumes "ignores_store f"
  shows "evolves (keeps f) (authenticate E h p)"
proof -
  have "evolves (keeps f) (decode_delegation_token E tok)" for tok
    unfolding decode_delegation_token_def
    by (auto intro!: frame.ev_rules split: option.splits sum.splits jwt_error.splits)
  moreover have "evolves (keeps f) (assert_not_revoked E d)" for d
    unfolding assert_not_revoked_def by (intro frame.ev_rules keeps_store_call assms)
  ultimately show ?thesis unfolding authenticate_def assert_binding_def assert_scope_def
    by (intro frame.ev_rules)
qed

end
