(* ===== verification/Canonical.thy ===== *)
theory Canonical
  imports Identity
begin

text \<open>
  \<open>gateway/canonical.py\<close>: the one typed object every later stage reads, with the untrusted
  text set apart, and the time-bucketed transaction fingerprint.
\<close>

record untrusted_content =
  uc_merchant_text :: string
  uc_source_type :: source_type
  uc_source_url :: string
  uc_purpose :: string
  uc_tool_arguments :: string

record canonical_txn =
  ct_pa_id :: string
  ct_idempotency_key :: string
  ct_payload_hash :: string
  ct_fingerprint :: string
  ct_user_id :: string
  ct_agent_id :: string
  ct_delegation_id :: string
  ct_agent_scopes :: "string list"
  ct_merchant_id :: string
  ct_merchant_verified_claim :: bool
  ct_amount :: decimal
  ct_currency :: string
  ct_cart_hash :: string
  ct_item_count :: int
  ct_untrusted :: untrusted_content
  ct_approval_token :: "string option"

definition untrusted_fields :: "untrusted_content \<Rightarrow> (string \<times> string) list" where
  "untrusted_fields u = [(''merchant_content'', uc_merchant_text u), (''purpose'', uc_purpose u),
     (''tool_arguments'', uc_tool_arguments u)]"

definition untrusted_is_empty :: "untrusted_content \<Rightarrow> bool" where
  "untrusted_is_empty u \<longleftrightarrow> list_all (\<lambda>(k, v). strip v = []) (untrusted_fields u)"

definition fingerprint_bucket :: "env \<Rightarrow> real \<Rightarrow> int" where
  "fingerprint_bucket E ts = \<lfloor>ts / of_int (cfg_fingerprint_window (e_cfg E))\<rfloor>"

definition fingerprint_blob :: "string \<Rightarrow> string \<Rightarrow> string \<Rightarrow> decimal \<Rightarrow> string \<Rightarrow> int \<Rightarrow> string" where
  "fingerprint_blob user merchant cart amount currency bucket =
     join ''|'' [user, merchant, cart, dec_str amount, currency, str_int bucket]"

definition transaction_fingerprint :: "env \<Rightarrow> string \<Rightarrow> string \<Rightarrow> string \<Rightarrow> decimal \<Rightarrow> string \<Rightarrow> real \<Rightarrow> string" where
  "transaction_fingerprint E user merchant cart amount currency ts =
     e_H E (fingerprint_blob user merchant cart amount currency (fingerprint_bucket E ts))"

definition build_canonical :: "env \<Rightarrow> payment_intent \<Rightarrow> agent_identity \<Rightarrow> string \<Rightarrow> real \<Rightarrow> canonical_txn" where
  "build_canonical E p i pa_id t = (let cart = cart_hash (e_H E) (e_frepr E) p in
     \<lparr>ct_pa_id = pa_id, ct_idempotency_key = pi_idempotency_key p,
      ct_payload_hash = payload_hash (e_H E) (e_frepr E) p,
      ct_fingerprint = transaction_fingerprint E (id_user_id i) (pi_merchant_id p) cart (pi_amount p) (pi_currency p) t,
      ct_user_id = id_user_id i, ct_agent_id = id_agent_id i, ct_delegation_id = id_delegation_id i,
      ct_agent_scopes = id_scopes i, ct_merchant_id = pi_merchant_id p,
      ct_merchant_verified_claim = pi_merchant_verified p, ct_amount = pi_amount p,
      ct_currency = pi_currency p, ct_cart_hash = cart,
      ct_item_count = sum_list (map quantity (pi_items p)),
      ct_untrusted = \<lparr>uc_merchant_text = mc_text (pi_merchant_content p),
        uc_source_type = mc_source_type (pi_merchant_content p),
        uc_source_url = mc_source_url (pi_merchant_content p), uc_purpose = pi_purpose p,
        uc_tool_arguments = (if pi_tool_arguments p = [] then ''''
          else dumps (e_frepr E) True '', '' '': '' (JObj (pi_tool_arguments p)))\<rparr>,
      ct_approval_token = pi_approval_token p\<rparr>)"

section \<open>The fingerprint\<close>

definition no_bar :: "string \<Rightarrow> bool" where "no_bar s \<longleftrightarrow> CHR ''|'' \<notin> set s"

lemma bar_split: "no_bar a \<Longrightarrow> no_bar b \<Longrightarrow> a @ ''|'' @ s = b @ ''|'' @ t \<Longrightarrow> a = b \<and> s = t"
proof (induction a arbitrary: b)
  case Nil
  then show ?case by (cases b) (auto simp: no_bar_def)
next
  case (Cons x a)
  then show ?case by (cases b) (auto simp: no_bar_def)
qed

lemma str_int_no_bar: "no_bar (str_int k)"
  using str_nat_digits [of "nat k"] str_nat_digits [of "nat (- k)"]
  by (auto simp: no_bar_def str_int_def is_digit_def)

lemma dec_str_no_bar: "no_bar (dec_str d)"
proof -
  have n: "CHR ''|'' \<notin> set (str_nat n)" for n using str_nat_digits [of n] by (auto simp: is_digit_def)
  then have "CHR ''|'' \<notin> set (take i (str_nat n))" "CHR ''|'' \<notin> set (drop i (str_nat n))" for i n
    by (meson in_set_takeD in_set_dropD)+
  with n str_int_no_bar show ?thesis
    by (auto simp: no_bar_def dec_str_def Let_def zeros_def)
qed

lemma fingerprint_blob_inj:
  assumes "no_bar u" "no_bar u'" "no_bar m" "no_bar m'" "no_bar c" "no_bar c'" "no_bar cu" "no_bar cu'"
    and "fingerprint_blob u m c a cu b = fingerprint_blob u' m' c' a' cu' b'"
  shows "u = u' \<and> m = m' \<and> c = c' \<and> a = a' \<and> cu = cu' \<and> b = b'"
proof -
  from assms(9) have e: "u @ ''|'' @ m @ ''|'' @ c @ ''|'' @ dec_str a @ ''|'' @ cu @ ''|'' @ str_int b =
      u' @ ''|'' @ m' @ ''|'' @ c' @ ''|'' @ dec_str a' @ ''|'' @ cu' @ ''|'' @ str_int b'"
    by (simp add: fingerprint_blob_def)
  from bar_split [OF assms(1,2) e] have 1: "u = u'"
    and e1: "m @ ''|'' @ c @ ''|'' @ dec_str a @ ''|'' @ cu @ ''|'' @ str_int b =
      m' @ ''|'' @ c' @ ''|'' @ dec_str a' @ ''|'' @ cu' @ ''|'' @ str_int b'" by auto
  from bar_split [OF assms(3,4) e1] have 2: "m = m'"
    and e2: "c @ ''|'' @ dec_str a @ ''|'' @ cu @ ''|'' @ str_int b = c' @ ''|'' @ dec_str a' @ ''|'' @ cu' @ ''|'' @ str_int b'"
    by auto
  from bar_split [OF assms(5,6) e2] have 3: "c = c'"
    and e3: "dec_str a @ ''|'' @ cu @ ''|'' @ str_int b = dec_str a' @ ''|'' @ cu' @ ''|'' @ str_int b'" by auto
  from bar_split [OF dec_str_no_bar dec_str_no_bar e3] have 4: "dec_str a = dec_str a'"
    and e4: "cu @ ''|'' @ str_int b = cu' @ ''|'' @ str_int b'" by auto
  from bar_split [OF assms(7,8) e4] have 5: "cu = cu'" "str_int b = str_int b'" by auto
  show ?thesis using 1 2 3 4 5 by (auto dest: dec_str_inj str_int_inj)
qed

text \<open>Two instants less than a window apart fall in the same or in neighbouring buckets; at
  least a window apart, never in the same.\<close>

lemma bucket_far:
  assumes "0 < cfg_fingerprint_window (e_cfg E)" "t + of_int (cfg_fingerprint_window (e_cfg E)) \<le> t'"
  shows "fingerprint_bucket E t < fingerprint_bucket E t'"
proof -
  let ?w = "of_int (cfg_fingerprint_window (e_cfg E)) :: real"
  have "(t + ?w) / ?w \<le> t' / ?w" using assms by (intro divide_right_mono) auto
  then have "t / ?w + 1 \<le> t' / ?w" using assms(1) by (simp add: add_divide_distrib)
  then have "\<lfloor>t / ?w\<rfloor> + 1 \<le> \<lfloor>t' / ?w\<rfloor>" by linarith
  then show ?thesis by (simp add: fingerprint_bucket_def)
qed

end
