(* ===== verification/Ratelimit.thy ===== *)
theory Ratelimit
  imports World
begin

text \<open>
  \<open>gateway/ratelimit.py\<close>: the request ceilings in front of the pipeline. All ceilings are
  checked before anything is recorded, and a store that fails lets the request pass.
\<close>

definition WINDOW_SECONDS :: int where "WINDOW_SECONDS = 60"

definition rl_agent_key :: "string \<Rightarrow> string" where "rl_agent_key a = ''agentpay:rl:agent:'' @ a"
definition rl_deleg_key :: "string \<Rightarrow> string" where "rl_deleg_key d = ''agentpay:rl:deleg:'' @ d"

text \<open>\<open>(key, limit, scope)\<close>.\<close>

definition rl_checks :: "env \<Rightarrow> string \<Rightarrow> string \<Rightarrow> (string \<times> int \<times> string) list" where
  "rl_checks E agent deleg =
     [(rl_agent_key agent, cfg_rate_limit_agent (e_cfg E), ''agent '' @ agent),
      (rl_deleg_key deleg, cfg_rate_limit_delegation (e_cfg E), ''delegation '' @ deleg)]"

definition zcount_window :: "env \<Rightarrow> string \<Rightarrow> int \<Rightarrow> int act" where
  "zcount_window E key window = store_call E (\<lambda>t st. (int (st_zcount_window t key window st), st))"

definition zadd_window :: "env \<Rightarrow> string \<Rightarrow> int \<Rightarrow> int act" where
  "zadd_window E key window = bindE (uuid4_hex E) (\<lambda>m.
     bindE (store_call E (\<lambda>t. st_zadd_window t key window m)) (\<lambda>n. ret (int n)))"

definition rl_check :: "env \<Rightarrow> string \<times> int \<times> string \<Rightarrow> unit act" where
  "rl_check E c = (case c of (key, limit, scope) \<Rightarrow>
     if limit > 0 then bindE (zcount_window E key WINDOW_SECONDS)
       (\<lambda>n. if n \<ge> limit then raise (RateLimitError scope limit) else ret ())
     else ret ())"

definition rl_record :: "env \<Rightarrow> string \<times> int \<times> string \<Rightarrow> unit act" where
  "rl_record E c = (case c of (key, limit, scope) \<Rightarrow>
     if limit > 0 then thenE (zadd_window E key WINDOW_SECONDS) (ret ()) else ret ())"

text \<open>\<open>except RateLimitError: raise; except Exception: pass\<close>.\<close>

definition reraise_rate_limit :: "exn \<Rightarrow> unit act" where
  "reraise_rate_limit e = (case e of RateLimitError s l \<Rightarrow> raise e | _ \<Rightarrow> ret ())"

definition enforce_edge_rate_limit :: "env \<Rightarrow> string \<Rightarrow> string \<Rightarrow> unit act" where
  "enforce_edge_rate_limit E agent deleg =
     (if \<not> cfg_rate_limit_enabled (e_cfg E) then ret ()
      else catchE (thenE (forE (rl_checks E agent deleg) (rl_check E))
                         (forE (rl_checks E agent deleg) (rl_record E)))
             reraise_rate_limit)"

lemma keeps_enforce [evo]:
  assumes "ignores_store f"
  shows "evolves (keeps f) (enforce_edge_rate_limit E a d)"
proof -
  have "evolves (keeps f) (rl_check E c)" "evolves (keeps f) (rl_record E c)" for c
    by (cases c; auto simp: rl_check_def rl_record_def zcount_window_def zadd_window_def
        intro!: frame.ev_rules keeps_store_call keeps_uuid assms ignores_store_clock)+
  then show ?thesis unfolding enforce_edge_rate_limit_def reraise_rate_limit_def
    by (auto intro!: frame.ev_rules split: exn.splits)
qed

text \<open>The only exception it lets out is its own, and then nothing has been recorded.\<close>

lemma rl_check_cases:
  "rl_check E (k, l, s) w = (r, w') \<Longrightarrow> store w' = store w \<and>
     (r = Inr () \<or> r = Inl StoreDown \<or>
      (r = Inl (RateLimitError s l) \<and> 0 < l \<and> l \<le> int (st_zcount_window (now w') k WINDOW_SECONDS (store w))))"
  by (auto simp: rl_check_def zcount_window_def store_call_def bindE_def Let_def split: if_splits)

lemma enforce_rejects:
  assumes "enforce_edge_rate_limit E a d w = (Inl e, w')"
  shows "\<exists>k l s. (k, l, s) \<in> set (rl_checks E a d) \<and> e = RateLimitError s l \<and> 0 < l \<and>
     (\<exists>t \<le> now w'. l \<le> int (st_zcount_window t k WINDOW_SECONDS (store w))) \<and> store w' = store w"
proof -
  let ?c1 = "rl_check E (rl_agent_key a, cfg_rate_limit_agent (e_cfg E), ''agent '' @ a)"
  let ?c2 = "rl_check E (rl_deleg_key d, cfg_rate_limit_delegation (e_cfg E), ''delegation '' @ d)"
  obtain r1 w1 where 1: "?c1 w = (r1, w1)" by fastforce
  obtain r2 w2 where 2: "?c2 w1 = (r2, w2)" by fastforce
  have rec: "\<exists>r w'. forE (rl_checks E a d) (rl_record E) v = (r, w') \<and> (r = Inr () \<or> r = Inl StoreDown)" for v
    by (auto simp: rl_checks_def rl_record_def zadd_window_def uuid4_hex_def store_call_def bindE_def thenE_def Let_def
        split: prod.splits sum.splits)
  from assms have run: "catchE (thenE (thenE ?c1 (thenE ?c2 (ret ()))) (forE (rl_checks E a d) (rl_record E))) reraise_rate_limit w = (Inl e, w')"
    by (auto simp: enforce_edge_rate_limit_def rl_checks_def split: if_splits)
  from rl_check_cases [OF 1] rl_check_cases [OF 2] show ?thesis
  proof (elim conjE disjE)
    assume "r1 = Inr ()" "r2 = Inr ()"
    with run 1 2 rec [of w2] show ?thesis
      by (auto simp: catchE_def thenE_def bindE_def reraise_rate_limit_def split: prod.splits sum.splits)
  qed (use run 1 2 in \<open>auto simp: catchE_def thenE_def bindE_def reraise_rate_limit_def rl_checks_def\<close>)
qed

end
