(* ===== verification/Rules.thy ===== *)
theory Rules
  imports Canonical
begin

text \<open>
  \<open>gateway/analyzer/rules.py\<close>: the deterministic patterns. A pattern is a regular expression
  in the fragment the file uses (repetition of single-character classes only); a match is the
  list of its end positions in the order a backtracking matcher tries them, so \<open>search\<close> gives
  the start and end the \<open>re\<close> module gives. Matching ignores case.
\<close>

section \<open>Regular expressions\<close>

datatype re = REps
  | RClass "char \<Rightarrow> bool"
  | RRep "char \<Rightarrow> bool" nat "nat option"
  | RSeq re re
  | RAlt re re
  | RBound

text \<open>The number of characters from position \<open>i\<close> on that are in the class, at most the bound.\<close>

definition run_length :: "(char \<Rightarrow> bool) \<Rightarrow> nat option \<Rightarrow> string \<Rightarrow> nat \<Rightarrow> nat" where
  "run_length P hi s i = (let k = length (takeWhile P (drop i s)) in
     case hi of None \<Rightarrow> k | Some h \<Rightarrow> min h k)"

definition word_char :: "char \<Rightarrow> bool" where
  "word_char c \<longleftrightarrow> is_digit c \<or> c = CHR ''_'' \<or> (let n = (of_char (lower_char c) :: nat) in 97 \<le> n \<and> n \<le> 122)"

definition at_bound :: "string \<Rightarrow> nat \<Rightarrow> bool" where
  "at_bound s i \<longleftrightarrow> (i > 0 \<and> i \<le> length s \<and> word_char (s ! (i - 1))) \<noteq> (i < length s \<and> word_char (s ! i))"

fun ends :: "string \<Rightarrow> re \<Rightarrow> nat \<Rightarrow> nat list" where
  "ends s REps i = [i]"
| "ends s (RClass P) i = (if i < length s \<and> P (s ! i) then [Suc i] else [])"
| "ends s (RRep P lo hi) i = map (\<lambda>k. i + k) (rev [lo..<Suc (run_length P hi s i)])"
| "ends s (RSeq a b) i = concat (map (ends s b) (ends s a i))"
| "ends s (RAlt a b) i = ends s a i @ ends s b i"
| "ends s RBound i = (if at_bound s i then [i] else [])"

text \<open>\<open>pattern.search(s)\<close>: the first start, then the first end.\<close>

definition search :: "re \<Rightarrow> string \<Rightarrow> (nat \<times> nat) option" where
  "search r s = (case filter (\<lambda>i. ends s r i \<noteq> []) [0..<Suc (length s)] of
     [] \<Rightarrow> None | i # _ \<Rightarrow> Some (i, hd (ends s r i)))"

definition lit :: "char \<Rightarrow> re" where "lit c = RClass (\<lambda>x. lower_char x = lower_char c)"
definition word :: "string \<Rightarrow> re" where "word s = foldr (\<lambda>c r. RSeq (lit c) r) s REps"
definition sp :: re where "sp = RRep is_space 1 None"
definition sp0 :: re where "sp0 = RRep is_space 0 None"
definition opt :: "re \<Rightarrow> re" where "opt r = RAlt r REps"

fun seqs :: "re list \<Rightarrow> re" where
  "seqs [] = REps"
| "seqs [r] = r"
| "seqs (r # rs) = RSeq r (seqs rs)"

fun alts :: "re list \<Rightarrow> re" where
  "alts [] = RClass (\<lambda>_. False)"
| "alts [r] = r"
| "alts (r # rs) = RAlt r (alts rs)"

definition any_of :: "string list \<Rightarrow> re" where "any_of ws = alts (map word ws)"

text \<open>\<open>(w1\s+|w2\s+|...)?\<close>.\<close>
definition opt_then_sp :: "string list \<Rightarrow> re" where
  "opt_then_sp ws = opt (alts (map (\<lambda>w. RSeq (word w) sp) ws))"

lemma ends_bound: "j \<in> set (ends s r i) \<Longrightarrow> i \<le> length s \<Longrightarrow> i \<le> j \<and> j \<le> length s"
proof (induction r arbitrary: i j)
  case (RRep P lo hi)
  have "length (takeWhile P (drop i s)) \<le> length s - i"
    by (metis length_drop length_takeWhile_le)
  with RRep show ?case by (auto simp: run_length_def Let_def split: option.splits)
next
  case (RSeq a b)
  then show ?case by (fastforce intro: le_trans)
qed (auto split: if_splits)

lemma search_bound:
  assumes "search r s = Some (i, j)"
  shows "i \<le> j \<and> j \<le> length s"
proof -
  from assms obtain rest where f: "filter (\<lambda>i. ends s r i \<noteq> []) [0..<Suc (length s)] = i # rest" and j: "j = hd (ends s r i)"
    by (auto simp: search_def split: list.splits)
  from f have "i \<in> set (filter (\<lambda>i. ends s r i \<noteq> []) [0..<Suc (length s)])" by (simp only: list.set_intros)
  then have "ends s r i \<noteq> []" "i \<le> length s" unfolding set_filter mem_Collect_eq set_upt atLeastLessThan_iff less_Suc_eq_le by blast+
  then show ?thesis using ends_bound [of j s r i] j by simp
qed

section \<open>The rules\<close>

record rule_def =
  ru_label :: string
  ru_pattern :: re
  ru_weight :: real
  ru_description :: string

definition mk_rule :: "string \<Rightarrow> re \<Rightarrow> real \<Rightarrow> string \<Rightarrow> rule_def" where
  "mk_rule l p w d = \<lparr>ru_label = l, ru_pattern = p, ru_weight = w, ru_description = d\<rparr>"

definition instruction_override :: re where
  "instruction_override = seqs [RBound, any_of [''ignore'', ''disregard'', ''forget'', ''override''], sp,
     opt_then_sp [''all'', ''any'', ''the''],
     any_of [''previous'', ''prior'', ''earlier'', ''above'', ''preceding'', ''system''], sp,
     any_of [''instruction'', ''instructions'', ''prompt'', ''prompts'', ''rule'', ''rules'', ''message'', ''messages''], RBound]"

definition role_reassignment :: re where
  "role_reassignment = seqs [RBound, alts [
     seqs [word ''you'', sp, word ''are'', sp, word ''now''],
     seqs [word ''from'', sp, word ''now'', sp, word ''on'', sp, word ''you''],
     seqs [word ''act'', sp, word ''as''],
     seqs [word ''pretend'', sp, word ''to'', sp, word ''be''],
     seqs [word ''new'', sp, opt_then_sp [''system''],
       alts [word ''prompt'', RSeq (word ''instruction'') (opt (word ''s'')), word ''role'']]], RBound]"

definition verification_bypass :: re where
  "verification_bypass = seqs [RBound,
     alts [word ''disable'', word ''skip'', word ''bypass'', seqs [word ''turn'', sp, word ''off''], word ''suppress'', word ''omit''], sp,
     opt_then_sp [''the''],
     any_of [''verification'', ''validation'', ''security'', ''safety'', ''check'', ''checks'', ''2fa'', ''mfa'',
       ''confirmation'', ''approval'', ''review''], RBound]"

definition approval_suppression :: re where
  "approval_suppression = seqs [RBound,
     alts [seqs [word ''do'', sp, word ''not''], seqs [word ''don'', opt (lit CHR 0x27), word ''t''], word ''never'',
       seqs [word ''no'', sp, word ''need'', sp, word ''to'']], sp,
     any_of [''ask'', ''request'', ''require'', ''prompt'', ''wait''], sp,
     opt_then_sp [''for''], opt_then_sp [''the''], opt_then_sp [''user''],
     any_of [''confirmation'', ''approval'', ''permission'', ''consent'', ''authorization''], RBound]"

definition budget_bypass :: re where
  "budget_bypass = seqs [RBound,
     any_of [''ignore'', ''exceed'', ''raise'', ''increase'', ''remove'', ''lift'', ''bypass'', ''override''], sp,
     opt_then_sp [''the'', ''your'', ''any''], opt_then_sp [''spending''],
     any_of [''budget'', ''limit'', ''limits'', ''cap'', ''caps'', ''threshold'', ''ceiling''], RBound]"

definition alternate_endpoint :: re where
  "alternate_endpoint = seqs [RBound,
     any_of [''use'', ''send'', ''post'', ''redirect'', ''route'', ''forward''], sp, opt_then_sp [''the''],
     opt (any_of [''payment'', ''funds'', ''money'', ''transaction'', ''request'', ''checkout'']), sp0,
     opt_then_sp [''to''],
     opt (alts [RSeq (word ''this'') sp, seqs [word ''a'', opt (word ''n''), sp], RSeq (word ''our'') sp]),
     any_of [''alternate'', ''alternative'', ''different'', ''new'', ''backup'', ''updated''], sp,
     any_of [''endpoint'', ''url'', ''address'', ''api'', ''gateway'', ''link'', ''account'', ''wallet''], RBound]"

definition credential_exfiltration :: re where
  "credential_exfiltration = seqs [RBound,
     any_of [''reveal'', ''show'', ''print'', ''output'', ''send'', ''share'', ''leak'', ''repeat''], sp,
     opt_then_sp [''me'', ''us''], opt_then_sp [''your'', ''the'', ''all''],
     alts [seqs [word ''system'', sp, word ''prompt''],
       seqs [word ''api'', RRep (\<lambda>c. c = CHR ''_'' \<or> is_space c \<or> c = CHR ''-'') 0 (Some 1), word ''key''],
       word ''secret'', word ''secrets'', word ''token'', word ''tokens'', word ''credential'', word ''credentials'',
       word ''password''], RBound]"

definition urgency_pressure :: re where
  "urgency_pressure = seqs [RBound,
     alts [word ''urgent'', word ''immediately'', seqs [word ''right'', sp, word ''now''],
       seqs [word ''without'', sp, word ''delay''],
       seqs [word ''before'', sp, word ''it'', opt (lit CHR 0x27), word ''s'', sp, word ''too'', sp, word ''late'']],
     RBound, RRep (\<lambda>c. c \<noteq> CHR ''.'') 0 (Some 60), RBound,
     alts [word ''pay'', word ''purchase'', word ''buy'', word ''transfer'', word ''checkout'',
       seqs [word ''complete'', sp, word ''the'', sp, word ''order'']], RBound]"

definition hidden_markers :: re where
  "hidden_markers = alts [
     seqs [lit CHR ''<'', sp0, word ''!--''],
     seqs [lit CHR ''['', sp0, word ''system'', sp0, lit CHR '']''],
     seqs [word ''{{'', sp0, word ''system''],
     seqs [word ''###'', sp0, word ''system''],
     word ''<|im_start|>'',
     seqs [RBound, word ''BEGIN'', sp, word ''SYSTEM'', RBound],
     seqs [RBound, word ''END'', sp, word ''SYSTEM'', RBound]]"

definition amount_mutation :: re where
  "amount_mutation = seqs [RBound,
     any_of [''change'', ''update'', ''set'', ''adjust'', ''modify'', ''correct''], sp, opt_then_sp [''the''],
     any_of [''amount'', ''total'', ''price'', ''quantity'', ''currency'', ''recipient'', ''merchant''], sp,
     any_of [''to'', ''into''], RBound]"

definition tool_invocation :: re where
  "tool_invocation = seqs [RBound, any_of [''call'', ''invoke'', ''execute'', ''run'', ''trigger''], sp,
     opt_then_sp [''the''], any_of [''tool'', ''function'', ''api'', ''endpoint'', ''command''], RBound,
     RRep (\<lambda>c. c \<noteq> CHR ''.'') 0 (Some 40), RBound,
     any_of [''pay'', ''transfer'', ''checkout'', ''authorize'', ''purchase''], RBound]"

definition RULES :: "rule_def list" where
  "RULES = [
     mk_rule ''instruction_override_phrase'' instruction_override (9/10) ''classic prompt-override phrasing'',
     mk_rule ''role_reassignment'' role_reassignment (7/10) ''attempts to reassign the model's role'',
     mk_rule ''verification_bypass_request'' verification_bypass (95/100) ''asks for a control to be switched off'',
     mk_rule ''approval_suppression'' approval_suppression (95/100) ''asks the agent to pay without human confirmation'',
     mk_rule ''budget_bypass_request'' budget_bypass (9/10) ''asks for the spending policy to be relaxed'',
     mk_rule ''alternate_endpoint'' alternate_endpoint (95/100) ''attempts to redirect funds or traffic'',
     mk_rule ''credential_exfiltration'' credential_exfiltration (9/10) ''asks for secrets or the system prompt'',
     mk_rule ''urgency_pressure'' urgency_pressure (45/100) ''social-engineering urgency paired with a payment verb'',
     mk_rule ''hidden_instruction_markers'' hidden_markers (75/100) ''smuggled instruction delimiters or hidden markup'',
     mk_rule ''amount_mutation_request'' amount_mutation (8/10) ''asks for the money-moving flds to be rewritten'',
     mk_rule ''tool_invocation_injection'' tool_invocation (85/100) ''tries to drive tool use from inside content'']"

section \<open>Scanning\<close>

text \<open>\<open>_INVISIBLE\<close>, of whose members only the soft hyphen is a one-byte character.\<close>

definition invisible :: "char \<Rightarrow> bool" where "invisible c \<longleftrightarrow> (of_char c :: nat) = 173"

definition blank :: "char \<Rightarrow> bool" where "blank c \<longleftrightarrow> (of_char c :: nat) \<in> {9, 32, 160}"

text \<open>\<open>re.sub(r"[ \t]+", " ", text)\<close> and the like: every run of the class becomes one space.\<close>

fun squeeze :: "(char \<Rightarrow> bool) \<Rightarrow> string \<Rightarrow> string" where
  "squeeze P [] = []"
| "squeeze P [c] = (if P c then '' '' else [c])"
| "squeeze P (c # d # s) = (if P c then (if P d then squeeze P (d # s) else CHR '' '' # squeeze P (d # s))
     else c # squeeze P (d # s))"

text \<open>\<open>normalize\<close>; \<open>unicodedata.normalize("NFKC", s)\<close> is the identity on ASCII text.\<close>

definition normalize :: "string \<Rightarrow> string" where
  "normalize s = squeeze blank (filter (\<lambda>c. \<not> invisible c) s)"

record rule_finding =
  rf_label :: string
  rf_field :: string
  rf_weight :: real
  rf_excerpt :: string
  rf_description :: string

record rule_scan =
  rs_findings :: "rule_finding list"
  rs_confidence :: real
  rs_had_invisible :: bool

definition rule_finding_of :: "string \<Rightarrow> string \<Rightarrow> rule_def \<Rightarrow> rule_finding option" where
  "rule_finding_of name s r = (case search (ru_pattern r) s of None \<Rightarrow> None
     | Some (i, j) \<Rightarrow> let start = i - 30 in
         Some \<lparr>rf_label = ru_label r, rf_field = name, rf_weight = ru_weight r,
           rf_excerpt = take 160 (strip (take (j + 30 - start) (drop start s))),
           rf_description = ru_description r\<rparr>)"

definition field_findings :: "string \<times> string \<Rightarrow> rule_finding list" where
  "field_findings f = (case f of (name, raw) \<Rightarrow>
     if raw = [] then [] else List.map_filter (rule_finding_of name (normalize raw)) RULES)"

definition rule_findings :: "(string \<times> string) list \<Rightarrow> rule_finding list" where
  "rule_findings flds = concat (map field_findings flds)"

definition saw_invisible :: "(string \<times> string) list \<Rightarrow> bool" where
  "saw_invisible flds \<longleftrightarrow> list_ex (\<lambda>(name, raw). list_ex invisible raw) flds"

definition top_weight :: "rule_finding list \<Rightarrow> real" where
  "top_weight fs = foldr (\<lambda>f m. max (rf_weight f) m) fs 0"

definition distinct_labels :: "rule_finding list \<Rightarrow> string list" where
  "distinct_labels fs = sort (remdups (map rf_label fs))"

definition scan_rules :: "(string \<times> string) list \<Rightarrow> rule_scan" where
  "scan_rules flds = (let fs = rule_findings flds; inv = saw_invisible flds in
     if fs = [] then \<lparr>rs_findings = [], rs_confidence = (if inv then 8/100 else 0), rs_had_invisible = inv\<rparr>
     else \<lparr>rs_findings = fs,
       rs_confidence = py_round (min 1 (top_weight fs + 5/100 * (of_nat (length (distinct_labels fs)) - 1) + (if inv then 5/100 else 0))) 3,
       rs_had_invisible = inv\<rparr>)"

section \<open>What a scan reports\<close>

lemma RULES_weight: "r \<in> set RULES \<Longrightarrow> 45/100 \<le> ru_weight r \<and> ru_weight r \<le> 95/100"
  by (auto simp: RULES_def mk_rule_def)

lemma finding_weight: "f \<in> set (rule_findings flds) \<Longrightarrow> 45/100 \<le> rf_weight f \<and> rf_weight f \<le> 95/100"
  by (auto simp: rule_findings_def field_findings_def rule_finding_of_def map_filter_def Let_def
      split: if_splits option.splits prod.splits dest!: RULES_weight)

lemma top_weight_ge: "f \<in> set fs \<Longrightarrow> rf_weight f \<le> top_weight fs"
  by (induction fs) (auto simp: top_weight_def)

lemma top_weight_nonneg: "0 \<le> top_weight fs"
  by (induction fs) (auto simp: top_weight_def)

lemma distinct_labels_pos: "fs \<noteq> [] \<Longrightarrow> 1 \<le> length (distinct_labels fs)"
  by (cases fs) (auto simp: distinct_labels_def Suc_le_eq length_greater_0_conv)

lemma scan_rules_unit: "0 \<le> rs_confidence (scan_rules flds)" "rs_confidence (scan_rules flds) \<le> 1"
proof -
  let ?fs = "rule_findings flds"
  let ?x = "top_weight ?fs + 5/100 * (of_nat (length (distinct_labels ?fs)) - 1) + (if saw_invisible flds then 5/100 else 0)"
  have "?fs \<noteq> [] \<Longrightarrow> 0 \<le> py_round (min 1 ?x) 3 \<and> py_round (min 1 ?x) 3 \<le> 1"
    using top_weight_nonneg [of ?fs] distinct_labels_pos [of ?fs] by (intro py_round_unit) auto
  then show "0 \<le> rs_confidence (scan_rules flds)" "rs_confidence (scan_rules flds) \<le> 1"
    by (auto simp: scan_rules_def Let_def)
qed

lemma min_one_add: "x \<le> 1 \<Longrightarrow> x \<le> t \<Longrightarrow> 0 \<le> a \<Longrightarrow> 0 \<le> b \<Longrightarrow> x \<le> min 1 (t + a + b)" for x t a b :: real
  by simp

text \<open>A match of any rule puts the confidence at no less than its weight.\<close>

lemma scan_rules_floor:
  assumes "f \<in> set (rule_findings flds)"
  shows "py_round (rf_weight f) 3 \<le> rs_confidence (scan_rules flds)"
proof -
  let ?fs = "rule_findings flds"
  have ne: "?fs \<noteq> []" using assms by auto
  have "rf_weight f \<le> 1" using finding_weight [OF assms] by simp
  moreover have "0 \<le> 5/100 * (real (length (distinct_labels ?fs)) - 1)" using distinct_labels_pos [OF ne] by simp
  ultimately have "rf_weight f \<le> min 1 (top_weight ?fs + 5/100 * (of_nat (length (distinct_labels ?fs)) - 1) + (if saw_invisible flds then 5/100 else 0))"
    using top_weight_ge [OF assms] by (intro min_one_add) simp_all
  with ne show ?thesis by (simp add: scan_rules_def Let_def py_round_mono)
qed

end
