(* ===== verification/Analyzer.thy ===== *)
theory Analyzer
  imports Similarity Classifier
begin

text \<open>
  \<open>gateway/analyzer/trust.py\<close> and \<open>gateway/analyzer/__init__.py\<close>: the three detectors are
  combined by a maximum, amplified by how little the source is trusted.
\<close>

section \<open>Source trust\<close>

fun trust_score :: "source_type \<Rightarrow> real" where
  "trust_score OFFICIAL_API = 95/100"
| "trust_score VERIFIED_CATALOG = 8/10"
| "trust_score USER_UPLOAD = 1/2"
| "trust_score SCRAPED_PAGE = 25/100"
| "trust_score EMAIL = 15/100"
| "trust_score SOURCE_UNKNOWN = 1/10"

definition injection_prior :: "source_type \<Rightarrow> real" where
  "injection_prior s = 1 + (1 - trust_score s) * (25/100)"

lemma trust_unit: "0 \<le> trust_score s \<and> trust_score s \<le> 1" by (cases s) simp_all
lemma prior_ge_1: "1 \<le> injection_prior s" using trust_unit [of s] by (simp add: injection_prior_def)

section \<open>Combining\<close>

definition corroborated :: "real list \<Rightarrow> bool" where
  "corroborated cs \<longleftrightarrow> 2 \<le> length (filter (\<lambda>c. c > 0) cs)"

definition combine :: "real \<Rightarrow> real \<Rightarrow> source_type \<Rightarrow> real \<Rightarrow> real" where
  "combine rules llm source similarity = (let base = max (max rules llm) similarity;
     boosted = (if corroborated [rules, llm, similarity] then min 1 (base + 5/100) else base)
     in py_round (min 1 (boosted * injection_prior source)) 3)"

definition unit :: "real \<Rightarrow> bool" where "unit x \<longleftrightarrow> 0 \<le> x \<and> x \<le> 1"

lemma combine_unit: "unit r \<Longrightarrow> unit l \<Longrightarrow> unit s \<Longrightarrow> unit (combine r l src s)"
proof -
  assume u: "unit r" "unit l" "unit s"
  let ?b = "if corroborated [r, l, s] then min 1 (max (max r l) s + 5/100) else max (max r l) s"
  have "0 \<le> ?b" using u by (auto simp: unit_def)
  then have "0 \<le> min 1 (?b * injection_prior src)" using prior_ge_1 [of src] by auto
  then show ?thesis unfolding combine_def Let_def unit_def by (rule py_round_unit) simp
qed

lemma combine_mono:
  assumes "0 \<le> r" "r \<le> r'" "0 \<le> l" "l \<le> l'" "0 \<le> s" "s \<le> s'" "r' \<le> 1" "l' \<le> 1" "s' \<le> 1"
  shows "combine r l src s \<le> combine r' l' src s'"
proof -
  let ?b = "\<lambda>r l s. if corroborated [r, l, s] then min 1 (max (max r l) s + 5/100) else max (max r l) s"
  have c: "corroborated [r, l, s] \<Longrightarrow> corroborated [r', l', s']"
    using assms by (auto simp: corroborated_def split: if_splits)
  have "?b r l s \<le> ?b r' l' s'" using assms c by (auto simp: min_def)
  then have "?b r l s * injection_prior src \<le> ?b r' l' s' * injection_prior src"
    using prior_ge_1 [of src] by (intro mult_right_mono) auto
  then show ?thesis unfolding combine_def Let_def by (intro py_round_mono min.mono) auto
qed

text \<open>The combined score is no less than any one detector's, up to the rounding to 3 digits.\<close>

lemma combine_ge:
  assumes "unit r" "unit l" "unit s" "x \<in> {r, l, s}"
  shows "py_round x 3 \<le> combine r l src s"
proof -
  let ?b = "if corroborated [r, l, s] then min 1 (max (max r l) s + 5/100) else max (max r l) s"
  have x: "0 \<le> x" "x \<le> 1" "x \<le> ?b" using assms by (auto simp: unit_def)
  have "?b * 1 \<le> ?b * injection_prior src" using prior_ge_1 [of src] x by (intro mult_left_mono) auto
  with x show ?thesis unfolding combine_def Let_def by (intro py_round_mono) auto
qed

section \<open>The analysis\<close>

record analysis_result =
  an_injection_confidence :: real
  an_injection_labels :: "string list"
  an_rule_confidence :: real
  an_llm_confidence :: real
  an_similarity_confidence :: real
  an_similarity_label :: string
  an_deterministic_confidence :: real
  an_classifier_degraded :: bool
  an_classifier_degraded_reason :: string
  an_source_trust_score :: real
  an_evidence :: "json list"
  an_classifier_model :: string
  an_classifier_latency_ms :: int

definition analysis_fields :: "analysis_result \<Rightarrow> (string \<times> json) list" where
  "analysis_fields a = [(''injection_confidence'', JFloat (an_injection_confidence a)),
     (''injection_labels'', JList (map JStr (an_injection_labels a))),
     (''rule_confidence'', JFloat (an_rule_confidence a)), (''llm_confidence'', JFloat (an_llm_confidence a)),
     (''similarity_confidence'', JFloat (an_similarity_confidence a)),
     (''similarity_label'', JStr (an_similarity_label a)),
     (''deterministic_confidence'', JFloat (an_deterministic_confidence a)),
     (''classifier_degraded'', JBool (an_classifier_degraded a)),
     (''classifier_degraded_reason'', JStr (an_classifier_degraded_reason a)),
     (''source_trust_score'', JFloat (an_source_trust_score a)),
     (''classifier_model'', JStr (an_classifier_model a)),
     (''classifier_latency_ms'', JInt (an_classifier_latency_ms a)),
     (''evidence'', JList (take 12 (an_evidence a)))]"

definition analysis_json :: "analysis_result \<Rightarrow> json" where "analysis_json a = JObj (analysis_fields a)"

definition evidence_json :: "string \<Rightarrow> string \<Rightarrow> string \<Rightarrow> string \<Rightarrow> string \<Rightarrow> json" where
  "evidence_json layer label fld excerpt why = JObj [(''layer'', JStr layer), (''label'', JStr label),
     (''field'', JStr fld), (''excerpt'', JStr excerpt), (''why'', JStr why)]"

definition all_labels :: "rule_scan \<Rightarrow> classifier_result \<Rightarrow> similarity_result \<Rightarrow> string list" where
  "all_labels rr lr sr = sort (remdups (distinct_labels (rs_findings rr) @
     filter (\<lambda>s. \<not> startswith s ''classifier_unavailable'') (cr_signals lr) @
     (if sm_label sr \<noteq> [] then [''similar:'' @ sm_label sr] else [])))"

definition all_evidence :: "env \<Rightarrow> rule_scan \<Rightarrow> classifier_result \<Rightarrow> similarity_result \<Rightarrow> json list" where
  "all_evidence E rr lr sr =
     map (\<lambda>f. evidence_json ''rules'' (rf_label f) (rf_field f) (rf_excerpt f) (rf_description f)) (rs_findings rr) @
     (if cr_signals lr \<noteq> [] \<and> \<not> cr_degraded lr then
        [evidence_json ''llm'' (join '','' (take 5 (cr_signals lr))) ''data_block'' ''''
          (cr_model lr @ '' confidence '' @ e_frepr E (cr_confidence lr))] else []) @
     (if sm_confidence sr > 0 then
        [evidence_json ''similarity'' (if sm_label sr \<noteq> [] then sm_label sr else ''sub-threshold'') ''untrusted_fields'' ''''
          (''resemblance to known injection patterns ('' @ e_frepr E (sm_confidence sr) @ '')'')] else [])"

definition analysis_of :: "env \<Rightarrow> source_type \<Rightarrow> rule_scan \<Rightarrow> classifier_result \<Rightarrow> similarity_result \<Rightarrow> analysis_result" where
  "analysis_of E source rr lr sr = \<lparr>
     an_injection_confidence = combine (rs_confidence rr) (cr_confidence lr) source (sm_confidence sr),
     an_injection_labels = all_labels rr lr sr,
     an_rule_confidence = rs_confidence rr, an_llm_confidence = cr_confidence lr,
     an_similarity_confidence = sm_confidence sr, an_similarity_label = sm_label sr,
     an_deterministic_confidence = combine (rs_confidence rr) 0 source (sm_confidence sr),
     an_classifier_degraded = cr_degraded lr, an_classifier_degraded_reason = cr_degraded_reason lr,
     an_source_trust_score = trust_score source, an_evidence = all_evidence E rr lr sr,
     an_classifier_model = cr_model lr, an_classifier_latency_ms = cr_latency_ms lr\<rparr>"

definition analyze :: "env \<Rightarrow> canonical_txn \<Rightarrow> analysis_result act" where
  "analyze E txn = (let flds = untrusted_fields (ct_untrusted txn) in
     bindE (classify E flds) (\<lambda>lr. ret (analysis_of E (uc_source_type (ct_untrusted txn))
       (scan_rules flds) lr (scan_similarity flds))))"

lemma analyze_total: "\<exists>a w'. analyze E txn w = (Inr a, w')"
  using classify_total [of E "untrusted_fields (ct_untrusted txn)" w] by (auto simp: analyze_def Let_def bindE_def)

lemma analyze_ok:
  assumes "analyze E txn w = (Inr a, w')"
  shows "unit (an_injection_confidence a)" "unit (an_deterministic_confidence a)"
    "an_deterministic_confidence a \<le> an_injection_confidence a"
    "an_classifier_degraded a \<Longrightarrow> an_injection_confidence a = an_deterministic_confidence a"
    "py_round (rs_confidence (scan_rules (untrusted_fields (ct_untrusted txn)))) 3 \<le> an_deterministic_confidence a"
    "py_round (sm_confidence (scan_similarity (untrusted_fields (ct_untrusted txn)))) 3 \<le> an_deterministic_confidence a"
proof -
  let ?f = "untrusted_fields (ct_untrusted txn)" and ?s = "uc_source_type (ct_untrusted txn)"
  from assms obtain lr where c: "classify E ?f w = (Inr lr, w')"
    and a: "a = analysis_of E ?s (scan_rules ?f) lr (scan_similarity ?f)"
    by (auto simp: analyze_def Let_def elim: bindE_InrE)
  have u: "unit (rs_confidence (scan_rules ?f))" "unit (cr_confidence lr)" "unit (sm_confidence (scan_similarity ?f))"
    using scan_rules_unit classify_unit [OF c] scan_similarity_unit by (simp_all add: unit_def)
  have z: "unit 0" by (simp add: unit_def)
  show "unit (an_injection_confidence a)" "unit (an_deterministic_confidence a)"
    by (simp_all add: a analysis_of_def combine_unit u z)
  show "an_deterministic_confidence a \<le> an_injection_confidence a"
    using u by (simp add: a analysis_of_def unit_def combine_mono)
  show "an_classifier_degraded a \<Longrightarrow> an_injection_confidence a = an_deterministic_confidence a"
    using degraded_zero [OF c] by (simp add: a analysis_of_def)
  show "py_round (rs_confidence (scan_rules ?f)) 3 \<le> an_deterministic_confidence a"
    "py_round (sm_confidence (scan_similarity ?f)) 3 \<le> an_deterministic_confidence a"
    unfolding a analysis_of_def analysis_result.simps by (rule combine_ge [OF u(1) z u(3)], simp)+
qed

lemma keeps_analyze [evo]:
  assumes "ignores_clock f" "\<And>w b. f (w\<lparr>breaker := b\<rparr>) = f w"
  shows "evolves (keeps f) (analyze E txn)"
  unfolding analyze_def Let_def by (intro frame.ev_rules keeps_classify assms)

end
