(* ===== verification/Context.thy ===== *)
theory Context
  imports Canonical Ratelimit Analyzer
begin

text \<open>
  \<open>gateway/context.py\<close> and \<open>gateway/risk.py\<close>: the deterministic facts a decision needs, and
  the signals and weighted score made of them. Neither decides anything.
\<close>

section \<open>The facts\<close>

record policy_context =
  pc_policy_found :: bool
  pc_policy_version :: string
  pc_per_transaction_limit :: decimal
  pc_daily_limit :: decimal
  pc_policy_currency :: string
  pc_allowed_merchants :: "string list"
  pc_blocked_merchants :: "string list"
  pc_require_verified_merchant :: bool
  pc_approval_threshold :: decimal
  pc_max_transactions_per_hour :: int
  pc_policy_revoked :: bool
  pc_merchant_known :: bool
  pc_merchant_verified :: bool
  pc_merchant_category :: string
  pc_merchant_registry_risk :: real
  pc_agent_registered :: bool
  pc_agent_active :: bool
  pc_agent_allowed_categories :: "string list"
  pc_spent_today :: decimal
  pc_transactions_last_hour :: int

definition no_context :: policy_context where
  "no_context = \<lparr>pc_policy_found = False, pc_policy_version = ''unbound'',
     pc_per_transaction_limit = dec_zero, pc_daily_limit = dec_zero, pc_policy_currency = ''USD'',
     pc_allowed_merchants = [], pc_blocked_merchants = [], pc_require_verified_merchant = True,
     pc_approval_threshold = dec_zero, pc_max_transactions_per_hour = 10, pc_policy_revoked = False,
     pc_merchant_known = False, pc_merchant_verified = False, pc_merchant_category = ''unknown'',
     pc_merchant_registry_risk = 9/10, pc_agent_registered = False, pc_agent_active = False,
     pc_agent_allowed_categories = [], pc_spent_today = dec_zero, pc_transactions_last_hour = 0\<rparr>"

definition context_json :: "policy_context \<Rightarrow> json" where
  "context_json c = JObj [(''policy_found'', JBool (pc_policy_found c)), (''policy_version'', JStr (pc_policy_version c)),
     (''per_transaction_limit'', JStr (dec_str (pc_per_transaction_limit c))),
     (''daily_limit'', JStr (dec_str (pc_daily_limit c))), (''policy_currency'', JStr (pc_policy_currency c)),
     (''allowed_merchants'', JList (map JStr (pc_allowed_merchants c))),
     (''blocked_merchants'', JList (map JStr (pc_blocked_merchants c))),
     (''require_verified_merchant'', JBool (pc_require_verified_merchant c)),
     (''approval_threshold'', JStr (dec_str (pc_approval_threshold c))),
     (''max_transactions_per_hour'', JInt (pc_max_transactions_per_hour c)),
     (''policy_revoked'', JBool (pc_policy_revoked c)), (''merchant_known'', JBool (pc_merchant_known c)),
     (''merchant_verified'', JBool (pc_merchant_verified c)), (''merchant_category'', JStr (pc_merchant_category c)),
     (''merchant_registry_risk'', JFloat (pc_merchant_registry_risk c)),
     (''agent_registered'', JBool (pc_agent_registered c)), (''agent_active'', JBool (pc_agent_active c)),
     (''agent_allowed_categories'', JList (map JStr (pc_agent_allowed_categories c))),
     (''spent_today'', JStr (dec_str (pc_spent_today c))),
     (''transactions_last_hour'', JInt (pc_transactions_last_hour c))]"

definition SETTLED_STATES :: "payment_state list" where
  "SETTLED_STATES = [AUTHORIZED, SUBMITTED, CONFIRMED, TIMEOUT, UNKNOWN]"

definition with_policy :: "policy_row option \<Rightarrow> string \<Rightarrow> policy_context \<Rightarrow> policy_context" where
  "with_policy row user c = (case row of None \<Rightarrow> c
     | Some p \<Rightarrow> if sp_user_id p \<noteq> user then c else c\<lparr>pc_policy_found := True,
         pc_policy_version := sp_policy_version p, pc_per_transaction_limit := sp_per_transaction_limit p,
         pc_daily_limit := sp_daily_limit p, pc_policy_currency := sp_currency p,
         pc_allowed_merchants := sp_allowed_merchants p, pc_blocked_merchants := sp_blocked_merchants p,
         pc_require_verified_merchant := sp_require_verified p,
         pc_approval_threshold := sp_approval_threshold p,
         pc_max_transactions_per_hour := sp_max_per_hour p, pc_policy_revoked := sp_revoked p\<rparr>)"

definition with_merchant :: "merchant_row option \<Rightarrow> policy_context \<Rightarrow> policy_context" where
  "with_merchant row c = (case row of None \<Rightarrow> c
     | Some m \<Rightarrow> c\<lparr>pc_merchant_known := True, pc_merchant_verified := mr_verified m,
         pc_merchant_category := mr_category m, pc_merchant_registry_risk := mr_risk_score m\<rparr>)"

definition with_agent :: "agent_row option \<Rightarrow> policy_context \<Rightarrow> policy_context" where
  "with_agent row c = (case row of None \<Rightarrow> c
     | Some a \<Rightarrow> c\<lparr>pc_agent_registered := True, pc_agent_active := ag_active a,
         pc_agent_allowed_categories := ag_allowed_categories a\<rparr>)"

text \<open>\<open>func.sum\<close> over a \<open>Numeric(12, 2)\<close> column: a sum of hundredths.\<close>

definition spent_since :: "string \<Rightarrow> real \<Rightarrow> txn_row list \<Rightarrow> int" where
  "spent_since user since rows = sum_list (map (\<lambda>r. to_minor_units (tr_amount r))
     (filter (\<lambda>r. tr_user_id r = user \<and> since \<le> tr_created_at r \<and> tr_state r \<in> set SETTLED_STATES) rows))"

definition db_context :: "canonical_txn \<Rightarrow> real \<Rightarrow> database \<Rightarrow> policy_context" where
  "db_context txn t d =
     (with_agent (agents d (ct_agent_id txn)) (with_merchant (merchants d (ct_merchant_id txn))
       (with_policy (policies d (ct_delegation_id txn)) (ct_user_id txn) no_context)))
     \<lparr>pc_spent_today := dec_of_minor (spent_since (ct_user_id txn) (t - 86400) (txns d))\<rparr>"

definition velocity_key :: "canonical_txn \<Rightarrow> string" where
  "velocity_key txn = ''agentpay:velocity:'' @ ct_user_id txn @ '':'' @ ct_agent_id txn"

definition load_context :: "env \<Rightarrow> canonical_txn \<Rightarrow> policy_context act" where
  "load_context E txn =
     bindE (session_scope E (asks (\<lambda>w. db_context txn (now w) (db w)))) (\<lambda>c.
       bindE (zcount_window E (velocity_key txn) 3600) (\<lambda>n. ret (c\<lparr>pc_transactions_last_hour := n\<rparr>)))"

definition record_velocity :: "env \<Rightarrow> canonical_txn \<Rightarrow> int act" where
  "record_velocity E txn = zadd_window E (velocity_key txn) 3600"

lemma keeps_load_context [evo]:
  "ignores_store f \<Longrightarrow> ignores_db f \<Longrightarrow> evolves (keeps f) (load_context E txn)"
  unfolding load_context_def zcount_window_def
  by (intro frame.ev_rules keeps_session keeps_store_call)

lemma keeps_record_velocity [evo]: "ignores_store f \<Longrightarrow> evolves (keeps f) (record_velocity E txn)"
  unfolding record_velocity_def zadd_window_def
  by (intro frame.ev_rules keeps_store_call keeps_uuid ignores_store_clock)

section \<open>The risk signals\<close>

definition clamp :: "real \<Rightarrow> real" where "clamp x = py_round (min 1 (max 0 x)) 3"

text \<open>\<open>if cond: score = max(score, v)\<close>.\<close>

definition raise_to :: "bool \<Rightarrow> real \<Rightarrow> real \<Rightarrow> real" where
  "raise_to cond v score = (if cond then max score v else score)"

definition policy_violation_score :: "canonical_txn \<Rightarrow> policy_context \<Rightarrow> real" where
  "policy_violation_score txn c = (if \<not> pc_policy_found c then 1 else
     let s1 = raise_to (pc_policy_revoked c) 1 0;
         s2 = raise_to (ct_merchant_id txn \<in> set (pc_blocked_merchants c)) 1 s1;
         s3 = raise_to (pc_allowed_merchants c \<noteq> [] \<and> ct_merchant_id txn \<notin> set (pc_allowed_merchants c)) (8/10) s2;
         s4 = raise_to (pc_require_verified_merchant c \<and> \<not> pc_merchant_verified c) (75/100) s3;
         s5 = raise_to (ct_currency txn \<noteq> pc_policy_currency c) (6/10) s4;
         s6 = raise_to (pc_agent_registered c \<and> \<not> pc_agent_active c) 1 s5;
         s7 = raise_to (pc_agent_allowed_categories c \<noteq> [] \<and>
                pc_merchant_category c \<notin> set (pc_agent_allowed_categories c)) (55/100) s6;
         s8 = raise_to (''payments:authorize'' \<notin> set (ct_agent_scopes txn)) 1 s7
     in clamp s8)"

text \<open>\<open>x ** 1.5\<close>; the code equation evaluates it where its value is rational.\<close>

definition power_1_5 :: "real \<Rightarrow> real" where "power_1_5 x = x powr (3/2)"

lemma power_1_5_code [code]: "power_1_5 x = (if x = 1 then 1 else if x = 0 then 0 else x powr (3/2))"
  by (simp add: power_1_5_def)

definition budget_anomaly_score :: "canonical_txn \<Rightarrow> policy_context \<Rightarrow> real" where
  "budget_anomaly_score txn c =
     (if \<not> pc_policy_found c \<or> dec_val (pc_per_transaction_limit c) \<le> 0 then 1 else
      let amount = dec_val (ct_amount txn);
          per_txn = amount / dec_val (pc_per_transaction_limit c);
          projected = dec_val (pc_spent_today c) + amount;
          daily = (if dec_val (pc_daily_limit c) > 0 then projected / dec_val (pc_daily_limit c) else 1)
      in if per_txn > 1 \<or> daily > 1 then 1 else clamp (power_1_5 (max per_txn daily)))"

definition merchant_risk_score :: "policy_context \<Rightarrow> real" where
  "merchant_risk_score c = (if \<not> pc_merchant_known c then 9/10
     else clamp (if pc_merchant_verified c then pc_merchant_registry_risk c
                 else max (pc_merchant_registry_risk c) (6/10)))"

definition velocity_risk_score :: "policy_context \<Rightarrow> real" where
  "velocity_risk_score c = (if pc_max_transactions_per_hour c \<le> 0 then 1
     else clamp (of_int (pc_transactions_last_hour c) / of_int (pc_max_transactions_per_hour c)))"

definition signals_for :: "canonical_txn \<Rightarrow> policy_context \<Rightarrow> analysis_result \<Rightarrow> risk_signals" where
  "signals_for txn c a = \<lparr>injection_confidence = clamp (an_injection_confidence a),
     injection_labels = an_injection_labels a, policy_violation = policy_violation_score txn c,
     budget_anomaly = budget_anomaly_score txn c, merchant_risk = merchant_risk_score c,
     velocity_risk = velocity_risk_score c, source_trust = clamp (an_source_trust_score a),
     classifier_degraded = an_classifier_degraded a\<rparr>"

definition weighted_sum :: "risk_signals \<Rightarrow> real" where
  "weighted_sum s = 35 * injection_confidence s + 25 * policy_violation s + 20 * budget_anomaly s +
     10 * merchant_risk s + 10 * velocity_risk s"

definition assess :: "canonical_txn \<Rightarrow> policy_context \<Rightarrow> analysis_result \<Rightarrow> risk_assessment" where
  "assess txn c a = (let s = signals_for txn c a in
     \<lparr>signals = s, weighted_score = py_round (weighted_sum s) 2, policy_version_context = pc_policy_version c\<rparr>)"

definition signals_json :: "risk_signals \<Rightarrow> json" where
  "signals_json s = JObj [(''injection_confidence'', JFloat (injection_confidence s)),
     (''injection_labels'', JList (map JStr (injection_labels s))),
     (''policy_violation_score'', JFloat (policy_violation s)),
     (''budget_anomaly_score'', JFloat (budget_anomaly s)),
     (''merchant_risk_score'', JFloat (merchant_risk s)),
     (''velocity_risk_score'', JFloat (velocity_risk s)),
     (''source_trust_score'', JFloat (source_trust s)),
     (''classifier_degraded'', JBool (classifier_degraded s))]"

definition risk_json :: "risk_assessment \<Rightarrow> json" where
  "risk_json r = JObj [(''signals'', signals_json (signals r)), (''weighted_score'', JFloat (weighted_score r)),
     (''policy_version_context'', JStr (policy_version_context r))]"

lemma le_raise_to: "x \<le> raise_to b v s \<longleftrightarrow> b \<and> x \<le> v \<or> x \<le> s"
  by (auto simp: raise_to_def)

lemma clamp_unit: "unit (clamp x)"
  unfolding clamp_def unit_def by (rule py_round_unit) auto

lemma clamp_mono: "x \<le> y \<Longrightarrow> clamp x \<le> clamp y"
  by (simp add: clamp_def py_round_mono)

lemma clamp_one [simp]: "1 \<le> x \<Longrightarrow> clamp x = 1" "x \<le> 0 \<Longrightarrow> clamp x = 0"
  by (simp_all add: clamp_def)

lemma signal_units:
  "unit (policy_violation_score txn c)" "unit (budget_anomaly_score txn c)"
  "unit (merchant_risk_score c)" "unit (velocity_risk_score c)"
proof -
  have "unit 1" "unit (9/10)" by (simp_all add: unit_def)
  then show "unit (policy_violation_score txn c)" "unit (budget_anomaly_score txn c)"
    "unit (merchant_risk_score c)" "unit (velocity_risk_score c)"
    by (simp_all add: policy_violation_score_def budget_anomaly_score_def merchant_risk_score_def
        velocity_risk_score_def clamp_unit Let_def)
qed

lemma weighted_sum_bound:
  assumes "unit (injection_confidence s)" "unit (policy_violation s)" "unit (budget_anomaly s)"
    "unit (merchant_risk s)" "unit (velocity_risk s)"
  shows "0 \<le> weighted_sum s \<and> weighted_sum s \<le> 100"
  using assms by (simp add: weighted_sum_def unit_def)

lemma assess_bounds: "0 \<le> weighted_score (assess txn c a) \<and> weighted_score (assess txn c a) \<le> 100"
proof -
  have "0 \<le> weighted_sum (signals_for txn c a) \<and> weighted_sum (signals_for txn c a) \<le> 100"
    by (rule weighted_sum_bound) (simp_all add: signals_for_def clamp_unit signal_units)
  then show ?thesis using py_round_mono [of 0 "weighted_sum (signals_for txn c a)" 2]
      py_round_mono [of "weighted_sum (signals_for txn c a)" 100 2] py_round_int [of 100 2]
    by (simp add: assess_def Let_def)
qed

text \<open>A hard breach of the policy is a full policy-violation signal.\<close>

lemma policy_violation_full:
  assumes "\<not> pc_policy_found c \<or> pc_policy_revoked c \<or> ct_merchant_id txn \<in> set (pc_blocked_merchants c) \<or>
    (pc_agent_registered c \<and> \<not> pc_agent_active c) \<or> ''payments:authorize'' \<notin> set (ct_agent_scopes txn)"
  shows "policy_violation_score txn c = 1"
proof (cases "pc_policy_found c")
  case True
  then show ?thesis using assms unfolding policy_violation_score_def Let_def
    by (simp only: if_True not_True_eq_False if_False simp_thms) (rule clamp_one(1), simp only: le_raise_to order_refl simp_thms, blast)
qed (simp add: policy_violation_score_def)

text \<open>Below both caps the anomaly never decreases as the amount grows; beyond either it is 1.\<close>

lemma budget_anomaly_mono:
  assumes "0 \<le> dec_val (ct_amount txn)" "dec_val (ct_amount txn) \<le> dec_val (ct_amount txn')" "0 \<le> dec_val (pc_spent_today c)"
  shows "budget_anomaly_score txn c \<le> budget_anomaly_score txn' c"
proof -
  let ?L = "dec_val (pc_per_transaction_limit c)" and ?D = "dec_val (pc_daily_limit c)" and ?S = "dec_val (pc_spent_today c)"
  let ?p = "\<lambda>x. dec_val (ct_amount x) / ?L" and ?d = "\<lambda>x. if ?D > 0 then (?S + dec_val (ct_amount x)) / ?D else 1"
  show ?thesis
  proof (cases "\<not> pc_policy_found c \<or> ?L \<le> 0 \<or> ?p txn' > 1 \<or> ?d txn' > 1")
    case True
    then have "budget_anomaly_score txn' c = 1" by (auto simp: budget_anomaly_score_def Let_def)
    then show ?thesis using signal_units(2) [of txn c] by (simp add: unit_def)
  next
    case False
    have m: "?p txn \<le> ?p txn'" "?d txn \<le> ?d txn'" "0 \<le> ?p txn"
      using False assms by (auto intro!: divide_right_mono)
    from False have "?p txn' \<le> 1" "?d txn' \<le> 1" by (simp_all only: de_Morgan_disj not_less)
    with m(1,2) have n: "\<not> ?p txn > 1" "\<not> ?d txn > 1" by (simp_all only: not_less)
    have p: "power_1_5 (max (?p txn) (?d txn)) \<le> power_1_5 (max (?p txn') (?d txn'))"
      using m unfolding power_1_5_def by (intro powr_mono2 max.mono) (auto simp: le_max_iff_disj)
    have "budget_anomaly_score txn c = clamp (power_1_5 (max (?p txn) (?d txn)))"
      "budget_anomaly_score txn' c = clamp (power_1_5 (max (?p txn') (?d txn')))"
      using False n unfolding budget_anomaly_score_def Let_def by (simp_all only: de_Morgan_disj if_False not_not simp_thms)
    with clamp_mono [OF p] show ?thesis by (simp only:)
  qed
qed

end
