(* ===== verification/Pdp.thy ===== *)
theory Pdp
  imports Context
begin

text \<open>
  \<open>gateway/pdp.py\<close>: the evidence is marshalled into the policy's input, with every amount in
  integer minor units, OPA is asked, and anything that is not a decision is a block.
\<close>

definition context_input_of :: "policy_context \<Rightarrow> bool \<Rightarrow> bool \<Rightarrow> context_input" where
  "context_input_of c allow_degraded requires_review = \<lparr>
     ci_policy_found = pc_policy_found c, ci_policy_version = pc_policy_version c,
     ci_per_transaction_limit = to_minor_units (pc_per_transaction_limit c),
     ci_daily_limit = to_minor_units (pc_daily_limit c), ci_policy_currency = pc_policy_currency c,
     ci_allowed_merchants = pc_allowed_merchants c, ci_blocked_merchants = pc_blocked_merchants c,
     ci_require_verified_merchant = pc_require_verified_merchant c,
     ci_approval_threshold = to_minor_units (pc_approval_threshold c),
     ci_max_transactions_per_hour = pc_max_transactions_per_hour c, ci_policy_revoked = pc_policy_revoked c,
     ci_merchant_known = pc_merchant_known c, ci_merchant_verified = pc_merchant_verified c,
     ci_merchant_category = pc_merchant_category c, ci_agent_registered = pc_agent_registered c,
     ci_agent_active = pc_agent_active c, ci_agent_allowed_categories = pc_agent_allowed_categories c,
     ci_spent_today = to_minor_units (pc_spent_today c),
     ci_transactions_last_hour = pc_transactions_last_hour c,
     ci_allow_degraded_classifier = allow_degraded, ci_degraded_requires_review = requires_review\<rparr>"

definition build_input :: "canonical_txn \<Rightarrow> policy_context \<Rightarrow> analysis_result \<Rightarrow> risk_assessment \<Rightarrow>
    identity_finding \<Rightarrow> duplicate_finding \<Rightarrow> approval_finding \<Rightarrow> bool \<Rightarrow> bool \<Rightarrow> pdp_input" where
  "build_input txn c a r i d ap allow_degraded requires_review = \<lparr>
     in_identity = i,
     in_txn = \<lparr>ti_user_id = ct_user_id txn, ti_agent_id = ct_agent_id txn, ti_delegation_id = ct_delegation_id txn,
       ti_merchant_id = ct_merchant_id txn, ti_merchant_verified_claim = ct_merchant_verified_claim txn,
       ti_amount = to_minor_units (ct_amount txn), ti_currency = ct_currency txn, ti_cart_hash = ct_cart_hash txn,
       ti_item_count = ct_item_count txn, ti_agent_scopes = ct_agent_scopes txn\<rparr>,
     in_security = \<lparr>si_injection_confidence = an_injection_confidence a, si_injection_labels = an_injection_labels a,
       si_classifier_degraded = an_classifier_degraded a,
       si_deterministic_confidence = an_deterministic_confidence a,
       si_source_trust_score = an_source_trust_score a\<rparr>,
     in_weighted_score = weighted_score r, in_signals = signals r,
     in_context = context_input_of c allow_degraded requires_review,
     in_approval = ap, in_duplicate = d\<rparr>"

record pdp_result =
  pr_decision :: decision
  pr_reason_codes :: "string list"
  pr_policy_version :: string
  pr_weighted_score :: real
  pr_deny_reasons :: "string list"
  pr_approval_reasons :: "string list"
  pr_available :: bool

definition unavailable :: "string \<Rightarrow> string \<Rightarrow> pdp_result" where
  "unavailable policy_version detail = \<lparr>pr_decision = BLOCK,
     pr_reason_codes = [''PDP_UNAVAILABLE_FAIL_CLOSED'', take 120 (''PDP_DETAIL:'' @ detail)],
     pr_policy_version = policy_version, pr_weighted_score = 0,
     pr_deny_reasons = [''PDP_UNAVAILABLE_FAIL_CLOSED''], pr_approval_reasons = [], pr_available = False\<rparr>"

definition read_reply :: "string \<Rightarrow> opa_reply \<Rightarrow> pdp_result" where
  "read_reply declared reply = (case reply of
       OpaError name \<Rightarrow> unavailable declared name
     | OpaNotJson \<Rightarrow> unavailable declared ''invalid_json''
     | OpaUndefined \<Rightarrow> unavailable declared ''undefined_result''
     | OpaResult r \<Rightarrow> (case decision_of (or_decision r) of
           None \<Rightarrow> unavailable declared ''unknown_decision_value''
         | Some d \<Rightarrow> \<lparr>pr_decision = d, pr_reason_codes = or_reason_codes r,
             pr_policy_version = (if or_policy_version r \<noteq> '''' then or_policy_version r else declared),
             pr_weighted_score = or_weighted_score r, pr_deny_reasons = or_deny_reasons r,
             pr_approval_reasons = or_approval_reasons r, pr_available = True\<rparr>))"

definition evaluate :: "env \<Rightarrow> pdp_input \<Rightarrow> pdp_result act" where
  "evaluate E i = (\<lambda>w. (Inr (read_reply (ci_policy_version (in_context i)) (e_opa E (ops w) i)), tick E w))"

text \<open>The policy server answers what the shipped bundle evaluates to, or fails.\<close>

definition opa_faithful :: "env \<Rightarrow> bool" where
  "opa_faithful E \<longleftrightarrow> (\<forall>n i. e_opa E n i = rego_result i \<or> (\<exists>name. e_opa E n i = OpaError name))"

lemma keeps_evaluate [evo]: "ignores_clock f \<Longrightarrow> evolves (keeps f) (evaluate E i)"
  by (simp add: evaluate_def evolves_def keeps_def tick_keeps)

lemma read_reply_block: "pr_decision (read_reply v reply) \<noteq> BLOCK \<Longrightarrow>
   \<exists>r d. reply = OpaResult r \<and> decision_of (or_decision r) = Some d \<and> pr_decision (read_reply v reply) = d \<and> pr_available (read_reply v reply)"
  by (auto simp: read_reply_def unavailable_def split: opa_reply.splits option.splits)

lemma evaluate_faithful:
  assumes "opa_faithful E" "evaluate E i w = (Inr v, w')"
  shows "(pr_available v \<and> pr_decision v = rego_decision i) \<or> (\<not> pr_available v \<and> pr_decision v = BLOCK)"
proof -
  from assms(2) have v: "v = read_reply (ci_policy_version (in_context i)) (e_opa E (ops w) i)"
    by (simp add: evaluate_def)
  from assms(1) consider "e_opa E (ops w) i = rego_result i" | name where "e_opa E (ops w) i = OpaError name"
    unfolding opa_faithful_def by blast
  then show ?thesis
  proof cases
    case 1
    obtain rc where "rego_result i = OpaResult \<lparr>or_decision = decision_str (rego_decision i), or_reason_codes = rc,
      or_deny_reasons = sorted_codes (deny_reasons i), or_approval_reasons = sorted_codes (approval_reasons i),
      or_policy_version = ci_policy_version (in_context i), or_weighted_score = in_weighted_score i\<rparr>"
      using rego_result_decision by blast
    with 1 v show ?thesis by (simp add: read_reply_def)
  next
    case 2
    with v show ?thesis by (simp add: read_reply_def unavailable_def)
  qed
qed

section \<open>What an ALLOW of the shipped policy means for the money\<close>

lemma rego_allow_no_deny: "rego_decision i = ALLOW \<Longrightarrow> deny_reasons i = []"
  by (auto simp: rego_decision_def split: if_splits)

lemma rego_allow_review: "rego_decision i = ALLOW \<Longrightarrow> approval_reasons i = [] \<or> approval_satisfied i"
  by (auto simp: rego_decision_def split: if_splits)

lemma whole_minor_cmp:
  "whole_minor a \<Longrightarrow> whole_minor b \<Longrightarrow> to_minor_units a \<le> to_minor_units b \<longleftrightarrow> dec_val a \<le> dec_val b"
  by (rule to_minor_units_le_iff)

lemma allow_amounts:
  assumes "rego_decision (build_input txn c a r i d ap x y) = ALLOW"
    and "whole_minor (ct_amount txn)" "whole_minor (pc_per_transaction_limit c)"
    and "whole_minor (pc_daily_limit c)" "whole_minor (pc_spent_today c)"
  shows "pc_policy_found c \<and> \<not> pc_policy_revoked c \<and> ct_currency txn = pc_policy_currency c \<and>
    dec_val (ct_amount txn) \<le> dec_val (pc_per_transaction_limit c) \<and>
    dec_val (pc_spent_today c) + dec_val (ct_amount txn) \<le> dec_val (pc_daily_limit c)"
proof -
  let ?i = "build_input txn c a r i d ap x y"
  note f = no_deny_facts [OF rego_allow_no_deny [OF assms(1)]]
  have "to_minor_units (pc_spent_today c) + to_minor_units (ct_amount txn) \<le> to_minor_units (pc_daily_limit c)"
    using f(4) by (simp add: build_input_def context_input_of_def)
  then have "real_of_int (to_minor_units (pc_spent_today c)) + of_int (to_minor_units (ct_amount txn)) \<le> of_int (to_minor_units (pc_daily_limit c))"
    by (metis of_int_add of_int_le_iff)
  then have "dec_val (pc_spent_today c) + dec_val (ct_amount txn) \<le> dec_val (pc_daily_limit c)"
    by (simp add: to_minor_units_exact assms)
  moreover have "to_minor_units (ct_amount txn) \<le> to_minor_units (pc_per_transaction_limit c)"
    using f(3) by (simp add: build_input_def context_input_of_def)
  ultimately show ?thesis using f(1,2,5) assms(2,3)
    by (simp add: build_input_def context_input_of_def whole_minor_cmp)
qed

end
