(* ===== verification/Approvals.thy ===== *)
theory Approvals
  imports Pdp
begin

text \<open>
  \<open>gateway/approvals.py\<close>: a parked transaction becomes a request that says what a human is
  asked to authorize; granting it signs a token bound to exactly those fields; a presented
  token becomes a finding for the policy, never a decision.
\<close>

definition APPROVAL_TTL_SECONDS :: int where "APPROVAL_TTL_SECONDS = 900"

definition approval_key :: "string \<Rightarrow> string" where "approval_key i = ''agentpay:approval:'' @ i"

definition request_of :: "canonical_txn \<Rightarrow> string list \<Rightarrow> approval_request" where
  "request_of txn reasons = \<lparr>ar_id = ''ar_'' @ drop 3 (ct_pa_id txn), ar_user_id = ct_user_id txn,
     ar_merchant_id = ct_merchant_id txn, ar_amount = dec_str (ct_amount txn), ar_currency = ct_currency txn,
     ar_cart_hash = ct_cart_hash txn, ar_reason_codes = reasons, ar_pa_id = ct_pa_id txn, ar_granted = False\<rparr>"

definition request_summary :: "approval_request \<Rightarrow> json" where
  "request_summary r = JObj [(''approval_request_id'', JStr (ar_id r)),
     (''what_you_are_approving'', JStr (ar_amount r @ '' '' @ ar_currency r @ '' to merchant '' @ ar_merchant_id r)),
     (''cart_hash'', JStr (ar_cart_hash r)), (''why'', JList (map JStr (ar_reason_codes r))),
     (''expires_in_seconds'', JInt APPROVAL_TTL_SECONDS)]"

definition create_request :: "env \<Rightarrow> canonical_txn \<Rightarrow> string list \<Rightarrow> approval_request act" where
  "create_request E txn reasons = (let r = request_of txn reasons in
     thenE (store_set E (approval_key (ar_id r)) (SApproval r) APPROVAL_TTL_SECONDS) (ret r))"

text \<open>\<open>ApprovalRequest(**json.loads(raw))\<close>: text that is not a request raises.\<close>

definition load_request :: "env \<Rightarrow> string \<Rightarrow> approval_request option act" where
  "load_request E i = bindE (store_get E (approval_key i)) (\<lambda>raw. case raw of
       None \<Rightarrow> ret None
     | Some (SApproval r) \<Rightarrow> ret (Some r)
     | Some (SStr s) \<Rightarrow> if s = '''' then ret None else raise (BadValue ''approval record'')
     | Some (SIdem _ _) \<Rightarrow> raise (BadValue ''approval record''))"

definition grant :: "env \<Rightarrow> string \<Rightarrow> string option act" where
  "grant E i = bindE (load_request E i) (\<lambda>request. case request of
       None \<Rightarrow> ret None
     | Some r \<Rightarrow> thenE (store_set E (approval_key i) (SApproval (r\<lparr>ar_granted := True\<rparr>)) APPROVAL_TTL_SECONDS)
         (case parse_decimal (ar_amount r) of
            None \<Rightarrow> raise (BadValue ''amount'')
          | Some amount \<Rightarrow> bindE (issue_approval_token E i (ar_user_id r) (ar_merchant_id r) amount (ar_currency r)
               (ar_cart_hash r) APPROVAL_TTL_SECONDS) (\<lambda>t. ret (Some t))))"

definition no_approval :: approval_finding where
  "no_approval = \<lparr>af_present = False, af_valid = False, af_expired = False, af_bound_amount = None,
     af_bound_merchant_id = None, af_bound_currency = None, af_bound_cart_hash = None\<rparr>"

text \<open>\<open>to_minor_units(claims.get("bound_amount", "0"))\<close>; \<open>None\<close> is \<open>InvalidOperation\<close>.\<close>

definition bound_amount_of :: "env \<Rightarrow> claims \<Rightarrow> int option" where
  "bound_amount_of E c = map_option to_minor_units
     (parse_decimal (case claim c ''bound_amount'' of None \<Rightarrow> ''0'' | Some v \<Rightarrow> py_str (e_frepr E) v))"

definition evaluate_token :: "env \<Rightarrow> string option \<Rightarrow> approval_finding act" where
  "evaluate_token E token = (case token of
       None \<Rightarrow> ret no_approval
     | Some t \<Rightarrow> if t = '''' then ret no_approval
         else bindE (asks now) (\<lambda>time. case verify_approval_token E time t of
             Inl JwtExpired \<Rightarrow> ret (no_approval\<lparr>af_present := True, af_expired := True\<rparr>)
           | Inl (JwtInvalid _) \<Rightarrow> ret (no_approval\<lparr>af_present := True\<rparr>)
           | Inr c \<Rightarrow> (case bound_amount_of E c of
                 None \<Rightarrow> raise (BadValue ''bound_amount'')
               | Some a \<Rightarrow> ret \<lparr>af_present = True, af_valid = True, af_expired = False, af_bound_amount = Some a,
                   af_bound_merchant_id = claim_str c ''bound_merchant_id'',
                   af_bound_currency = claim_str c ''bound_currency'',
                   af_bound_cart_hash = claim_str c ''bound_cart_hash''\<rparr>)))"

lemma keeps_create_request [evo]: "ignores_store f \<Longrightarrow> evolves (keeps f) (create_request E txn rs)"
  unfolding create_request_def Let_def by (intro frame.ev_rules keeps_store_set)

lemma keeps_load_request [evo]: "ignores_store f \<Longrightarrow> evolves (keeps f) (load_request E i)"
  unfolding load_request_def
  by (intro frame.ev_rules keeps_store_get) (auto intro!: frame.ev_rules split: option.splits sval.splits)

lemma keeps_grant [evo]: "ignores_store f \<Longrightarrow> evolves (keeps f) (grant E i)"
  unfolding grant_def
  by (intro frame.ev_rules keeps_load_request keeps_store_set keeps_issue_approval ignores_store_clock)

lemma keeps_evaluate_token [evo]: "evolves (keeps f) (evaluate_token E t)"
  unfolding evaluate_token_def
  by (auto intro!: frame.ev_rules split: option.splits sum.splits jwt_error.splits)

section \<open>A token is bound to what was displayed\<close>

definition finding_for :: "approval_request \<Rightarrow> decimal \<Rightarrow> approval_finding" where
  "finding_for r amount = \<lparr>af_present = True, af_valid = True, af_expired = False,
     af_bound_amount = Some (to_minor_units amount), af_bound_merchant_id = Some (ar_merchant_id r),
     af_bound_currency = Some (ar_currency r), af_bound_cart_hash = Some (ar_cart_hash r)\<rparr>"

lemma grant_ok:
  assumes "grant E i w = (Inr (Some t), w')"
  shows "\<exists>r amount jti now_s. st_look (now (tick E w)) (store w) (approval_key i) = Some (SApproval r) \<and>
    parse_decimal (ar_amount r) = Some amount \<and> now_s = \<lfloor>now w'\<rfloor> \<and>
    t = e_jwt_encode E (e_payment_private E) (approval_claims E now_s APPROVAL_TTL_SECONDS jti i (ar_user_id r)
        (ar_merchant_id r) amount (ar_currency r) (ar_cart_hash r))"
proof -
  from assms obtain q w1 where l: "load_request E i w = (Inr q, w1)"
    and k: "(case q of None \<Rightarrow> ret None
     | Some r \<Rightarrow> thenE (store_set E (approval_key i) (SApproval (r\<lparr>ar_granted := True\<rparr>)) APPROVAL_TTL_SECONDS)
         (case parse_decimal (ar_amount r) of
            None \<Rightarrow> raise (BadValue ''amount'')
          | Some amount \<Rightarrow> bindE (issue_approval_token E i (ar_user_id r) (ar_merchant_id r) amount (ar_currency r)
               (ar_cart_hash r) APPROVAL_TTL_SECONDS) (\<lambda>t. ret (Some t)))) w1 = (Inr (Some t), w')"
    unfolding grant_def by (rule bindE_InrE)
  from k obtain r where q: "q = Some r" by (cases q) auto
  from l q have s: "st_look (now (tick E w)) (store w) (approval_key i) = Some (SApproval r)"
    using mem.get_val [of "now (tick E w)" "approval_key i" "store w"]
    by (auto simp: load_request_def store_get_def store_call_def bindE_def Let_def
        split: prod.splits option.splits sval.splits if_splits sum.splits)
  from k q obtain amount where a: "parse_decimal (ar_amount r) = Some amount"
    by (auto simp: thenE_def bindE_def split: prod.splits sum.splits option.splits)
  from k q a obtain w2 where "bindE (issue_approval_token E i (ar_user_id r) (ar_merchant_id r) amount (ar_currency r)
               (ar_cart_hash r) APPROVAL_TTL_SECONDS) (\<lambda>t. ret (Some t)) w2 = (Inr (Some t), w')"
    by (auto elim: thenE_InrE)
  then have "\<exists>jti. t = e_jwt_encode E (e_payment_private E) (approval_claims E \<lfloor>now w'\<rfloor> APPROVAL_TTL_SECONDS jti i (ar_user_id r)
        (ar_merchant_id r) amount (ar_currency r) (ar_cart_hash r))"
    by (auto simp: bindE_def issue_approval_token_def uuid4_hex_def)
  with s a show ?thesis by blast
qed

lemma evaluate_granted:
  assumes "verify_approval_token E (now w) t = Inr (approval_claims E now_s ttl jti i u m amount cu ca)" "t \<noteq> ''''"
  shows "evaluate_token E (Some t) w = (Inr \<lparr>af_present = True, af_valid = True, af_expired = False,
     af_bound_amount = Some (to_minor_units amount), af_bound_merchant_id = Some m,
     af_bound_currency = Some cu, af_bound_cart_hash = Some ca\<rparr>, w)"
proof -
  have "parse_decimal (dec_str amount) = Some amount" by (rule parse_decimal_dec_str)
  then show ?thesis using assms
    by (simp add: evaluate_token_def bindE_def bound_amount_of_def claim_def claim_str_def approval_claims_def)
qed

text \<open>With an approval present, the policy denies unless every bound field is the transaction's.\<close>

lemma mismatch_denied:
  assumes "af_present ap" "af_bound_amount ap \<noteq> Some (to_minor_units (ct_amount txn)) \<or>
    af_bound_merchant_id ap \<noteq> Some (ct_merchant_id txn) \<or> af_bound_currency ap \<noteq> Some (ct_currency txn) \<or>
    af_bound_cart_hash ap \<noteq> Some (ct_cart_hash txn)"
  shows "''APPROVAL_BINDING_MISMATCH'' \<in> set (deny_reasons (build_input txn c a r i d ap x y))"
  using assms by (auto simp: deny_reasons_def approvals_deny_def build_input_def Let_def)

lemma deny_blocks: "x \<in> set (deny_reasons i) \<Longrightarrow> rego_decision i = BLOCK"
  by (auto simp: rego_decision_def)

end
