(* ===== verification/Provider.thy ===== *)
theory Provider
  imports Tokens
begin

text \<open>
  \<open>mock_provider/main.py\<close>: the stand-in for a payment service provider. It verifies the
  authorization token itself, compares it with the charge body, accepts a token once, and
  counts every call. The HTTP client in front of it (\<open>httpx\<close> with a timeout) is the operation
  \<open>http_call\<close>: the network may lose the request or the reply, or deliver late.
\<close>

record charge_body =
  cb_pa_id :: string
  cb_idempotency_key :: string
  cb_amount :: string
  cb_currency :: string
  cb_merchant_id :: string
  cb_cart_hash :: string

record http_reply =
  rep_status :: nat
  rep_body :: json
  rep_delay :: real

definition reply :: "nat \<Rightarrow> json \<Rightarrow> http_reply" where
  "reply s b = \<lparr>rep_status = s, rep_body = b, rep_delay = 0\<rparr>"

definition http_error :: "nat \<Rightarrow> string \<Rightarrow> http_reply" where
  "http_error s d = reply s (JObj [(''detail'', JStr d)])"

definition set_behaviour :: "behaviour \<Rightarrow> real option \<Rightarrow> provider_state \<Rightarrow> provider_state" where
  "set_behaviour b delay p = (let p' = p\<lparr>pv_behaviour := b\<rparr> in
     case delay of None \<Rightarrow> p' | Some d \<Rightarrow> p'\<lparr>pv_timeout_delay := d\<rparr>)"

definition provider_reset :: "provider_state \<Rightarrow> provider_state" where
  "provider_reset p = p\<lparr>pv_charges := Map.empty, pv_consumed_jti := [], pv_call_count := 0, pv_calls := []\<rparr>"

text \<open>\<open>stats\<close>: the count, the number of charges, the last 25 calls.\<close>

definition last_calls :: "provider_state \<Rightarrow> (string \<times> string \<times> string) list" where
  "last_calls p = drop (length (pv_calls p) - 25) (pv_calls p)"

text \<open>\<open>Decimal(v)\<close> of a claim.\<close>

definition claim_decimal :: "claims \<Rightarrow> string \<Rightarrow> decimal option" where
  "claim_decimal c k = (case claim c k of Some (JStr s) \<Rightarrow> parse_decimal s
     | Some (JInt i) \<Rightarrow> Some \<lparr>coeff = i, dexp = 0\<rparr> | _ \<Rightarrow> None)"

definition compared_claims :: "charge_body \<Rightarrow> (string \<times> string) list" where
  "compared_claims b = [(''merchant_id'', cb_merchant_id b), (''currency'', cb_currency b),
     (''cart_hash'', cb_cart_hash b), (''payment_authorization_id'', cb_pa_id b)]"

text \<open>The mismatching fields; \<open>None\<close> is a missing claim or an amount that is not a number,
  which the framework turns into a 500.\<close>

definition charge_mismatches :: "claims \<Rightarrow> charge_body \<Rightarrow> string list option" where
  "charge_mismatches c b =
     (if list_ex (\<lambda>(k, v). claim c k = None) (compared_claims b) then None
      else case (claim_decimal c ''amount'', parse_decimal (cb_amount b)) of
         (Some x, Some y) \<Rightarrow> Some (map fst (filter (\<lambda>(k, v). claim c k \<noteq> Some (JStr v)) (compared_claims b)) @
             (if dec_val x \<noteq> dec_val y then [''amount''] else []))
       | _ \<Rightarrow> None)"

definition count_call :: "charge_body \<Rightarrow> provider_state \<Rightarrow> provider_state" where
  "count_call b p = p\<lparr>pv_call_count := Suc (pv_call_count p),
     pv_calls := pv_calls p @ [(cb_pa_id b, cb_amount b, cb_merchant_id b)]\<rparr>"

definition confirmed_json :: "string \<Rightarrow> json" where
  "confirmed_json ref = JObj [(''status'', JStr ''confirmed''), (''provider_reference'', JStr ref)]"

text \<open>What is done with a charge whose token has been verified and matches.\<close>

definition settle :: "charge_body \<Rightarrow> string \<Rightarrow> string \<Rightarrow> provider_state \<Rightarrow> http_reply \<times> provider_state" where
  "settle b jti ref p = (case pv_behaviour p of
       TIMEOUT_BEHAVIOUR \<Rightarrow> ((reply 200 (confirmed_json ref))\<lparr>rep_delay := pv_timeout_delay p\<rparr>, p)
     | ERROR \<Rightarrow> (http_error 502 ''provider upstream error'', p)
     | DECLINE \<Rightarrow> (reply 200 (JObj [(''status'', JStr ''declined''), (''detail'', JStr ''card declined'')]),
         p\<lparr>pv_consumed_jti := jti # pv_consumed_jti p,
           pv_charges := (pv_charges p)(cb_pa_id b \<mapsto> \<lparr>ch_status = ''declined'', ch_detail = Some ''card declined'',
             ch_reference = None, ch_amount = None, ch_currency = None, ch_merchant_id = None\<rparr>)\<rparr>)
     | SUCCESS \<Rightarrow> (reply 200 (confirmed_json ref),
         p\<lparr>pv_consumed_jti := jti # pv_consumed_jti p,
           pv_charges := (pv_charges p)(cb_pa_id b \<mapsto> \<lparr>ch_status = ''confirmed'', ch_detail = None,
             ch_reference = Some ref, ch_amount = Some (cb_amount b), ch_currency = Some (cb_currency b),
             ch_merchant_id = Some (cb_merchant_id b)\<rparr>)\<rparr>))"

definition create_charge :: "env \<Rightarrow> real \<Rightarrow> string \<Rightarrow> charge_body \<Rightarrow> string option \<Rightarrow> provider_state \<Rightarrow>
    http_reply \<times> provider_state" where
  "create_charge E t fresh b authorization p0 = (let p = count_call b p0 in
     case bearer authorization of
       None \<Rightarrow> (http_error 401 ''missing authorization token'', p)
     | Some token \<Rightarrow> (case verify_authorization_token E t token of
           Inl JwtExpired \<Rightarrow> (http_error 401 ''authorization token expired'', p)
         | Inl (JwtInvalid m) \<Rightarrow> (http_error 401 (''invalid authorization token: '' @ m), p)
         | Inr c \<Rightarrow> (case claim_str c ''jti'' of
               None \<Rightarrow> (http_error 500 ''Internal Server Error'', p)
             | Some jti \<Rightarrow> if jti \<in> set (pv_consumed_jti p) then (http_error 409 ''authorization token already used'', p)
                 else (case charge_mismatches c b of
                     None \<Rightarrow> (http_error 500 ''Internal Server Error'', p)
                   | Some ms \<Rightarrow> if ms \<noteq> [] then (http_error 422 (''charge does not match authorization token: '' @ join '','' ms), p)
                       else settle b jti (''ch_'' @ take 16 fresh) p))))"

definition charge_json :: "charge \<Rightarrow> json" where
  "charge_json c = JObj ([(''status'', JStr (ch_status c)), (''provider_reference'', jopt JStr (ch_reference c))] @
     (case ch_detail c of None \<Rightarrow> [] | Some d \<Rightarrow> [(''detail'', JStr d)]))"

definition get_charge :: "string \<Rightarrow> provider_state \<Rightarrow> http_reply" where
  "get_charge pa p = (case pv_charges p pa of None \<Rightarrow> http_error 404 ''no such charge'' | Some c \<Rightarrow> reply 200 (charge_json c))"

section \<open>The client's side of a call\<close>

definition serve_charge :: "env \<Rightarrow> charge_body \<Rightarrow> string option \<Rightarrow> http_reply act" where
  "serve_charge E b auth = bindE (uuid4_hex E) (\<lambda>u w.
     case create_charge E (now w) u b auth (provider w) of (r, p) \<Rightarrow> (Inr r, w\<lparr>provider := p\<rparr>))"

definition serve_get :: "string \<Rightarrow> http_reply act" where
  "serve_get pa = asks (\<lambda>w. get_charge pa (provider w))"

text \<open>\<open>Inl\<close> is \<open>httpx.TimeoutException\<close> or \<open>TransportError\<close>, with the library's text.\<close>

definition http_call :: "env \<Rightarrow> http_reply act \<Rightarrow> (string + http_reply) act" where
  "http_call E handler = (\<lambda>w. let lost = Inl (e_net_error E (ops w)); w0 = tick E w; w1 = w0\<lparr>store := e_others E (ops w) (store w0)\<rparr> in case e_net E (ops w) of
       LostRequest \<Rightarrow> (Inr lost, w1)
     | LostReply \<Rightarrow> thenE handler (ret lost) w1
     | Delivered latency \<Rightarrow> bindE handler (\<lambda>r. let took = max 0 latency + max 0 (rep_delay r) in
         if took > cfg_provider_timeout (e_cfg E) then thenE (sleep (cfg_provider_timeout (e_cfg E))) (ret lost)
         else thenE (sleep took) (ret (Inr r))) w1)"

section \<open>What the provider guarantees\<close>

definition consumes :: "provider_state \<Rightarrow> provider_state \<Rightarrow> bool" where
  "consumes p p' \<longleftrightarrow> set (pv_consumed_jti p) \<subseteq> set (pv_consumed_jti p')"

lemma count_call_simps [simp]: "pv_behaviour (count_call b p) = pv_behaviour p" "pv_charges (count_call b p) = pv_charges p"
  "pv_consumed_jti (count_call b p) = pv_consumed_jti p" "pv_timeout_delay (count_call b p) = pv_timeout_delay p"
  "pv_call_count (count_call b p) = Suc (pv_call_count p)"
  by (simp_all add: count_call_def)

text \<open>A charge is recorded only for a verified, unused token whose claims are the body's.\<close>

lemma charge_recorded:
  assumes "create_charge E t u b auth p = (r, p')" "pv_charges p' \<noteq> pv_charges p"
  shows "\<exists>tok c jti x y. bearer auth = Some tok \<and> verify_authorization_token E t tok = Inr c \<and>
    claim_str c ''jti'' = Some jti \<and> jti \<notin> set (pv_consumed_jti p) \<and> jti \<in> set (pv_consumed_jti p') \<and>
    claim_str c ''merchant_id'' = Some (cb_merchant_id b) \<and> claim_str c ''currency'' = Some (cb_currency b) \<and>
    claim_str c ''cart_hash'' = Some (cb_cart_hash b) \<and>
    claim_str c ''payment_authorization_id'' = Some (cb_pa_id b) \<and>
    claim_decimal c ''amount'' = Some x \<and> parse_decimal (cb_amount b) = Some y \<and> dec_val x = dec_val y"
proof -
  from assms obtain tok c jti where t: "bearer auth = Some tok" "verify_authorization_token E t tok = Inr c"
      "claim_str c ''jti'' = Some jti" "jti \<notin> set (pv_consumed_jti p)" "charge_mismatches c b = Some []"
    and s: "settle b jti (''ch_'' @ take 16 u) (count_call b p) = (r, p')"
    by (auto simp: create_charge_def Let_def split: option.splits sum.splits jwt_error.splits if_splits)
  have "jti \<in> set (pv_consumed_jti p')"
    using s assms(2) by (auto simp: settle_def split: behaviour.splits)
  moreover have "\<exists>x y. claim_decimal c ''amount'' = Some x \<and> parse_decimal (cb_amount b) = Some y \<and> dec_val x = dec_val y"
    and "\<forall>(k, v) \<in> set (compared_claims b). claim c k = Some (JStr v)"
    using t(5) by (auto simp: charge_mismatches_def filter_empty_conv split: if_splits option.splits)
  ultimately show ?thesis using t by (auto simp: compared_claims_def claim_str_def)
qed

lemma consumed_refused:
  assumes "bearer auth = Some tok" "verify_authorization_token E t tok = Inr c" "claim_str c ''jti'' = Some jti"
    "jti \<in> set (pv_consumed_jti p)"
  shows "create_charge E t u b auth p = (http_error 409 ''authorization token already used'', count_call b p)"
  using assms by (simp add: create_charge_def Let_def)

lemma create_charge_consumes: "create_charge E t u b auth p = (r, p') \<Longrightarrow> consumes p p'"
  by (auto simp: create_charge_def Let_def consumes_def settle_def
      split: option.splits sum.splits jwt_error.splits if_splits behaviour.splits)

lemma create_charge_counts: "create_charge E t u b auth p = (r, p') \<Longrightarrow> pv_call_count p' = Suc (pv_call_count p)"
  by (auto simp: create_charge_def Let_def settle_def
      split: option.splits sum.splits jwt_error.splits if_splits behaviour.splits)

text \<open>A reply that says confirmed comes with a recorded charge, except in timeout mode.\<close>

lemma reply_status_simps [simp]: "rep_status (reply s b) = s" "rep_body (reply s b) = b"
  "rep_status (http_error s d) = s" "jget (rep_body (http_error s d)) ''status'' = None"
  by (simp_all add: reply_def http_error_def)

lemma confirmed_recorded:
  assumes "create_charge E t u b auth p = (r, p')" "jget (rep_body r) ''status'' = Some (JStr ''confirmed'')"
    and "pv_behaviour p \<noteq> TIMEOUT_BEHAVIOUR"
  shows "\<exists>ch ref. pv_charges p' (cb_pa_id b) = Some ch \<and> ch_status ch = ''confirmed'' \<and> ch_reference ch = Some ref \<and>
    jget (rep_body r) ''provider_reference'' = Some (JStr ref) \<and> ch_amount ch = Some (cb_amount b)"
  using assms by (auto simp: create_charge_def Let_def settle_def confirmed_json_def
      split: option.splits sum.splits jwt_error.splits if_splits behaviour.splits)

lemma keeps_http_call [evo]:
  assumes "ignores_store f" "evolves (keeps f) h"
  shows "evolves (keeps f) (http_call E h)"
proof (rule evolvesI)
  fix w
  have t: "keeps f w ((tick E w)\<lparr>store := st\<rparr>)" for st
    using assms(1) by (simp add: keeps_def tick_keeps ignores_store_def)
  have s: "evolves (keeps f) (thenE h (ret lost))"
    "evolves (keeps f) (bindE h (\<lambda>r. let took = max 0 l + max 0 (rep_delay r) in
         if took > cfg_provider_timeout (e_cfg E) then thenE (sleep (cfg_provider_timeout (e_cfg E))) (ret lost)
         else thenE (sleep took) (ret (Inr r))))" for l and lost :: "string + http_reply"
    unfolding Let_def by (intro frame.ev_rules keeps_sleep assms ignores_store_clock)+
  show "keeps f w (snd (http_call E h w))"
    using t frame.evo_trans [OF t evolvesD [OF s(1)]] frame.evo_trans [OF t evolvesD [OF s(2)]]
    by (auto simp: http_call_def Let_def split: net_fault.splits)
qed

lemma keeps_serve_charge [evo]:
  "ignores_clock f \<Longrightarrow> (\<And>w p. f (w\<lparr>provider := p\<rparr>) = f w) \<Longrightarrow> evolves (keeps f) (serve_charge E b a)"
  unfolding serve_charge_def
  by (rule frame.ev_bind, rule keeps_uuid) (auto simp: evolves_def keeps_def split: prod.splits)

lemma keeps_serve_get [evo]: "evolves (keeps f) (serve_get pa)"
  unfolding serve_get_def by (rule frame.ev_asks)

end
