(* ===== verification/Auditlog.thy ===== *)
theory Auditlog
  imports World
begin

text \<open>
  \<open>gateway/audit.py\<close>: the hash-chained log. \<open>record_event\<close> appends one row under the audit
  lock, \<open>verify_chain\<close> recomputes every link. The lemmas show that an append keeps a valid
  chain valid, and that two valid chains of the same length and head have the same content
  unless two of the hashed texts are a SHA-256 collision.
\<close>

section \<open>Timestamps\<close>

text \<open>\<open>str.rjust(n, '0')\<close>.\<close>

definition pad0 :: "nat \<Rightarrow> string \<Rightarrow> string" where
  "pad0 n s = replicate (n - length s) (CHR ''0'') @ s"

text \<open>The civil date of a day number (days since 1970-01-01), proleptic Gregorian.\<close>

definition civil :: "int \<Rightarrow> int \<times> int \<times> int" where
  "civil days = (let z = days + 719468; era = z div 146097; doe = z mod 146097;
     yoe = (doe - doe div 1460 + doe div 36524 - doe div 146096) div 365;
     doy = doe - (365 * yoe + yoe div 4 - yoe div 100);
     mp = (5 * doy + 2) div 153; d = doy - (153 * mp + 2) div 5 + 1;
     m = (if mp < 10 then mp + 3 else mp - 9)
     in (yoe + era * 400 + (if m \<le> 2 then 1 else 0), m, d))"

text \<open>\<open>isoformat(timespec="microseconds")\<close> of an aware UTC datetime.\<close>

definition canonical_timestamp :: "int \<Rightarrow> string" where
  "canonical_timestamp us = (let secs = us div 1000000; frac = us mod 1000000;
     (y, m, d) = civil (secs div 86400); s = secs mod 86400;
     two = (\<lambda>i. pad0 2 (str_int i)) in
     pad0 4 (str_int y) @ ''-'' @ two m @ ''-'' @ two d @ ''T'' @ two (s div 3600) @ '':'' @
     two (s div 60 mod 60) @ '':'' @ two (s mod 60) @ ''.'' @ pad0 6 (str_int frac) @ ''+00:00'')"

section \<open>Events, bodies and hashes\<close>

definition GENESIS_HASH :: string where "GENESIS_HASH = replicate 64 (CHR ''0'')"

record event_in =
  ei_type :: string
  ei_payload :: json
  ei_pa_id :: "string option"
  ei_user_id :: "string option"
  ei_agent_id :: "string option"
  ei_decision :: "string option"
  ei_reason_codes :: "string list"
  ei_risk :: json
  ei_policy_version :: "string option"

text \<open>The keyword defaults of \<open>record_event\<close>.\<close>

definition event :: "string \<Rightarrow> event_in" where
  "event t = \<lparr>ei_type = t, ei_payload = JObj [], ei_pa_id = None, ei_user_id = None, ei_agent_id = None,
     ei_decision = None, ei_reason_codes = [], ei_risk = JObj [], ei_policy_version = None\<rparr>"

definition strs_json :: "string list \<Rightarrow> json" where "strs_json xs = JList (map JStr xs)"

definition body_json :: "audit_row \<Rightarrow> json" where
  "body_json r = JObj [(''event_id'', JStr (ae_event_id r)), (''event_type'', JStr (ae_event_type r)),
     (''created_at'', JStr (canonical_timestamp (ae_created_at r))),
     (''payment_authorization_id'', jopt JStr (ae_pa_id r)), (''user_id'', jopt JStr (ae_user_id r)),
     (''agent_id'', jopt JStr (ae_agent_id r)), (''decision'', jopt JStr (ae_decision r)),
     (''reason_codes'', strs_json (ae_reason_codes r)), (''risk'', ae_risk r),
     (''policy_version'', jopt JStr (ae_policy_version r)), (''payload'', ae_payload r)]"

definition hashed_text :: "(real \<Rightarrow> string) \<Rightarrow> audit_row \<Rightarrow> string \<Rightarrow> string" where
  "hashed_text frepr r prev = canonical_dumps frepr (body_json r) @ prev"

definition compute_hash :: "(string \<Rightarrow> string) \<Rightarrow> (real \<Rightarrow> string) \<Rightarrow> audit_row \<Rightarrow> string \<Rightarrow> string" where
  "compute_hash H frepr r prev = H (hashed_text frepr r prev)"

definition by_seq :: "audit_row list \<Rightarrow> audit_row list" where "by_seq rows = sort_key ae_seq rows"

text \<open>\<open>order_by(seq.desc()).limit(1)\<close>, or the genesis hash.\<close>

definition head_hash :: "audit_row list \<Rightarrow> string" where
  "head_hash rows = (if rows = [] then GENESIS_HASH else ae_event_hash (last (by_seq rows)))"

definition next_seq :: "audit_row list \<Rightarrow> nat" where
  "next_seq rows = Suc (foldr max (map ae_seq rows) 0)"

section \<open>Appending\<close>

definition new_row :: "env \<Rightarrow> event_in \<Rightarrow> string \<Rightarrow> int \<Rightarrow> audit_row list \<Rightarrow> audit_row" where
  "new_row E e event_id us rows =
     (let prev = head_hash rows;
          r = \<lparr>ae_seq = next_seq rows, ae_event_id = event_id, ae_event_type = ei_type e,
            ae_pa_id = ei_pa_id e, ae_user_id = ei_user_id e, ae_agent_id = ei_agent_id e,
            ae_decision = ei_decision e, ae_reason_codes = ei_reason_codes e, ae_risk = ei_risk e,
            ae_policy_version = (case ei_policy_version e of
               None \<Rightarrow> Some (cfg_policy_version (e_cfg E))
             | Some v \<Rightarrow> Some (if v = '''' then cfg_policy_version (e_cfg E) else v)),
            ae_payload = ei_payload e, ae_prev_hash = prev, ae_event_hash = '''', ae_created_at = us\<rparr>
      in r\<lparr>ae_event_hash := compute_hash (e_H E) (e_frepr E) r prev\<rparr>)"

definition append_event :: "env \<Rightarrow> event_in \<Rightarrow> string \<Rightarrow> int \<Rightarrow> (string \<times> string) act" where
  "append_event E e event_id us = session_scope E (bindE (db_get audit_log) (\<lambda>rows.
     if event_id \<in> ae_event_id ` set rows then raise IntegrityError
     else let r = new_row E e event_id us rows in
       thenE (db_modify (\<lambda>d. d\<lparr>audit_log := audit_log d @ [r]\<rparr>))
             (ret (event_id, ae_event_hash r))))"

definition record_event :: "env \<Rightarrow> event_in \<Rightarrow> (string \<times> string) act" where
  "record_event E e = bindE (uuid4_hex E) (\<lambda>u. bindE (asks (\<lambda>w. \<lfloor>now w * 1000000\<rfloor>)) (\<lambda>us.
     with_lock E ''audit_chain'' (Some 15) (append_event E e (''evt_'' @ u) us)))"

text \<open>\<open>record_event_safe\<close> of \<open>routes/payments.py\<close>: any exception becomes a missing id.\<close>

definition record_event_safe :: "env \<Rightarrow> event_in \<Rightarrow> (string option \<times> string option) act" where
  "record_event_safe E e = catchE (bindE (record_event E e) (\<lambda>(i, h). ret (Some i, Some h)))
     (\<lambda>_. ret (None, None))"

section \<open>Verifying\<close>

datatype chain_report = ChainValid nat string
  | ChainBroken nat nat string string string

fun verify_from :: "(string \<Rightarrow> string) \<Rightarrow> (real \<Rightarrow> string) \<Rightarrow> nat \<Rightarrow> string \<Rightarrow> audit_row list \<Rightarrow> chain_report" where
  "verify_from H frepr n prev [] = ChainValid n prev"
| "verify_from H frepr n prev (e # es) =
     (let expected = compute_hash H frepr e prev in
      if ae_prev_hash e \<noteq> prev \<or> ae_event_hash e \<noteq> expected
      then ChainBroken n (ae_seq e) (ae_event_id e) expected (ae_event_hash e)
      else verify_from H frepr n (ae_event_hash e) es)"

text \<open>\<open>if limit:\<close> is false for \<open>None\<close> and for 0.\<close>

definition limited :: "nat option \<Rightarrow> 'a list \<Rightarrow> 'a list" where
  "limited limit xs = (case limit of None \<Rightarrow> xs | Some n \<Rightarrow> if n = 0 then xs else take n xs)"

definition verify_rows :: "env \<Rightarrow> nat option \<Rightarrow> audit_row list \<Rightarrow> chain_report" where
  "verify_rows E limit rows = (let es = limited limit (by_seq rows) in
     verify_from (e_H E) (e_frepr E) (length es) GENESIS_HASH es)"

definition verify_chain :: "env \<Rightarrow> nat option \<Rightarrow> chain_report act" where
  "verify_chain E limit = bindE (session_scope E (db_get audit_log)) (\<lambda>rows. ret (verify_rows E limit rows))"

definition chain_head :: "env \<Rightarrow> (nat \<times> string) act" where
  "chain_head E = session_scope E (db_get (\<lambda>d. (length (audit_log d), head_hash (audit_log d))))"

fun is_valid_report :: "chain_report \<Rightarrow> bool" where
  "is_valid_report (ChainValid _ _) \<longleftrightarrow> True"
| "is_valid_report (ChainBroken _ _ _ _ _) \<longleftrightarrow> False"

fun report_head :: "chain_report \<Rightarrow> string option" where
  "report_head (ChainValid _ h) = Some h"
| "report_head (ChainBroken _ _ _ _ _) = None"

section \<open>The chain as a predicate\<close>

fun linked :: "(string \<Rightarrow> string) \<Rightarrow> (real \<Rightarrow> string) \<Rightarrow> string \<Rightarrow> audit_row list \<Rightarrow> bool" where
  "linked H frepr prev [] \<longleftrightarrow> True"
| "linked H frepr prev (e # es) \<longleftrightarrow> ae_prev_hash e = prev \<and> ae_event_hash e = compute_hash H frepr e prev \<and>
     linked H frepr (ae_event_hash e) es"

definition chain_end :: "string \<Rightarrow> audit_row list \<Rightarrow> string" where
  "chain_end prev es = (if es = [] then prev else ae_event_hash (last es))"

lemma chain_end_simps [simp]:
  "chain_end prev [] = prev" "chain_end prev (e # es) = chain_end (ae_event_hash e) es"
  "chain_end prev (es @ [e]) = ae_event_hash e"
  by (simp_all add: chain_end_def)

lemma verify_from_valid:
  "is_valid_report (verify_from H frepr n prev es) \<longleftrightarrow> linked H frepr prev es"
  "linked H frepr prev es \<Longrightarrow> verify_from H frepr n prev es = ChainValid n (chain_end prev es)"
  by (induction es arbitrary: prev) (auto simp: Let_def)

lemma verify_from_head:
  "report_head (verify_from H frepr n prev es) = Some h \<Longrightarrow> linked H frepr prev es \<and> h = chain_end prev es"
  by (induction es arbitrary: prev) (auto simp: Let_def split: if_splits)

lemma linked_append: "linked H frepr prev (xs @ ys) \<longleftrightarrow> linked H frepr prev xs \<and> linked H frepr (chain_end prev xs) ys"
  by (induction xs arbitrary: prev) auto

lemma compute_hash_update [simp]:
  "compute_hash H frepr (r\<lparr>ae_event_hash := h\<rparr>) prev = compute_hash H frepr r prev"
  by (simp add: compute_hash_def hashed_text_def body_json_def)

lemma verify_broken_first:
  "verify_from H frepr n prev es = ChainBroken m s i x y \<Longrightarrow>
   \<exists>xs e ys. es = xs @ e # ys \<and> linked H frepr prev xs \<and> s = ae_seq e \<and> i = ae_event_id e \<and>
     (ae_prev_hash e \<noteq> chain_end prev xs \<or> ae_event_hash e \<noteq> compute_hash H frepr e (chain_end prev xs))"
proof (induction es arbitrary: prev)
  case (Cons e es)
  show ?case
  proof (cases "ae_prev_hash e \<noteq> prev \<or> ae_event_hash e \<noteq> compute_hash H frepr e prev")
    case True
    with Cons.prems show ?thesis by (intro exI [of _ "[]"]) (auto simp: Let_def)
  next
    case False
    with Cons.prems have "verify_from H frepr n (ae_event_hash e) es = ChainBroken m s i x y"
      by (simp add: Let_def)
    from Cons.IH [OF this] obtain xs d ys where "es = xs @ d # ys" "linked H frepr (ae_event_hash e) xs"
      "s = ae_seq d" "i = ae_event_id d"
      "ae_prev_hash d \<noteq> chain_end (ae_event_hash e) xs \<or> ae_event_hash d \<noteq> compute_hash H frepr d (chain_end (ae_event_hash e) xs)"
      by blast
    with False show ?thesis by (intro exI [of _ "e # xs"]) auto
  qed
qed simp

text \<open>Appending goes after every other row, in sequence order too.\<close>

lemma next_seq_bound: "r \<in> set rows \<Longrightarrow> ae_seq r < next_seq rows"
proof -
  have "r \<in> set rows \<Longrightarrow> ae_seq r \<le> foldr max (map ae_seq rows) 0" by (induction rows) auto
  then show "r \<in> set rows \<Longrightarrow> ae_seq r < next_seq rows" by (simp add: next_seq_def)
qed

lemma by_seq_snoc:
  assumes lt: "\<And>x. x \<in> set rows \<Longrightarrow> ae_seq x < ae_seq r"
  shows "by_seq (rows @ [r]) = by_seq rows @ [r]"
  unfolding by_seq_def
proof (rule properties_for_sort_key)
  show "sorted (map ae_seq (sort_key ae_seq rows @ [r]))"
    using lt by (auto simp: sorted_append intro: less_imp_le)
  show "filter (\<lambda>y. ae_seq k = ae_seq y) (sort_key ae_seq rows @ [r]) = filter (\<lambda>y. ae_seq k = ae_seq y) (rows @ [r])" for k
    using sort_key_stable [of ae_seq "ae_seq k" rows] by (simp add: eq_commute [of "ae_seq k"])
qed simp

definition log_valid :: "env \<Rightarrow> audit_row list \<Rightarrow> bool" where
  "log_valid E rows \<longleftrightarrow> linked (e_H E) (e_frepr E) GENESIS_HASH (by_seq rows)"

lemma head_hash_end: "head_hash rows = chain_end GENESIS_HASH (by_seq rows)"
proof -
  have "by_seq rows = [] \<longleftrightarrow> rows = []" by (metis by_seq_def set_empty set_sort)
  then show ?thesis by (simp add: head_hash_def chain_end_def)
qed

lemma new_row_seq: "x \<in> set rows \<Longrightarrow> ae_seq x < ae_seq (new_row E e i us rows)"
  by (simp add: new_row_def Let_def next_seq_bound)

lemma new_row_links:
  "ae_prev_hash (new_row E e i us rows) = head_hash rows"
  "ae_event_hash (new_row E e i us rows) = compute_hash (e_H E) (e_frepr E) (new_row E e i us rows) (head_hash rows)"
  unfolding new_row_def Let_def compute_hash_update by simp_all

lemma log_valid_snoc: "log_valid E rows \<Longrightarrow> log_valid E (rows @ [new_row E e i us rows])"
proof -
  assume v: "log_valid E rows"
  have "by_seq (rows @ [new_row E e i us rows]) = by_seq rows @ [new_row E e i us rows]"
    by (rule by_seq_snoc) (rule new_row_seq)
  with v show ?thesis by (simp add: log_valid_def linked_append head_hash_end [symmetric] new_row_links)
qed

lemma verify_rows_valid: "is_valid_report (verify_rows E None rows) \<longleftrightarrow> log_valid E rows"
  by (simp add: verify_rows_def Let_def limited_def verify_from_valid log_valid_def)

section \<open>What an audited operation may do to the database\<close>

text \<open>A relation on the database that is kept by an append to the log.\<close>

locale audited_db = db_relation P for E :: env and P :: "database \<Rightarrow> database \<Rightarrow> bool" +
  assumes P_append: "P d (d\<lparr>audit_log := audit_log d @ [new_row E e i us (audit_log d)]\<rparr>)"

context audited_db
begin

lemma db_append_event: "evolves (on_db P) (append_event E e i us)"
proof -
  have "evolves (on_db P) (bindE (db_get audit_log) (\<lambda>rows.
     if i \<in> ae_event_id ` set rows then raise IntegrityError
     else let r = new_row E e i us rows in
       thenE (db_modify (\<lambda>d. d\<lparr>audit_log := audit_log d @ [r]\<rparr>)) (ret (i, ae_event_hash r))))"
    by (auto simp: evolves_def on_db_def bindE_def thenE_def db_get_def db_modify_def Let_def P_refl P_append)
  then show ?thesis unfolding append_event_def by (rule db_session)
qed

lemma db_record_event: "evolves (on_db P) (record_event E e)"
  unfolding record_event_def
  by (intro ev_rules db_lock db_append_event db_keeps [OF keeps_uuid]) simp_all

lemma db_record_event_safe: "evolves (on_db P) (record_event_safe E e)"
  unfolding record_event_safe_def by (intro ev_rules db_record_event) (auto intro: ev_rules)

end

lemma keeps_append_event [evo]: "ignores_db f \<Longrightarrow> evolves (keeps f) (append_event E e i us)"
  unfolding append_event_def Let_def
  by (intro keeps_session frame.ev_rules keeps_db_get keeps_db_modify)

lemma keeps_record_event [evo]: "ignores_store f \<Longrightarrow> ignores_db f \<Longrightarrow> evolves (keeps f) (record_event E e)"
  unfolding record_event_def
  by (intro frame.ev_rules keeps_with_lock keeps_append_event keeps_uuid ignores_store_clock)

lemma keeps_record_event_safe [evo]:
  "ignores_store f \<Longrightarrow> ignores_db f \<Longrightarrow> evolves (keeps f) (record_event_safe E e)"
  unfolding record_event_safe_def by (intro frame.ev_rules keeps_record_event) (auto intro: frame.ev_rules)

lemma record_event_safe_total: "\<exists>r w'. record_event_safe E e w = (Inr r, w')"
  by (auto simp: record_event_safe_def catchE_def bindE_def split: prod.splits sum.splits)

text \<open>The log only grows, and stays valid.\<close>

definition log_extends :: "env \<Rightarrow> database \<Rightarrow> database \<Rightarrow> bool" where
  "log_extends E d d' \<longleftrightarrow> prefix (audit_log d) (audit_log d') \<and>
     (log_valid E (audit_log d) \<longrightarrow> log_valid E (audit_log d'))"

interpretation audit_only: audited_db E "log_extends E" for E
  by unfold_locales (auto simp: log_extends_def log_valid_snoc)

section \<open>What a head hash binds\<close>

text \<open>The recorded content of a row: every hashed field, dicts up to the order of their keys.\<close>

definition content :: "audit_row \<Rightarrow> json" where "content r = canon (body_json r)"

fun hashed_texts :: "(real \<Rightarrow> string) \<Rightarrow> string \<Rightarrow> audit_row list \<Rightarrow> string list" where
  "hashed_texts frepr prev [] = []"
| "hashed_texts frepr prev (e # es) = hashed_text frepr e prev # hashed_texts frepr (ae_event_hash e) es"

definition collide_in :: "(string \<Rightarrow> string) \<Rightarrow> string list \<Rightarrow> string list \<Rightarrow> bool" where
  "collide_in H as bs \<longleftrightarrow> (\<exists>a \<in> set as. \<exists>b \<in> set bs. collision H a b)"

lemma hashed_texts_append:
  "hashed_texts frepr prev (xs @ ys) = hashed_texts frepr prev xs @ hashed_texts frepr (chain_end prev xs) ys"
  by (induction xs arbitrary: prev) auto

lemma collide_in_append: "collide_in H as bs \<Longrightarrow> collide_in H (as @ cs) (bs @ ds)"
  by (auto simp: collide_in_def)

lemma linked_end_length:
  assumes "linked H frepr prev es" "\<And>x. length (H x) = length prev"
  shows "length (chain_end prev es) = length prev"
  using assms by (cases es rule: rev_cases) (auto simp: linked_append compute_hash_def)

lemma linked_binds:
  assumes f: "float_repr_ok F frepr" and len: "\<And>x. length (H x) = length prev"
    and "\<forall>r \<in> set xs \<union> set ys. json_floats (body_json r) \<subseteq> F"
    and "linked H frepr prev xs" "linked H frepr prev ys" "length xs = length ys"
    and "chain_end prev xs = chain_end prev ys"
  shows "map content xs = map content ys \<or> collide_in H (hashed_texts frepr prev xs) (hashed_texts frepr prev ys)"
  using assms(3-7)
proof (induction xs arbitrary: ys rule: rev_induct)
  case (snoc e xs)
  from snoc.prems(4) obtain d ys' where ys: "ys = ys' @ [d]" by (metis length_0_conv length_Suc_conv_rev length_append_singleton)
  let ?x = "hashed_text frepr e (chain_end prev xs)" and ?y = "hashed_text frepr d (chain_end prev ys')"
  from snoc.prems ys have l: "linked H frepr prev xs" "linked H frepr prev ys'" "length xs = length ys'"
    and h: "H ?x = H ?y"
    by (simp_all add: linked_append compute_hash_def)
  show ?case
  proof (cases "?x = ?y")
    case False
    with h show ?thesis unfolding ys by (simp add: hashed_texts_append collide_in_def collision_def)
  next
    case True
    have "length (chain_end prev xs) = length (chain_end prev ys')"
      using linked_end_length [OF l(1) len] linked_end_length [OF l(2) len] by simp
    with True have e: "canonical_dumps frepr (body_json e) = canonical_dumps frepr (body_json d)"
      and p: "chain_end prev xs = chain_end prev ys'"
      by (auto simp: hashed_text_def)
    have "content e = content d" unfolding content_def using snoc.prems(1) ys by (intro canonical_dumps_inj [OF f _ _ e]) auto
    with snoc.IH [OF _ l p] snoc.prems(1) show ?thesis unfolding ys
      by (auto simp: hashed_texts_append collide_in_append)
  qed
qed simp

section \<open>What a successful append returns\<close>

lemma with_lock_body:
  assumes "with_lock E k ttl body w = (Inr x, w')"
  shows "\<exists>v v'. db v = db w \<and> body v = (Inr x, v') \<and> db w' = db v'"
proof -
  from assms obtain tok u w1 w2 where 1: "uuid4_hex E w = (Inr tok, w1)" "lock_enter E k tok ttl w1 = (Inr u, w2)"
    and 2: "finallyE body (lock_exit E k tok) w2 = (Inr x, w')"
    by (auto simp: with_lock_def elim!: bindE_InrE thenE_InrE)
  have "db w2 = db w" using 1 evolvesE [OF keeps_lock_attempts [of db] 1(2) [unfolded lock_enter_def]]
    by (auto simp: keeps_def uuid4_hex_def)
  moreover obtain y v' where b: "body w2 = (y, v')" by fastforce
  moreover have "db w' = db v' \<and> y = Inr x" using 2 b
    by (auto simp: finallyE_def lock_exit_def thenE_def bindE_def store_call_def Let_def split: sum.splits prod.splits if_splits)
  ultimately show ?thesis by blast
qed

lemma record_event_appends:
  assumes "record_event E e w = (Inr (i, h), w')"
  shows "\<exists>us. audit_log (db w') = audit_log (db w) @ [new_row E e i us (audit_log (db w))] \<and>
    h = head_hash (audit_log (db w')) \<and> i \<notin> ae_event_id ` set (audit_log (db w))"
proof -
  define u us w1 where d: "u = e_uuid E (uuids w)" "us = \<lfloor>now w * 1000000\<rfloor>" "w1 = w\<lparr>uuids := Suc (uuids w)\<rparr>"
  from assms have 1: "db w1 = db w"
    "with_lock E ''audit_chain'' (Some 15) (append_event E e (''evt_'' @ u) us) w1 = (Inr (i, h), w')"
    unfolding d by (simp_all add: record_event_def bindE_def uuid4_hex_def)
  from with_lock_body [OF 1(2)] obtain v v' where v: "db v = db w" "append_event E e (''evt_'' @ u) us v = (Inr (i, h), v')" "db w' = db v'"
    using 1(1) by auto
  have b: "by_seq (rows @ [new_row E e j us rows]) = by_seq rows @ [new_row E e j us rows]" for rows j
    by (rule by_seq_snoc) (rule new_row_seq)
  from v(2) have "i = ''evt_'' @ u" "i \<notin> ae_event_id ` set (audit_log (db w))"
    "h = ae_event_hash (new_row E e i us (audit_log (db w)))"
    "audit_log (db v') = audit_log (db w) @ [new_row E e i us (audit_log (db w))]"
    using v(1) by (auto simp: append_event_def session_scope_def bindE_def thenE_def db_get_def db_modify_def Let_def split: if_splits)
  with v(3) show ?thesis by (auto simp: head_hash_end b)
qed

end
