(* ===== verification/Payments.thy ===== *)
theory Payments
  imports Approvals Provider Auditlog
begin

text \<open>
  \<open>gateway/payments.py\<close>: the payment state machine and everything that moves it. A token is
  consumed before the provider is called; an unanswered call ends in \<open>UNKNOWN\<close> and is resolved
  by asking, never by submitting again.
\<close>

section \<open>Transitions\<close>

fun valid_transitions :: "payment_state \<Rightarrow> payment_state list" where
  "valid_transitions CREATED = [AUTHORIZED, FAILED]"
| "valid_transitions AUTHORIZED = [SUBMITTED, EXPIRED, FAILED]"
| "valid_transitions SUBMITTED = [CONFIRMED, FAILED, TIMEOUT]"
| "valid_transitions TIMEOUT = [UNKNOWN]"
| "valid_transitions UNKNOWN = [CONFIRMED, FAILED]"
| "valid_transitions CONFIRMED = []"
| "valid_transitions FAILED = []"
| "valid_transitions EXPIRED = []"

definition TERMINAL :: "payment_state list" where "TERMINAL = [CONFIRMED, FAILED, EXPIRED]"

definition assert_transition :: "payment_state \<Rightarrow> payment_state \<Rightarrow> unit act" where
  "assert_transition current target = (if target \<notin> set (valid_transitions current)
     then raise (InvalidTransition current target) else ret ())"

text \<open>Any number of transitions.\<close>

inductive moves :: "payment_state \<Rightarrow> payment_state \<Rightarrow> bool" where
  moves_refl: "moves s s"
| moves_step: "t \<in> set (valid_transitions s) \<Longrightarrow> moves t u \<Longrightarrow> moves s u"

code_pred moves .

inductive_cases moves_from: "moves s u"
inductive_simps moves_terminal: "moves CONFIRMED u" "moves FAILED u" "moves EXPIRED u"

lemma moves_trans: "moves s t \<Longrightarrow> moves t u \<Longrightarrow> moves s u"
  by (induction rule: moves.induct) (auto intro: moves.intros)

lemma moves_one: "t \<in> set (valid_transitions s) \<Longrightarrow> moves s t"
  by (auto intro: moves.intros)

lemma terminal_iff: "s \<in> set TERMINAL \<longleftrightarrow> valid_transitions s = []"
  by (cases s) (simp_all add: TERMINAL_def)

lemma terminal_frozen: "s \<in> set TERMINAL \<Longrightarrow> moves s u \<Longrightarrow> u = s"
  by (erule moves.cases) (auto simp: terminal_iff)

text \<open>The states that mean the provider may have been asked.\<close>

definition submitted_states :: "payment_state list" where
  "submitted_states = [SUBMITTED, CONFIRMED, TIMEOUT, UNKNOWN]"

section \<open>Idempotency records\<close>

definition idem_key :: "string \<Rightarrow> string \<Rightarrow> string" where
  "idem_key user key = ''agentpay:idem:'' @ user @ '':'' @ key"

definition fingerprint_key :: "string \<Rightarrow> string" where
  "fingerprint_key f = ''agentpay:fp:'' @ f"

record idempotency_outcome =
  io_finding :: duplicate_finding
  io_replay :: "decision_response option"

definition no_duplicate :: duplicate_finding where
  "no_duplicate = \<lparr>df_idempotency_conflict = False, df_fingerprint_conflict = False, df_detail = ''''\<rparr>"

definition is_conflict :: "idempotency_outcome \<Rightarrow> bool" where
  "is_conflict out \<longleftrightarrow> df_idempotency_conflict (io_finding out) \<or> df_fingerprint_conflict (io_finding out)"

definition idem_conflict :: idempotency_outcome where
  "idem_conflict = \<lparr>io_finding = no_duplicate\<lparr>df_idempotency_conflict := True,
     df_detail := ''idempotency key reused with a different payload''\<rparr>, io_replay = None\<rparr>"

definition fp_conflict :: "string \<Rightarrow> idempotency_outcome" where
  "fp_conflict seen = \<lparr>io_finding = no_duplicate\<lparr>df_fingerprint_conflict := True,
     df_detail := ''identical transaction already seen in this window ('' @ seen @ '')''\<rparr>, io_replay = None\<rparr>"

definition falsy :: "sval option \<Rightarrow> bool" where
  "falsy v \<longleftrightarrow> v = None \<or> v = Some (SStr '''')"

text \<open>How \<open>seen_pa_id\<close> reads when it is not an authorization id.\<close>

definition sval_text :: "sval \<Rightarrow> string" where
  "sval_text v = (case v of SStr s \<Rightarrow> s | _ \<Rightarrow> ''{...}'')"

definition check_fingerprint :: "env \<Rightarrow> canonical_txn \<Rightarrow> idempotency_outcome act" where
  "check_fingerprint E txn = bindE (store_get E (fingerprint_key (ct_fingerprint txn))) (\<lambda>seen.
     if \<not> falsy seen \<and> seen \<noteq> Some (SStr (ct_pa_id txn)) then ret (fp_conflict (sval_text (the seen)))
     else ret \<lparr>io_finding = no_duplicate, io_replay = None\<rparr>)"

definition check_duplicate :: "env \<Rightarrow> canonical_txn \<Rightarrow> idempotency_outcome act" where
  "check_duplicate E txn = bindE (store_get E (idem_key (ct_user_id txn) (ct_idempotency_key txn))) (\<lambda>raw.
     if falsy raw then check_fingerprint E txn
     else (case the raw of
         SIdem payload response \<Rightarrow>
           if payload = ct_payload_hash txn
           then ret \<lparr>io_finding = no_duplicate\<lparr>df_detail := ''idempotent_replay''\<rparr>, io_replay = Some response\<rparr>
           else ret idem_conflict
       | _ \<Rightarrow> ret idem_conflict))"

definition remember_outcome :: "env \<Rightarrow> canonical_txn \<Rightarrow> decision_response \<Rightarrow> bool \<Rightarrow> unit act" where
  "remember_outcome E txn response reserve =
     thenE (store_set E (idem_key (ct_user_id txn) (ct_idempotency_key txn))
              (SIdem (ct_payload_hash txn) response) (cfg_idempotency_ttl (e_cfg E)))
       (if reserve then store_set E (fingerprint_key (ct_fingerprint txn)) (SStr (ct_pa_id txn))
                          (cfg_fingerprint_window (e_cfg E) * 2)
        else ret ())"

section \<open>Rows\<close>

definition row_of :: "canonical_txn \<Rightarrow> string \<Rightarrow> string list \<Rightarrow> payment_state \<Rightarrow> risk_assessment \<Rightarrow> string \<Rightarrow> real \<Rightarrow> txn_row" where
  "row_of txn d reasons st r policy t = \<lparr>tr_pa_id = ct_pa_id txn, tr_idempotency_key = ct_idempotency_key txn,
     tr_payload_hash = ct_payload_hash txn, tr_fingerprint = ct_fingerprint txn, tr_user_id = ct_user_id txn,
     tr_agent_id = ct_agent_id txn, tr_delegation_id = ct_delegation_id txn, tr_merchant_id = ct_merchant_id txn,
     tr_amount = numeric_12_2 (ct_amount txn), tr_currency = ct_currency txn, tr_cart_hash = ct_cart_hash txn,
     tr_decision = d, tr_reason_codes = reasons, tr_state = st, tr_risk = r, tr_policy_version = policy,
     tr_token_jti = None, tr_token_uses = 0, tr_token_expires_at = None, tr_provider_reference = None,
     tr_provider_detail = None, tr_created_at = t\<rparr>"

definition insert_txn :: "txn_row \<Rightarrow> unit act" where
  "insert_txn r = bindE (db_get txns) (\<lambda>rows. if insertable r rows
     then db_modify (\<lambda>d. d\<lparr>txns := txns d @ [r]\<rparr>) else raise IntegrityError)"

definition persist_transaction :: "env \<Rightarrow> canonical_txn \<Rightarrow> string \<Rightarrow> string list \<Rightarrow> payment_state \<Rightarrow> risk_assessment \<Rightarrow> string \<Rightarrow> unit act" where
  "persist_transaction E txn d reasons st r policy = session_scope E
     (bindE (asks now) (\<lambda>t. insert_txn (row_of txn d reasons st r policy t)))"

definition update_row :: "string \<Rightarrow> (txn_row \<Rightarrow> txn_row) \<Rightarrow> unit act" where
  "update_row pa f = db_modify (\<lambda>d. d\<lparr>txns := update_txn pa f (txns d)\<rparr>)"

definition get_row :: "string \<Rightarrow> txn_row act" where
  "get_row pa = bindE (db_get (\<lambda>d. find_txn pa (txns d))) (\<lambda>r. case r of None \<Rightarrow> raise (KeyMissing pa) | Some r \<Rightarrow> ret r)"

definition nonempty :: "string option \<Rightarrow> bool" where "nonempty x \<longleftrightarrow> x \<noteq> None \<and> x \<noteq> Some ''''"

definition move_row :: "payment_state \<Rightarrow> string option \<Rightarrow> string option \<Rightarrow> txn_row \<Rightarrow> txn_row" where
  "move_row target ref detail r = r\<lparr>tr_state := target,
     tr_provider_reference := (if nonempty ref then ref else tr_provider_reference r),
     tr_provider_detail := (if nonempty detail then detail else tr_provider_detail r)\<rparr>"

text \<open>The guarded update inside \<open>set_state\<close>'s session; it returns the row as it was.\<close>

definition transition_row :: "string \<Rightarrow> payment_state \<Rightarrow> string option \<Rightarrow> string option \<Rightarrow> txn_row act" where
  "transition_row pa target ref detail = bindE (get_row pa) (\<lambda>row.
     thenE (assert_transition (tr_state row) target)
       (thenE (update_row pa (move_row target ref detail)) (ret row)))"

definition state_event :: "string \<Rightarrow> payment_state \<Rightarrow> string option \<Rightarrow> string option \<Rightarrow> txn_row \<Rightarrow> event_in" where
  "state_event pa target ref detail row = (event (''payment.'' @ lower (state_str target)))\<lparr>
     ei_pa_id := Some pa, ei_user_id := Some (tr_user_id row), ei_agent_id := Some (tr_agent_id row),
     ei_reason_codes := [''STATE_'' @ state_str (tr_state row) @ ''_TO_'' @ state_str target],
     ei_policy_version := Some (tr_policy_version row),
     ei_payload := JObj [(''from'', JStr (state_str (tr_state row))), (''to'', JStr (state_str target)),
       (''provider_reference'', jopt JStr ref), (''detail'', jopt JStr detail),
       (''settled'', JBool (target = CONFIRMED))]\<rparr>"

definition set_state :: "env \<Rightarrow> string \<Rightarrow> payment_state \<Rightarrow> string option \<Rightarrow> string option \<Rightarrow> bool \<Rightarrow> unit act" where
  "set_state E pa target ref detail audit =
     bindE (session_scope E (transition_row pa target ref detail)) (\<lambda>row.
       if audit then thenE (record_event E (state_event pa target ref detail row)) (ret ()) else ret ())"

section \<open>Authorizing and submitting\<close>

definition authorize :: "env \<Rightarrow> canonical_txn \<Rightarrow> string \<Rightarrow> issued_token act" where
  "authorize E txn policy =
     bindE (issue_authorization_token E (ct_pa_id txn) (ct_user_id txn) (ct_agent_id txn) (ct_merchant_id txn)
              (ct_amount txn) (ct_currency txn) (ct_cart_hash txn) policy) (\<lambda>token.
       thenE (session_scope E (update_row (ct_pa_id txn)
                (\<lambda>r. r\<lparr>tr_token_jti := Some (it_jti token), tr_token_expires_at := Some (it_expires_at token)\<rparr>)))
         (thenE (set_state E (ct_pa_id txn) AUTHORIZED None None True) (ret token)))"

record provider_outcome =
  po_state :: payment_state
  po_reference :: "string option"
  po_detail :: string

definition outcome :: "payment_state \<Rightarrow> string option \<Rightarrow> string \<Rightarrow> provider_outcome" where
  "outcome s r d = \<lparr>po_state = s, po_reference = r, po_detail = d\<rparr>"

definition charge_body_of :: "canonical_txn \<Rightarrow> charge_body" where
  "charge_body_of txn = \<lparr>cb_pa_id = ct_pa_id txn, cb_idempotency_key = ct_idempotency_key txn,
     cb_amount = dec_str (ct_amount txn), cb_currency = ct_currency txn, cb_merchant_id = ct_merchant_id txn,
     cb_cart_hash = ct_cart_hash txn\<rparr>"

text \<open>The first session of \<open>submit\<close>: the token's single use is spent here. \<open>False\<close> when it
  already was.\<close>

definition consume_token :: "env \<Rightarrow> string \<Rightarrow> bool act" where
  "consume_token E pa = session_scope E (bindE (get_row pa) (\<lambda>row.
     if 1 \<le> tr_token_uses row then ret False
     else thenE (update_row pa (\<lambda>r. r\<lparr>tr_token_uses := Suc (tr_token_uses r)\<rparr>)) (ret True)))"

definition status_of :: "json \<Rightarrow> string option" where "status_of b = Option.bind (jget b ''status'') jstr"

text \<open>\<open>str(payload.get("detail") or payload.get("status") or "declined")[:200]\<close>.\<close>

definition decline_detail :: "env \<Rightarrow> json \<Rightarrow> string" where
  "decline_detail E b = take 200 (case filter truthy (List.map_filter (jget b) [''detail'', ''status'']) of
     [] \<Rightarrow> ''declined'' | v # _ \<Rightarrow> py_str (e_frepr E) v)"

definition after_call :: "env \<Rightarrow> canonical_txn \<Rightarrow> string + http_reply \<Rightarrow> provider_outcome act" where
  "after_call E txn response = (case response of
       Inl exc \<Rightarrow>
         thenE (set_state E (ct_pa_id txn) TIMEOUT None (Some (take 200 exc)) True)
           (thenE (set_state E (ct_pa_id txn) UNKNOWN None (Some ''awaiting reconciliation; not treated as success'') True)
             (ret (outcome UNKNOWN None ''provider timeout; reconciling'')))
     | Inr r \<Rightarrow>
         if 400 \<le> rep_status r then
           (let body = take 200 (dumps (e_frepr E) False '','' '':'' (rep_body r)) in
            thenE (set_state E (ct_pa_id txn) FAILED None (Some body) True) (ret (outcome FAILED None body)))
         else if status_of (rep_body r) = Some ''confirmed'' then
           (let ref = Option.bind (jget (rep_body r) ''provider_reference'') jstr in
            thenE (set_state E (ct_pa_id txn) CONFIRMED ref None True) (ret (outcome CONFIRMED ref '''')))
         else
           (let detail = decline_detail E (rep_body r) in
            thenE (set_state E (ct_pa_id txn) FAILED None (Some detail) True) (ret (outcome FAILED None detail))))"

definition submit :: "env \<Rightarrow> canonical_txn \<Rightarrow> issued_token \<Rightarrow> provider_outcome act" where
  "submit E txn token = bindE (consume_token E (ct_pa_id txn)) (\<lambda>fresh.
     if \<not> fresh then ret (outcome FAILED None ''token already consumed'')
     else thenE (set_state E (ct_pa_id txn) SUBMITTED None None True)
       (bindE (http_call E (serve_charge E (charge_body_of txn) (Some (''Bearer '' @ it_token token))))
          (after_call E txn)))"

section \<open>Reconciling and expiring\<close>

record tally = confirmed_n :: nat failed_n :: nat still_unknown_n :: nat

definition reconcile_one :: "env \<Rightarrow> tally \<Rightarrow> string \<Rightarrow> tally act" where
  "reconcile_one E n pa = bindE (http_call E (serve_get pa)) (\<lambda>response. case response of
       Inl _ \<Rightarrow> ret (n\<lparr>still_unknown_n := Suc (still_unknown_n n)\<rparr>)
     | Inr r \<Rightarrow>
         if rep_status r = 404 then
           thenE (set_state E pa FAILED None (Some ''provider has no record; never charged'') True)
             (ret (n\<lparr>failed_n := Suc (failed_n n)\<rparr>))
         else if 400 \<le> rep_status r then ret (n\<lparr>still_unknown_n := Suc (still_unknown_n n)\<rparr>)
         else if status_of (rep_body r) = Some ''confirmed'' then
           thenE (set_state E pa CONFIRMED (Option.bind (jget (rep_body r) ''provider_reference'') jstr)
                    (Some ''resolved by reconciliation'') True)
             (ret (n\<lparr>confirmed_n := Suc (confirmed_n n)\<rparr>))
         else if status_of (rep_body r) \<in> {Some ''failed'', Some ''declined''} then
           thenE (set_state E pa FAILED None (Some ''resolved by reconciliation'') True)
             (ret (n\<lparr>failed_n := Suc (failed_n n)\<rparr>))
         else ret (n\<lparr>still_unknown_n := Suc (still_unknown_n n)\<rparr>))"

definition unknown_since :: "real \<Rightarrow> txn_row list \<Rightarrow> string list" where
  "unknown_since cutoff rows = map tr_pa_id (filter (\<lambda>r. tr_state r = UNKNOWN \<and> cutoff \<le> tr_created_at r) rows)"

definition reconcile_unknown :: "env \<Rightarrow> nat \<Rightarrow> tally act" where
  "reconcile_unknown E max_age_minutes = bindE (asks now) (\<lambda>t.
     bindE (session_scope E (db_get (\<lambda>d. unknown_since (t - 60 * of_nat max_age_minutes) (txns d)))) (\<lambda>pending.
       foldE (reconcile_one E) \<lparr>confirmed_n = 0, failed_n = 0, still_unknown_n = 0\<rparr> pending))"

definition stale_at :: "real \<Rightarrow> txn_row list \<Rightarrow> string list" where
  "stale_at t rows = map tr_pa_id (filter (\<lambda>r. tr_state r = AUTHORIZED \<and>
     (case tr_token_expires_at r of None \<Rightarrow> False | Some e \<Rightarrow> of_int e < t)) rows)"

definition expire_stale_authorizations :: "env \<Rightarrow> nat act" where
  "expire_stale_authorizations E = bindE (asks now) (\<lambda>t.
     bindE (session_scope E (db_get (\<lambda>d. stale_at t (txns d)))) (\<lambda>stale.
       thenE (forE stale (\<lambda>pa. set_state E pa EXPIRED None (Some ''token TTL elapsed unused'') True))
         (ret (length stale))))"

definition is_production :: "env \<Rightarrow> bool" where
  "is_production E \<longleftrightarrow> lower (cfg_environment (e_cfg E)) \<in> {''production'', ''prod''}"

text \<open>\<open>MemoryStore\<close> is cleared whole; only the revocation set is kept.\<close>

definition reset_replay_state :: "env \<Rightarrow> unit act" where
  "reset_replay_state E = (if is_production E
     then raise (RuntimeErr ''refusing to clear replay state in production'')
     else modifyE (\<lambda>w. w\<lparr>store := st_clear_replay (store w)\<rparr>))"

end
