(* ===== verification/Ledger.thy ===== *)
theory Ledger
  imports Payments
begin

text \<open>
  What every operation of the payment service does to the database, on every path and under
  every failure: the log is extended validly, rows are only added or moved along the state
  machine, a spent token stays spent, and the registry is not touched. The relation is an
  instance of \<open>audited_db\<close>, so each operation's fact is a few rules.
\<close>

section \<open>The relation\<close>

definition row_evolves :: "txn_row \<Rightarrow> txn_row \<Rightarrow> bool" where
  "row_evolves r r' \<longleftrightarrow>
     r' = r\<lparr>tr_state := tr_state r', tr_token_jti := tr_token_jti r', tr_token_uses := tr_token_uses r',
            tr_token_expires_at := tr_token_expires_at r', tr_provider_reference := tr_provider_reference r',
            tr_provider_detail := tr_provider_detail r'\<rparr> \<and>
     moves (tr_state r) (tr_state r') \<and> tr_token_uses r \<le> tr_token_uses r'"

definition rows_evolve :: "txn_row list \<Rightarrow> txn_row list \<Rightarrow> bool" where
  "rows_evolve rs rs' \<longleftrightarrow> (\<exists>old new. rs' = old @ new \<and> list_all2 row_evolves rs old \<and>
     (\<forall>r \<in> set new. moves CREATED (tr_state r)))"

definition same_registry :: "database \<Rightarrow> database \<Rightarrow> bool" where
  "same_registry d d' \<longleftrightarrow> agents d' = agents d \<and> policies d' = policies d \<and> merchants d' = merchants d \<and>
     admin_log d' = admin_log d \<and> tg_links d' = tg_links d \<and> tg_codes d' = tg_codes d"

definition ledger_step :: "env \<Rightarrow> database \<Rightarrow> database \<Rightarrow> bool" where
  "ledger_step E d d' \<longleftrightarrow> log_extends E d d' \<and> same_registry d d' \<and>
     (txns_ok (txns d) \<longrightarrow> txns_ok (txns d') \<and> rows_evolve (txns d) (txns d'))"

lemma row_evolves_refl: "row_evolves r r"
  by (simp add: row_evolves_def moves_refl)

lemma row_evolves_trans: "row_evolves a b \<Longrightarrow> row_evolves b c \<Longrightarrow> row_evolves a c"
  unfolding row_evolves_def by (cases a; cases b; cases c) (auto intro: moves_trans)

lemma row_evolves_fields:
  assumes "row_evolves r r'"
  shows "tr_pa_id r' = tr_pa_id r \<and> tr_user_id r' = tr_user_id r \<and> tr_idempotency_key r' = tr_idempotency_key r \<and>
    tr_decision r' = tr_decision r \<and> tr_amount r' = tr_amount r \<and> tr_merchant_id r' = tr_merchant_id r \<and>
    tr_currency r' = tr_currency r \<and> tr_cart_hash r' = tr_cart_hash r \<and> tr_payload_hash r' = tr_payload_hash r \<and>
    tr_created_at r' = tr_created_at r"
  using assms unfolding row_evolves_def by (cases r; cases r') simp

lemma rows_evolve_refl: "rows_evolve rs rs"
  unfolding rows_evolve_def by (intro exI [of _ rs] exI [of _ "[]"]) (simp add: list_all2_refl row_evolves_refl)

lemma rows_evolve_trans:
  assumes "rows_evolve a b" "rows_evolve b c"
  shows "rows_evolve a c"
proof -
  from assms(1) obtain old new where b: "b = old @ new" "list_all2 row_evolves a old"
    "\<And>r. r \<in> set new \<Longrightarrow> moves CREATED (tr_state r)" by (auto simp: rows_evolve_def)
  from assms(2) b(1) obtain old' new' where c: "c = old' @ new'" "list_all2 row_evolves (old @ new) old'"
    "\<And>r. r \<in> set new' \<Longrightarrow> moves CREATED (tr_state r)" by (auto simp: rows_evolve_def)
  from c(2) obtain u v where o: "old' = u @ v" "list_all2 row_evolves old u" "list_all2 row_evolves new v"
    by (auto simp: list_all2_append1)
  have "list_all2 row_evolves a u"
    by (rule list_all2_trans [OF _ b(2) o(2)]) (rule row_evolves_trans)
  moreover have "moves CREATED (tr_state r)" if "r \<in> set v" for r
  proof -
    from that o(3) obtain s where "s \<in> set new" "row_evolves s r"
      by (metis in_set_conv_nth list_all2_conv_all_nth)
    then show ?thesis using b(3) moves_trans by (auto simp: row_evolves_def)
  qed
  ultimately show ?thesis unfolding rows_evolve_def c(1) o(1)
    using c(3) by (intro exI [of _ u] exI [of _ "v @ new'"]) auto
qed

lemma rows_evolve_find:
  assumes "rows_evolve rs rs'" "find_txn pa rs = Some r"
  shows "\<exists>r'. find_txn pa rs' = Some r' \<and> row_evolves r r'"
proof -
  from assms(1) obtain old new where e: "rs' = old @ new" "list_all2 row_evolves rs old" by (auto simp: rows_evolve_def)
  have "list_all2 row_evolves rs old \<Longrightarrow> find_txn pa rs = Some r \<Longrightarrow> \<exists>r'. find_txn pa old = Some r' \<and> row_evolves r r'"
  proof (induction rs old rule: list_all2_induct)
    case (Cons x xs y ys)
    then show ?case using row_evolves_fields [of x y] by (auto split: if_splits)
  qed simp
  from this [OF e(2) assms(2)] show ?thesis by (auto simp: e(1) find_txn_append)
qed

lemma log_extends_refl: "log_extends E d d" by (rule audit_only.P_refl)
lemma log_extends_trans: "log_extends E a b \<Longrightarrow> log_extends E b c \<Longrightarrow> log_extends E a c" by (rule audit_only.P_trans)

interpretation ledger: audited_db E "ledger_step E" for E
proof
  show "ledger_step E d d" for d
    by (simp add: ledger_step_def log_extends_refl same_registry_def rows_evolve_refl)
  show "ledger_step E a c" if "ledger_step E a b" "ledger_step E b c" for a b c
    using that by (auto simp: ledger_step_def same_registry_def intro: log_extends_trans rows_evolve_trans)
  show "ledger_step E d (d\<lparr>audit_log := audit_log d @ [new_row E e i us (audit_log d)]\<rparr>)" for d e i us
    using audit_only.P_append [of E d e i us] by (simp add: ledger_step_def same_registry_def rows_evolve_refl)
qed

text \<open>And the log alone never changes a transaction.\<close>

interpretation same_txns: audited_db E "\<lambda>d d'. txns d' = txns d" for E
  by unfold_locales simp_all

section \<open>Updates of a row\<close>

lemma txns_ok_unique: "txns_ok rows \<Longrightarrow> r \<in> set rows \<Longrightarrow> s \<in> set rows \<Longrightarrow> tr_pa_id r = tr_pa_id s \<Longrightarrow> r = s"
  by (induction rows) (auto simp: insertable_def)

lemma ledger_update:
  assumes "\<And>r. find_txn pa (txns d) = Some r \<Longrightarrow> row_evolves r (f r)"
    and "\<And>r. tr_pa_id (f r) = tr_pa_id r \<and> tr_user_id (f r) = tr_user_id r \<and>
      tr_idempotency_key (f r) = tr_idempotency_key r \<and> tr_decision (f r) = tr_decision r"
  shows "ledger_step E d (d\<lparr>txns := update_txn pa f (txns d)\<rparr>)"
proof -
  have "rows_evolve (txns d) (update_txn pa f (txns d))" if ok: "txns_ok (txns d)"
  proof -
    have "row_evolves r (if tr_pa_id r = pa then f r else r)" if r: "r \<in> set (txns d)" for r
    proof (cases "tr_pa_id r = pa")
      case True
      then obtain s where s: "find_txn pa (txns d) = Some s"
        using find_txn_NoneD [OF _ r, of pa] by (cases "find_txn pa (txns d)") auto
      have "s \<in> set (txns d)" "tr_pa_id r = tr_pa_id s" using find_txn_SomeD [OF s] True by simp_all
      then have "r = s" by (rule txns_ok_unique [OF ok r])
      with assms(1) [OF s] True show ?thesis by simp
    qed (simp add: row_evolves_refl)
    then have "list_all2 row_evolves (txns d) (update_txn pa f (txns d))"
      unfolding update_txn_def list_all2_map2 by (intro list_all2_all_nthI) (simp_all only: nth_mem)
    then show ?thesis unfolding rows_evolve_def by (intro exI [of _ "update_txn pa f (txns d)"] exI [of _ "[]"]) simp
  qed
  moreover have "log_extends E d (d\<lparr>txns := update_txn pa f (txns d)\<rparr>)"
    by (simp add: log_extends_def)
  ultimately show ?thesis
    by (simp add: ledger_step_def same_registry_def txns_ok_update [OF assms(2)])
qed

lemma move_row_keys: "tr_pa_id (move_row t ref det r) = tr_pa_id r \<and> tr_user_id (move_row t ref det r) = tr_user_id r \<and>
      tr_idempotency_key (move_row t ref det r) = tr_idempotency_key r \<and> tr_decision (move_row t ref det r) = tr_decision r"
  by (simp add: move_row_def)

lemma move_row_evolves: "t \<in> set (valid_transitions (tr_state r)) \<Longrightarrow> row_evolves r (move_row t ref det r)"
  by (cases r) (simp add: row_evolves_def move_row_def moves_one)

lemma ev_transition_row: "evolves (on_db (ledger_step E)) (transition_row pa t ref det)"
proof (rule evolvesI)
  fix w
  show "on_db (ledger_step E) w (snd (transition_row pa t ref det w))"
  proof (cases "find_txn pa (txns (db w))")
    case None
    then show ?thesis
      by (simp add: transition_row_def get_row_def db_get_def bindE_def on_db_def ledger.P_refl)
  next
    case (Some r)
    show ?thesis
    proof (cases "t \<in> set (valid_transitions (tr_state r))")
      case True
      have "ledger_step E (db w) ((db w)\<lparr>txns := update_txn pa (move_row t ref det) (txns (db w))\<rparr>)"
        using Some True by (intro ledger_update move_row_keys) (auto intro: move_row_evolves)
      with Some True show ?thesis
        by (simp add: transition_row_def get_row_def db_get_def bindE_def thenE_def assert_transition_def
            update_row_def db_modify_def on_db_def)
    next
      case False
      with Some show ?thesis
        by (simp add: transition_row_def get_row_def db_get_def bindE_def thenE_def assert_transition_def
            on_db_def ledger.P_refl)
    qed
  qed
qed

lemma ev_set_state: "evolves (on_db (ledger_step E)) (set_state E pa t ref det audit)"
  unfolding set_state_def
  by (intro ledger.ev_rules ledger.db_session ev_transition_row ledger.db_record_event)

lemma ev_insert_txn: "moves CREATED (tr_state r) \<Longrightarrow> evolves (on_db (ledger_step E)) (insert_txn r)"
proof (rule evolvesI)
  fix w :: world assume m: "moves CREATED (tr_state r)"
  have "rows_evolve (txns (db w)) (txns (db w) @ [r])"
    unfolding rows_evolve_def using m
    by (intro exI [of _ "txns (db w)"] exI [of _ "[r]"]) (simp add: list_all2_refl row_evolves_refl)
  then show "on_db (ledger_step E) w (snd (insert_txn r w))"
    by (auto simp: insert_txn_def db_get_def db_modify_def bindE_def on_db_def ledger_step_def log_extends_def
        same_registry_def txns_ok_snoc rows_evolve_refl)
qed

lemma ev_persist: "evolves (on_db (ledger_step E)) (persist_transaction E txn d rs CREATED rk p)"
  unfolding persist_transaction_def
  by (intro ledger.ev_rules ledger.db_session ev_insert_txn) (simp add: row_of_def moves_refl)

lemma ev_update_row:
  assumes "\<And>r. row_evolves r (f r)"
  shows "evolves (on_db (ledger_step E)) (update_row pa f)"
  unfolding update_row_def
  by (rule ledger.db_modify_rule, rule ledger_update) (use assms row_evolves_fields in blast)+

lemma ev_authorize: "evolves (on_db (ledger_step E)) (authorize E txn p)"
  unfolding authorize_def
  by (intro ledger.ev_rules ledger.db_session ev_set_state ev_update_row ledger.db_keeps [OF keeps_issue_authorization])
    (simp_all add: row_evolves_def moves_refl)

lemma ev_get_row: "evolves (on_db (ledger_step E)) (get_row pa)"
  unfolding get_row_def db_get_def by (intro ledger.ev_rules)

lemma ev_consume_token: "evolves (on_db (ledger_step E)) (consume_token E pa)"
  unfolding consume_token_def
  by (intro ledger.ev_rules ledger.db_session ev_get_row ev_update_row)
    (simp add: row_evolves_def moves_refl)

lemma ev_after_call: "evolves (on_db (ledger_step E)) (after_call E txn r)"
  unfolding after_call_def Let_def by (intro ledger.ev_rules ev_set_state)

lemma ev_http_charge: "evolves (on_db (ledger_step E)) (http_call E (serve_charge E b a))"
  by (intro ledger.db_keeps keeps_http_call keeps_serve_charge) simp_all

lemma ev_http_get: "evolves (on_db (ledger_step E)) (http_call E (serve_get pa))"
  by (intro ledger.db_keeps keeps_http_call keeps_serve_get) simp_all

lemma ev_submit: "evolves (on_db (ledger_step E)) (submit E txn tok)"
  unfolding submit_def
  by (intro ledger.ev_rules ev_consume_token ev_set_state ev_http_charge ev_after_call)

lemma ev_reconcile_one: "evolves (on_db (ledger_step E)) (reconcile_one E n pa)"
  unfolding reconcile_one_def by (intro ledger.ev_rules ev_http_get ev_set_state)

lemma ev_reconcile: "evolves (on_db (ledger_step E)) (reconcile_unknown E m)"
  unfolding reconcile_unknown_def db_get_def
  by (intro ledger.ev_rules ledger.db_session ev_reconcile_one)

lemma ev_expire: "evolves (on_db (ledger_step E)) (expire_stale_authorizations E)"
  unfolding expire_stale_authorizations_def db_get_def
  by (intro ledger.ev_rules ledger.db_session ev_set_state)

lemmas ledger_ops = ev_set_state ev_persist ev_authorize ev_submit ev_reconcile ev_expire

section \<open>Frames: the provider\<close>

lemma keeps_set_state [evo]: "ignores_store f \<Longrightarrow> ignores_db f \<Longrightarrow> evolves (keeps f) (set_state E pa t ref det a)"
  unfolding set_state_def transition_row_def get_row_def assert_transition_def update_row_def
  by (intro frame.ev_rules keeps_session keeps_record_event keeps_db_get keeps_db_modify)

lemma keeps_persist [evo]: "ignores_db f \<Longrightarrow> evolves (keeps f) (persist_transaction E txn d rs st rk p)"
  unfolding persist_transaction_def insert_txn_def
  by (intro frame.ev_rules keeps_session keeps_db_get keeps_db_modify)

lemma keeps_authorize [evo]: "ignores_store f \<Longrightarrow> ignores_db f \<Longrightarrow> evolves (keeps f) (authorize E txn p)"
  unfolding authorize_def update_row_def
  by (intro frame.ev_rules keeps_session keeps_set_state keeps_db_modify keeps_issue_authorization ignores_store_clock)

lemma keeps_consume [evo]: "ignores_db f \<Longrightarrow> evolves (keeps f) (consume_token E pa)"
  unfolding consume_token_def update_row_def get_row_def
  by (intro frame.ev_rules keeps_session keeps_db_get keeps_db_modify)

lemma keeps_after_call [evo]: "ignores_store f \<Longrightarrow> ignores_db f \<Longrightarrow> evolves (keeps f) (after_call E txn r)"
  unfolding after_call_def Let_def by (intro frame.ev_rules keeps_set_state)

lemma keeps_reconcile [evo]: "ignores_store f \<Longrightarrow> ignores_db f \<Longrightarrow> evolves (keeps f) (reconcile_unknown E m)"
  unfolding reconcile_unknown_def reconcile_one_def
  by (intro frame.ev_rules keeps_session keeps_db_get keeps_set_state keeps_http_call keeps_serve_get ignores_store_clock)

lemma keeps_expire [evo]: "ignores_store f \<Longrightarrow> ignores_db f \<Longrightarrow> evolves (keeps f) (expire_stale_authorizations E)"
  unfolding expire_stale_authorizations_def
  by (intro frame.ev_rules keeps_session keeps_db_get keeps_set_state)

lemma keeps_check_duplicate [evo]: "ignores_store f \<Longrightarrow> evolves (keeps f) (check_duplicate E txn)"
  unfolding check_duplicate_def check_fingerprint_def
  by (intro frame.ev_rules keeps_store_get) (auto intro!: frame.ev_rules keeps_store_get split: sval.splits)

lemma keeps_remember [evo]: "ignores_store f \<Longrightarrow> evolves (keeps f) (remember_outcome E txn r b)"
  unfolding remember_outcome_def by (intro frame.ev_rules keeps_store_set)

end
