(* ===== verification/Events.thy ===== *)
theory Events
  imports World
begin

text \<open>
  \<open>gateway/events.py\<close>: the stage events of one request. Publishing hands an event to a
  background task (\<open>outbox\<close>, in the order the boundaries were crossed); it returns nothing and
  raises nothing.
\<close>

definition new_emitter :: "string \<Rightarrow> unit act" where
  "new_emitter request_id = modifyE (\<lambda>w. w\<lparr>emitter := \<lparr>em_request_id = request_id, em_pa_id = '''',
     em_started = Map.empty, em_t0 = now w, em_seq = 0\<rparr>\<rparr>)"

definition publish :: "stage \<Rightarrow> stage_status \<Rightarrow> (string \<times> json) list \<Rightarrow> int option \<Rightarrow> unit act" where
  "publish st status detail latency = modifyE (\<lambda>w. let em = emitter w; n = Suc (em_seq em) in
     w\<lparr>emitter := em\<lparr>em_seq := n\<rparr>,
       outbox := outbox w @ [\<lparr>ev_seq = n, ev_request_id = em_request_id em, ev_pa_id = em_pa_id em,
         ev_stage = st, ev_status = status, ev_latency_ms = latency,
         ev_elapsed_ms = \<lfloor>(now w - em_t0 em) * 1000\<rfloor>, ev_detail = detail\<rparr>]\<rparr>)"

definition em_start :: "stage \<Rightarrow> unit act" where
  "em_start st = thenE (modifyE (\<lambda>w. w\<lparr>emitter := (emitter w)\<lparr>em_started := (em_started (emitter w))(st \<mapsto> now w)\<rparr>\<rparr>))
     (publish st STARTED [] None)"

text \<open>\<open>if started\<close>: a start time of exactly 0 counts as missing.\<close>

definition em_finish :: "stage \<Rightarrow> stage_status \<Rightarrow> (string \<times> json) list \<Rightarrow> unit act" where
  "em_finish st status detail = bindE (asks (\<lambda>w. case em_started (emitter w) st of
       None \<Rightarrow> None | Some t \<Rightarrow> if t = 0 then None else Some \<lfloor>(now w - t) * 1000\<rfloor>))
     (publish st status detail)"

definition stages_after :: "stage \<Rightarrow> stage list" where
  "stages_after st = tl (dropWhile (\<lambda>s. s \<noteq> st) STAGE_ORDER)"

definition skip_remaining :: "stage \<Rightarrow> string list \<Rightarrow> unit act" where
  "skip_remaining after codes = forE (stages_after after) (\<lambda>st.
     publish st SKIPPED [(''reason_codes'', JList (map JStr codes)), (''never_reached'', JBool True)] None)"

definition em_set_pa :: "string \<Rightarrow> unit act" where
  "em_set_pa pa = modifyE (\<lambda>w. w\<lparr>emitter := (emitter w)\<lparr>em_pa_id := pa\<rparr>\<rparr>)"

definition ignores_events :: "(world \<Rightarrow> 'b) \<Rightarrow> bool" where
  "ignores_events f \<longleftrightarrow> (\<forall>w e. f (w\<lparr>emitter := e\<rparr>) = f w) \<and> (\<forall>w l. f (w\<lparr>outbox := l\<rparr>) = f w)"

lemma ignores_events_simps [simp]: "ignores_events provider" "ignores_events db" "ignores_events store"
  "ignores_events checkpoints"
  by (simp_all add: ignores_events_def)

lemma keeps_publish [evo]: "ignores_events f \<Longrightarrow> evolves (keeps f) (publish st s d l)"
  by (simp add: publish_def evolves_def keeps_def ignores_events_def Let_def)

lemma keeps_new_emitter [evo]: "ignores_events f \<Longrightarrow> evolves (keeps f) (new_emitter r)"
  by (simp add: new_emitter_def evolves_def keeps_def ignores_events_def)

lemma keeps_em_start [evo]: "ignores_events f \<Longrightarrow> evolves (keeps f) (em_start st)"
  unfolding em_start_def by (intro frame.ev_rules frame.ev_modify keeps_publish) (simp_all add: keeps_def ignores_events_def)

lemma keeps_em_finish [evo]: "ignores_events f \<Longrightarrow> evolves (keeps f) (em_finish st s d)"
  unfolding em_finish_def by (intro frame.ev_rules keeps_publish)

lemma keeps_skip [evo]: "ignores_events f \<Longrightarrow> evolves (keeps f) (skip_remaining st c)"
  unfolding skip_remaining_def by (intro frame.ev_rules keeps_publish)

lemma keeps_em_set_pa [evo]: "ignores_events f \<Longrightarrow> evolves (keeps f) (em_set_pa pa)"
  by (simp add: em_set_pa_def evolves_def keeps_def ignores_events_def)

text \<open>None of them can raise.\<close>

lemma emit_total: "\<exists>w'. em_start st w = (Inr (), w')" "\<exists>w'. em_finish st s d w = (Inr (), w')"
  "\<exists>w'. new_emitter r w = (Inr (), w')" "\<exists>w'. em_set_pa pa w = (Inr (), w')" "\<exists>w'. publish st s d l w = (Inr (), w')"
  by (auto simp: em_start_def em_finish_def new_emitter_def em_set_pa_def publish_def thenE_def bindE_def)

lemma for_total: "(\<And>x w. \<exists>w'. f x w = (Inr (), w')) \<Longrightarrow> \<exists>w'. forE xs f w = (Inr (), w')"
proof (induction xs arbitrary: w)
  case (Cons x xs)
  then obtain w1 where "f x w = (Inr (), w1)" by blast
  with Cons.IH [OF Cons.prems, of w1] show ?case by (auto simp: thenE_def bindE_def)
qed simp

lemma skip_total: "\<exists>w'. skip_remaining st c w = (Inr (), w')"
  unfolding skip_remaining_def by (rule for_total) (rule emit_total(5))

section \<open>Sequence numbers\<close>

text \<open>The numbers of one request's events are consecutive, in the order they were emitted.\<close>

definition seq_ordered :: "world \<Rightarrow> world \<Rightarrow> bool" where
  "seq_ordered w w' \<longleftrightarrow> (\<exists>new. outbox w' = outbox w @ new \<and> em_seq (emitter w') = em_seq (emitter w) + length new \<and>
     map ev_seq new = [Suc (em_seq (emitter w))..<Suc (em_seq (emitter w) + length new)])"

interpretation seqs: evolution seq_ordered
proof
  show "seq_ordered s s" for s by (simp add: seq_ordered_def)
  show "seq_ordered s u" if "seq_ordered s t" "seq_ordered t u" for s t u
  proof -
    from that obtain a b where a: "outbox t = outbox s @ a" "em_seq (emitter t) = em_seq (emitter s) + length a"
        "map ev_seq a = [Suc (em_seq (emitter s))..<Suc (em_seq (emitter s) + length a)]"
      and b: "outbox u = outbox t @ b" "em_seq (emitter u) = em_seq (emitter t) + length b"
        "map ev_seq b = [Suc (em_seq (emitter t))..<Suc (em_seq (emitter t) + length b)]"
      unfolding seq_ordered_def by blast
    have "[Suc (em_seq (emitter s))..<Suc (em_seq (emitter s) + length (a @ b))] =
        [Suc (em_seq (emitter s))..<Suc (em_seq (emitter s) + length a)] @
        [Suc (em_seq (emitter s) + length a)..<Suc (em_seq (emitter s) + length a + length b)]"
      using upt_add_eq_append [of "Suc (em_seq (emitter s))" "Suc (em_seq (emitter s) + length a)" "length b"]
      by (simp add: add.assoc del: upt_Suc)
    with a b show ?thesis unfolding seq_ordered_def by (intro exI [of _ "a @ b"]) (simp del: upt_Suc)
  qed
qed

lemma seq_publish: "evolves seq_ordered (publish st s d l)"
  by (auto simp: evolves_def seq_ordered_def publish_def Let_def)

lemma seq_emit: "evolves seq_ordered (em_start st)" "evolves seq_ordered (em_finish st s d)"
  "evolves seq_ordered (skip_remaining st c)" "evolves seq_ordered (em_set_pa pa)"
  unfolding em_start_def em_finish_def skip_remaining_def em_set_pa_def
  by (intro seqs.ev_rules seqs.ev_modify seq_publish; simp add: seq_ordered_def)+

lemma seq_keeps: "evolves (keeps emitter) m \<Longrightarrow> evolves (keeps outbox) m \<Longrightarrow> evolves seq_ordered m"
  by (auto simp: evolves_def keeps_def seq_ordered_def)

end
