(* ===== verification/Checkpoint.thy ===== *)
theory Checkpoint
  imports Auditlog
begin

text \<open>
  \<open>gateway/checkpoint.py\<close> and the two audit routes that use it: the head of the chain is
  appended to a second, independent store, and the main log's prefix is compared with it.
\<close>

definition is_configured :: "env \<Rightarrow> bool" where
  "is_configured E \<longleftrightarrow> cfg_checkpoint_database_url (e_cfg E) \<noteq> ''''"

datatype anchor_result = NotAnchored string | AnchorFailed string
  | Anchored nat nat string real

definition next_ck_seq :: "checkpoint_row list \<Rightarrow> nat" where
  "next_ck_seq cks = Suc (foldr max (map ck_seq cks) 0)"

text \<open>Any failure of the second store is caught: anchoring is outside the payment path.\<close>

definition anchor_checkpoint :: "env \<Rightarrow> string \<Rightarrow> nat \<Rightarrow> anchor_result act" where
  "anchor_checkpoint E head events = (\<lambda>w.
     if \<not> is_configured E then (Inr (NotAnchored head), w)
     else let w' = tick E w in
       if e_db_ok E (ops w) then
         (let row = \<lparr>ck_seq = next_ck_seq (checkpoints w'), ck_chain_events = events,
                      ck_head_hash = head, ck_created_at = now w'\<rparr>
          in (Inr (Anchored (ck_seq row) events head (now w')),
              w'\<lparr>checkpoints := checkpoints w' @ [row]\<rparr>))
       else (Inr (AnchorFailed head), w'))"

text \<open>\<open>order_by(seq.desc()).limit(1)\<close>.\<close>

definition newest :: "checkpoint_row list \<Rightarrow> checkpoint_row option" where
  "newest cks = (if cks = [] then None else Some (last (sort_key ck_seq cks)))"

definition latest_checkpoint :: "env \<Rightarrow> checkpoint_row option act" where
  "latest_checkpoint E = (\<lambda>w. if \<not> is_configured E then (Inr None, w)
     else let w' = tick E w in
       if e_db_ok E (ops w) then (Inr (newest (checkpoints w')), w') else (Inl DbDown, w'))"

datatype anchor_report = NotConfigured | NoCheckpoints
  | AgainstAnchor bool string nat "string option" bool

definition compare_anchor :: "checkpoint_row \<Rightarrow> chain_report \<Rightarrow> anchor_report" where
  "compare_anchor c report = AgainstAnchor
     (is_valid_report report \<and> report_head report = Some (ck_head_hash c))
     (ck_head_hash c) (ck_chain_events c) (report_head report) (is_valid_report report)"

definition verify_against_checkpoints :: "env \<Rightarrow> anchor_report act" where
  "verify_against_checkpoints E = (if \<not> is_configured E then ret NotConfigured
     else bindE (latest_checkpoint E) (\<lambda>latest. case latest of
       None \<Rightarrow> ret NoCheckpoints
     | Some c \<Rightarrow> bindE (verify_chain E (Some (ck_chain_events c))) (\<lambda>p. ret (compare_anchor c p))))"

fun anchor_matches :: "anchor_report \<Rightarrow> bool" where
  "anchor_matches (AgainstAnchor m _ _ _ _) \<longleftrightarrow> m"
| "anchor_matches _ \<longleftrightarrow> False"

section \<open>The routes\<close>

definition audit_verify :: "env \<Rightarrow> (chain_report \<times> (nat \<times> string) \<times> anchor_report \<times> anchor_result) act" where
  "audit_verify E = bindE (verify_chain E None) (\<lambda>result. bindE (chain_head E) (\<lambda>(events, head).
     bindE (verify_against_checkpoints E) (\<lambda>against. bindE (anchor_checkpoint E head events) (\<lambda>checkpoint.
       ret (result, (events, head), against, checkpoint)))))"

definition audit_checkpoint :: "env \<Rightarrow> anchor_result act" where
  "audit_checkpoint E = bindE (chain_head E) (\<lambda>(events, head). anchor_checkpoint E head events)"

section \<open>What an anchor establishes\<close>

text \<open>The row \<open>anchor_checkpoint\<close> writes for a log.\<close>

definition anchors :: "checkpoint_row \<Rightarrow> audit_row list \<Rightarrow> bool" where
  "anchors c rows \<longleftrightarrow> ck_chain_events c = length rows \<and> ck_head_hash c = head_hash rows"

text \<open>\<open>sha256(...).hexdigest()\<close> has 64 characters.\<close>

definition sha_len :: "(string \<Rightarrow> string) \<Rightarrow> bool" where
  "sha_len H \<longleftrightarrow> (\<forall>x. length (H x) = length GENESIS_HASH)"

lemma newest_snoc: "newest (cks @ [\<lparr>ck_seq = next_ck_seq cks, ck_chain_events = n, ck_head_hash = h, ck_created_at = t\<rparr>])
   = Some \<lparr>ck_seq = next_ck_seq cks, ck_chain_events = n, ck_head_hash = h, ck_created_at = t\<rparr>"
  (is "newest (cks @ [?r]) = _")
proof -
  have b: "x \<in> set cks \<Longrightarrow> ck_seq x \<le> foldr max (map ck_seq cks) 0" for x by (induction cks) auto
  have "sort_key ck_seq (cks @ [?r]) = sort_key ck_seq cks @ [?r]"
  proof (rule properties_for_sort_key)
    show "sorted (map ck_seq (sort_key ck_seq cks @ [?r]))"
      using b by (auto simp: sorted_append next_ck_seq_def le_SucI)
    show "filter (\<lambda>y. ck_seq k = ck_seq y) (sort_key ck_seq cks @ [?r]) = filter (\<lambda>y. ck_seq k = ck_seq y) (cks @ [?r])" for k
      using sort_key_stable [of ck_seq "ck_seq k" cks] by (simp add: eq_commute [of "ck_seq k"])
  qed simp
  then show ?thesis by (simp add: newest_def)
qed

lemma by_seq_length [simp]: "length (by_seq rows) = length rows" by (simp add: by_seq_def)

lemma prefix_by_seq:
  assumes "prefix rows rows'" "sorted_wrt (\<lambda>a b. ae_seq a < ae_seq b) rows'"
  shows "take (length rows) (by_seq rows') = by_seq rows"
proof -
  have s: "sorted_wrt (\<lambda>a b. ae_seq a < ae_seq b) xs \<Longrightarrow> by_seq xs = xs" for xs
    unfolding by_seq_def by (rule sort_key_id_if_sorted) (auto simp: sorted_map intro: sorted_wrt_mono_rel [rotated])
  from assms obtain zs where "rows' = rows @ zs" by (auto simp: prefix_def)
  with assms(2) s show ?thesis by (simp add: sorted_wrt_append)
qed

lemma anchor_match_linked:
  assumes "anchors c rows" "rows \<noteq> []"
    and "anchor_matches (compare_anchor c (verify_rows E (Some (ck_chain_events c)) rows'))"
  shows "linked (e_H E) (e_frepr E) GENESIS_HASH (take (length rows) (by_seq rows'))"
    "chain_end GENESIS_HASH (take (length rows) (by_seq rows')) = chain_end GENESIS_HASH (by_seq rows)"
proof -
  have "report_head (verify_rows E (Some (ck_chain_events c)) rows') = Some (head_hash rows)"
    using assms by (simp add: compare_anchor_def anchors_def)
  then have v: "report_head (verify_from (e_H E) (e_frepr E) (length (take (length rows) (by_seq rows')))
      GENESIS_HASH (take (length rows) (by_seq rows'))) = Some (head_hash rows)"
    using assms(1,2) by (simp add: verify_rows_def Let_def limited_def anchors_def)
  from verify_from_head [OF v]
  show "linked (e_H E) (e_frepr E) GENESIS_HASH (take (length rows) (by_seq rows'))"
    "chain_end GENESIS_HASH (take (length rows) (by_seq rows')) = chain_end GENESIS_HASH (by_seq rows)"
    by (simp_all add: head_hash_end)
qed

lemma anchor_binds_prefix:
  assumes "sha_len (e_H E)" "float_repr_ok F (e_frepr E)"
    and fl: "\<forall>r \<in> set rows \<union> set rows'. json_floats (body_json r) \<subseteq> F"
    and "anchors c rows" "rows \<noteq> []" "log_valid E rows" "length rows \<le> length rows'"
    and "anchor_matches (compare_anchor c (verify_rows E (Some (ck_chain_events c)) rows'))"
  shows "map content (take (length rows) (by_seq rows')) = map content (by_seq rows) \<or>
    collide_in (e_H E) (hashed_texts (e_frepr E) GENESIS_HASH (take (length rows) (by_seq rows')))
      (hashed_texts (e_frepr E) GENESIS_HASH (by_seq rows))"
proof -
  have "set (take (length rows) (by_seq rows')) \<subseteq> set rows'" "set (by_seq rows) = set rows"
    using set_take_subset [of "length rows" "by_seq rows'"] by (simp_all add: by_seq_def)
  then have "\<forall>r \<in> set (take (length rows) (by_seq rows')) \<union> set (by_seq rows). json_floats (body_json r) \<subseteq> F"
    using fl by blast
  then show ?thesis
    using anchor_match_linked [OF assms(4,5,8)] assms(1,6,7)
    by (intro linked_binds [OF assms(2)]) (simp_all add: sha_len_def log_valid_def)
qed

text \<open>And no false alarm, as long as the anchor is not the one of an empty log.\<close>

lemma anchor_no_false_alarm:
  assumes "anchors c rows" "rows \<noteq> []" "log_valid E rows" "take (length rows) (by_seq rows') = by_seq rows"
  shows "anchor_matches (compare_anchor c (verify_rows E (Some (ck_chain_events c)) rows'))"
  using assms verify_from_valid(2) [of "e_H E" "e_frepr E" GENESIS_HASH "by_seq rows"]
  by (simp add: compare_anchor_def anchors_def verify_rows_def Let_def limited_def log_valid_def head_hash_end)

text \<open>
  An anchor of the empty log asks for \<open>verify_chain(limit=0)\<close>, which is no limit: as soon as
  one event has been appended the check compares the head of the whole log with the genesis
  hash and reports an alteration.
\<close>

lemma empty_anchor_compares_whole_log:
  assumes "anchors c []" "rows' \<noteq> []" "head_hash rows' \<noteq> GENESIS_HASH"
  shows "\<not> anchor_matches (compare_anchor c (verify_rows E (Some (ck_chain_events c)) rows'))"
proof
  assume "anchor_matches (compare_anchor c (verify_rows E (Some (ck_chain_events c)) rows'))"
  with assms(1) have "report_head (verify_from (e_H E) (e_frepr E) (length rows') GENESIS_HASH (by_seq rows')) = Some GENESIS_HASH"
    by (simp add: compare_anchor_def anchors_def head_hash_def verify_rows_def Let_def limited_def)
  from verify_from_head [OF this] assms(3) show False by (simp add: head_hash_end)
qed

lemma keeps_anchor: "ignores_clock f \<Longrightarrow> (\<And>w c. f (w\<lparr>checkpoints := c\<rparr>) = f w) \<Longrightarrow> evolves (keeps f) (anchor_checkpoint E h n)"
  by (auto simp: anchor_checkpoint_def evolves_def keeps_def Let_def tick_keeps)

lemma anchor_total: "\<exists>r w'. anchor_checkpoint E h n w = (Inr r, w')"
  by (auto simp: anchor_checkpoint_def Let_def)

end
