(* ===== verification/Pipeline.thy ===== *)
theory Pipeline
  imports Ledger Events Checkpoint
begin

text \<open>
  \<open>gateway/routes/payments.py\<close>: the seven-stage pipeline of a payment intent, in the order and
  with the locks, early returns and exception clauses of the code, and the other routes of the
  enforcement plane.
\<close>

section \<open>Responses\<close>

definition empty_risk :: "string \<Rightarrow> risk_assessment" where
  "empty_risk policy_version = \<lparr>signals = no_signals, weighted_score = 0, policy_version_context = policy_version\<rparr>"

definition response :: "string \<Rightarrow> decision \<Rightarrow> string list \<Rightarrow> payment_state \<Rightarrow> risk_assessment \<Rightarrow> string \<Rightarrow> decision_response" where
  "response pa d codes st risk policy = \<lparr>rsp_payment_authorization_id = pa, rsp_decision = d, rsp_reason_codes = codes,
     rsp_state = st, rsp_risk = risk, rsp_policy_version = policy, rsp_authorization = None,
     rsp_provider_reference = None, rsp_audit_event_id = None, rsp_audit_hash = None, rsp_replayed = False,
     rsp_message = ''''\<rparr>"

definition codes_json :: "string list \<Rightarrow> string \<times> json" where
  "codes_json codes = (''reason_codes'', JList (map JStr codes))"

definition new_pa_id :: "env \<Rightarrow> string act" where
  "new_pa_id E = bindE (uuid4_hex E) (\<lambda>u. ret (''pa_'' @ take 20 u))"

definition blocked_before_pipeline :: "env \<Rightarrow> payment_intent \<Rightarrow> string list \<Rightarrow> string \<Rightarrow> string \<Rightarrow> decision_response act" where
  "blocked_before_pipeline E intent codes message stage_name = (let policy = cfg_policy_version (e_cfg E) in
     bindE (new_pa_id E) (\<lambda>pa. bindE (record_event_safe E ((event ''decision.block'')\<lparr>ei_pa_id := Some pa,
         ei_user_id := Some (pi_user_id intent), ei_agent_id := Some (pi_agent_id intent),
         ei_decision := Some ''BLOCK'', ei_reason_codes := codes, ei_policy_version := Some policy,
         ei_payload := JObj [(''stage'', JStr stage_name), (''message'', JStr message)]\<rparr>)) (\<lambda>(i, h).
       ret ((response pa BLOCK codes FAILED (empty_risk policy) policy)\<lparr>rsp_audit_event_id := i, rsp_audit_hash := h,
         rsp_message := message\<rparr>))))"

section \<open>The stages inside the lock\<close>

definition replay_stored :: "env \<Rightarrow> canonical_txn \<Rightarrow> decision_response \<Rightarrow> decision_response act" where
  "replay_stored E txn r =
     thenE (em_finish CANONICAL PASSED [(''idempotent_replay'', JBool True), (''idempotency_key'', JStr (ct_idempotency_key txn))])
     (thenE (skip_remaining CANONICAL [''IDEMPOTENT_REPLAY''])
     (thenE (record_event_safe E ((event ''decision.idempotent_replay'')\<lparr>
         ei_pa_id := Some (rsp_payment_authorization_id r), ei_user_id := Some (ct_user_id txn),
         ei_agent_id := Some (ct_agent_id txn), ei_decision := Some (decision_str (rsp_decision r)),
         ei_reason_codes := [''IDEMPOTENT_REPLAY''], ei_policy_version := Some (cfg_policy_version (e_cfg E)),
         ei_payload := JObj [(''idempotency_key'', JStr (ct_idempotency_key txn))]\<rparr>))
       (ret (r\<lparr>rsp_replayed := True, rsp_message := ''idempotent replay: identical stored response returned''\<rparr>))))"

record evidence =
  ev_analysis :: analysis_result
  ev_context :: policy_context
  ev_risk :: risk_assessment
  ev_verdict :: pdp_result

fun verdict_status :: "decision \<Rightarrow> stage_status" where
  "verdict_status ALLOW = PASSED"
| "verdict_status REQUIRE_APPROVAL = PAUSED"
| "verdict_status BLOCK = BLOCKED"

definition policy_input :: "env \<Rightarrow> canonical_txn \<Rightarrow> agent_identity \<Rightarrow> policy_context \<Rightarrow> analysis_result \<Rightarrow>
    duplicate_finding \<Rightarrow> approval_finding \<Rightarrow> pdp_input" where
  "policy_input E txn identity ctx analysis duplicate approval =
     build_input txn ctx analysis (assess txn ctx analysis)
       \<lparr>if_valid = True, if_user_id = id_user_id identity, if_reason_codes = []\<rparr> duplicate approval
       (cfg_allow_degraded_classifier (e_cfg E)) (cfg_degraded_requires_review (e_cfg E))"

text \<open>Stages 3 to 5: analysis, facts, risk, and the one decision.\<close>

definition decide :: "env \<Rightarrow> canonical_txn \<Rightarrow> agent_identity \<Rightarrow> duplicate_finding \<Rightarrow> evidence act" where
  "decide E txn identity duplicate =
     thenE (em_start ANALYZER) (bindE (analyze E txn) (\<lambda>analysis.
     thenE (em_finish ANALYZER PASSED (analysis_fields analysis))
     (thenE (em_start RISK) (bindE (load_context E txn) (\<lambda>ctx. let risk = assess txn ctx analysis in
     thenE (em_finish RISK PASSED [(''signals'', signals_json (signals risk)), (''weighted_score'', JFloat (weighted_score risk))])
     (bindE (evaluate_token E (ct_approval_token txn)) (\<lambda>approval.
     thenE (em_start PDP) (bindE (evaluate E (policy_input E txn identity ctx analysis duplicate approval)) (\<lambda>verdict.
     thenE (em_finish PDP (verdict_status (pr_decision verdict)) [(''decision'', JStr (decision_str (pr_decision verdict))),
         codes_json (pr_reason_codes verdict), (''policy_version'', JStr (pr_policy_version verdict)),
         (''pdp_available'', JBool (pr_available verdict))])
       (ret \<lparr>ev_analysis = analysis, ev_context = ctx, ev_risk = risk, ev_verdict = verdict\<rparr>))))))))))"

definition block_branch :: "env \<Rightarrow> canonical_txn \<Rightarrow> pdp_result \<Rightarrow> decision_response \<Rightarrow> decision_response act" where
  "block_branch E txn verdict rsp =
     thenE (set_state E (ct_pa_id txn) FAILED None (Some (take 200 (join ''; '' (pr_reason_codes verdict)))) False)
     (thenE (em_finish AUTHORIZATION SKIPPED [codes_json (pr_reason_codes verdict), (''token_issued'', JBool False),
         (''provider_contacted'', JBool False), (''never_reached'', JBool True)])
       (ret (rsp\<lparr>rsp_state := FAILED, rsp_message := ''blocked by policy; no token issued, provider not contacted''\<rparr>)))"

definition approval_branch :: "env \<Rightarrow> canonical_txn \<Rightarrow> pdp_result \<Rightarrow> decision_response \<Rightarrow> decision_response act" where
  "approval_branch E txn verdict rsp =
     bindE (create_request E txn (pr_reason_codes verdict)) (\<lambda>request.
     thenE (em_finish AUTHORIZATION PAUSED [codes_json (pr_reason_codes verdict),
         (''approval_request_id'', JStr (ar_id request)), (''token_issued'', JBool False), (''provider_contacted'', JBool False)])
       (ret (rsp\<lparr>rsp_state := CREATED, rsp_message := ''human approval required; approve at /v1/approvals/'' @
          ar_id request @ ''/grant then retry with the returned approval_token''\<rparr>)))"

definition authorization_of :: "canonical_txn \<Rightarrow> issued_token \<Rightarrow> string \<Rightarrow> authorization_token" where
  "authorization_of txn token policy = \<lparr>at_token = it_token token, at_payment_authorization_id = ct_pa_id txn,
     at_merchant_id = ct_merchant_id txn, at_amount = ct_amount txn, at_currency = ct_currency txn,
     at_cart_hash = ct_cart_hash txn, at_expires_at = it_expires_at token, at_policy_version = policy\<rparr>"

definition with_outcome :: "provider_outcome \<Rightarrow> decision_response \<Rightarrow> decision_response" where
  "with_outcome p rsp = rsp\<lparr>rsp_state := po_state p, rsp_provider_reference := po_reference p,
     rsp_message := (if po_state p = UNKNOWN
       then ''provider did not respond; payment is UNKNOWN and queued for reconciliation. This is not a success.''
       else if po_detail p \<noteq> '''' then po_detail p else ''payment confirmed'')\<rparr>"

definition allow_branch :: "env \<Rightarrow> canonical_txn \<Rightarrow> pdp_result \<Rightarrow> bool \<Rightarrow> decision_response \<Rightarrow> decision_response act" where
  "allow_branch E txn verdict execute rsp =
     thenE (record_velocity E txn) (bindE (authorize E txn (pr_policy_version verdict)) (\<lambda>token.
       let rsp1 = rsp\<lparr>rsp_state := AUTHORIZED, rsp_authorization := Some (authorization_of txn token (pr_policy_version verdict))\<rparr> in
       bindE (if execute then bindE (submit E txn token) (\<lambda>p. ret (with_outcome p rsp1))
              else ret (rsp1\<lparr>rsp_message := ''authorized; token issued, not submitted''\<rparr>)) (\<lambda>rsp2.
         thenE (em_finish AUTHORIZATION PASSED [(''token_issued'', JBool True), (''provider_contacted'', JBool execute),
             (''state'', JStr (state_str (rsp_state rsp2))), (''provider_reference'', jopt JStr (rsp_provider_reference rsp2))])
           (ret rsp2))))"

definition authorization_stage :: "env \<Rightarrow> canonical_txn \<Rightarrow> pdp_result \<Rightarrow> bool \<Rightarrow> decision_response \<Rightarrow> decision_response act" where
  "authorization_stage E txn verdict execute rsp = thenE (em_start AUTHORIZATION) (case pr_decision verdict of
       BLOCK \<Rightarrow> block_branch E txn verdict rsp
     | REQUIRE_APPROVAL \<Rightarrow> approval_branch E txn verdict rsp
     | ALLOW \<Rightarrow> allow_branch E txn verdict execute rsp)"

definition decision_event :: "canonical_txn \<Rightarrow> evidence \<Rightarrow> payment_state \<Rightarrow> event_in" where
  "decision_event txn v st = (let d = decision_str (pr_decision (ev_verdict v)) in
     (event (''decision.'' @ lower d))\<lparr>ei_pa_id := Some (ct_pa_id txn), ei_user_id := Some (ct_user_id txn),
       ei_agent_id := Some (ct_agent_id txn), ei_decision := Some d, ei_reason_codes := pr_reason_codes (ev_verdict v),
       ei_risk := risk_json (ev_risk v), ei_policy_version := Some (pr_policy_version (ev_verdict v)),
       ei_payload := JObj [(''merchant_id'', JStr (ct_merchant_id txn)), (''amount'', JStr (dec_str (ct_amount txn))),
         (''currency'', JStr (ct_currency txn)), (''cart_hash'', JStr (ct_cart_hash txn)),
         (''fingerprint'', JStr (ct_fingerprint txn)), (''idempotency_key'', JStr (ct_idempotency_key txn)),
         (''state'', JStr (state_str st)), (''analysis'', analysis_json (ev_analysis v)),
         (''context'', context_json (ev_context v)), (''pdp_available'', JBool (pr_available (ev_verdict v)))]\<rparr>)"

definition audit_stage :: "env \<Rightarrow> canonical_txn \<Rightarrow> evidence \<Rightarrow> decision_response \<Rightarrow> decision_response act" where
  "audit_stage E txn v rsp = thenE (em_start AUDIT)
     (bindE (record_event_safe E (decision_event txn v (rsp_state rsp))) (\<lambda>(i, h).
       thenE (em_finish AUDIT (if nonempty i then PASSED else STAGE_FAILED) [(''audit_event_id'', jopt JStr i),
           (''audit_hash'', jopt JStr h), (''decision'', JStr (decision_str (pr_decision (ev_verdict v)))),
           codes_json (pr_reason_codes (ev_verdict v))])
         (ret (rsp\<lparr>rsp_audit_event_id := i, rsp_audit_hash := h\<rparr>))))"

text \<open>After the decision: persist, authorize, audit, remember.\<close>

definition carry_out :: "env \<Rightarrow> canonical_txn \<Rightarrow> idempotency_outcome \<Rightarrow> bool \<Rightarrow> evidence \<Rightarrow> decision_response act" where
  "carry_out E txn dup execute v = (let verdict = ev_verdict v in
     thenE (persist_transaction E txn (decision_str (pr_decision verdict)) (pr_reason_codes verdict) CREATED
              (ev_risk v) (pr_policy_version verdict))
     (bindE (authorization_stage E txn verdict execute
               (response (ct_pa_id txn) (pr_decision verdict) (pr_reason_codes verdict) CREATED (ev_risk v) (pr_policy_version verdict)))
       (\<lambda>rsp. bindE (audit_stage E txn v rsp) (\<lambda>rsp'.
         thenE (if \<not> is_conflict dup \<and> pr_decision verdict \<noteq> REQUIRE_APPROVAL
                then remember_outcome E txn rsp' (pr_decision verdict = ALLOW) else ret ())
           (ret rsp')))))"

definition run_pipeline :: "env \<Rightarrow> canonical_txn \<Rightarrow> agent_identity \<Rightarrow> bool \<Rightarrow> decision_response act" where
  "run_pipeline E txn identity execute = bindE (check_duplicate E txn) (\<lambda>dup. case io_replay dup of
       Some r \<Rightarrow> replay_stored E txn r
     | None \<Rightarrow> bindE (decide E txn identity (io_finding dup)) (carry_out E txn dup execute))"

section \<open>Stages 1 and 2 and the locks\<close>

definition idem_lock_key :: "canonical_txn \<Rightarrow> string" where
  "idem_lock_key txn = ''idem:'' @ ct_user_id txn @ '':'' @ ct_idempotency_key txn"

definition fp_lock_key :: "canonical_txn \<Rightarrow> string" where
  "fp_lock_key txn = ''fp:'' @ ct_user_id txn @ '':'' @ ct_fingerprint txn"

definition concurrent_response :: "env \<Rightarrow> string \<Rightarrow> decision_response" where
  "concurrent_response E pa = (let policy = cfg_policy_version (e_cfg E) in
     (response pa BLOCK [''CONCURRENT_REQUEST_IN_FLIGHT''] FAILED (empty_risk policy) policy)
       \<lparr>rsp_message := ''another authorization for this idempotency key is in flight''\<rparr>)"

definition enter_pipeline :: "env \<Rightarrow> payment_intent \<Rightarrow> agent_identity \<Rightarrow> bool \<Rightarrow> decision_response act" where
  "enter_pipeline E intent identity execute = thenE (em_start CANONICAL) (bindE (new_pa_id E) (\<lambda>pa.
     bindE (asks (\<lambda>w. build_canonical E intent identity pa (now w))) (\<lambda>txn.
     thenE (em_set_pa pa)
     (thenE (em_finish CANONICAL PASSED [(''payment_authorization_id'', JStr pa), (''cart_hash'', JStr (ct_cart_hash txn)),
         (''fingerprint'', JStr (ct_fingerprint txn)),
         (''untrusted_fields'', JList (map JStr (sort (map fst (untrusted_fields (ct_untrusted txn))))))])
     (bindE (tryE (with_lock E (idem_lock_key txn) None (with_lock E (fp_lock_key txn) (Some 15)
               (run_pipeline E txn identity execute)))) (\<lambda>result. case result of
           Inr r \<Rightarrow> ret r
         | Inl (LockTimeout _) \<Rightarrow> ret (concurrent_response E pa)
         | Inl e \<Rightarrow> raise e))))))"

definition rate_limit_message :: "string \<Rightarrow> int \<Rightarrow> string" where
  "rate_limit_message scope limit = ''edge rate limit exceeded for '' @ scope @ '' ('' @ str_int limit @ ''/min)''"

definition after_identity :: "env \<Rightarrow> payment_intent \<Rightarrow> agent_identity \<Rightarrow> bool \<Rightarrow> decision_response act" where
  "after_identity E intent identity execute =
     thenE (em_finish IDENTITY PASSED [(''agent_id'', JStr (id_agent_id identity)), (''delegation_id'', JStr (id_delegation_id identity))])
     (bindE (tryE (enforce_edge_rate_limit E (id_agent_id identity) (id_delegation_id identity))) (\<lambda>result. case result of
         Inr _ \<Rightarrow> enter_pipeline E intent identity execute
       | Inl (RateLimitError scope limit) \<Rightarrow>
           thenE (em_finish IDENTITY BLOCKED [codes_json [''RATE_LIMIT_EXCEEDED''], (''scope'', JStr scope), (''limit'', JInt limit)])
             (thenE (skip_remaining IDENTITY [''RATE_LIMIT_EXCEEDED''])
               (blocked_before_pipeline E intent [''RATE_LIMIT_EXCEEDED''] (rate_limit_message scope limit) ''edge_rate_limit''))
       | Inl e \<Rightarrow> raise e))"

definition request_id_of :: "env \<Rightarrow> string option \<Rightarrow> string act" where
  "request_id_of E x = (let given = take 128 (case x of None \<Rightarrow> '''' | Some s \<Rightarrow> s) in
     if given \<noteq> '''' then ret given else bindE (uuid4_hex E) (\<lambda>u. ret (''req_'' @ take 16 u)))"

definition create_payment_intent :: "env \<Rightarrow> payment_intent \<Rightarrow> string option \<Rightarrow> string option \<Rightarrow> bool \<Rightarrow> decision_response act" where
  "create_payment_intent E intent authorization x_request_id execute =
     bindE (request_id_of E x_request_id) (\<lambda>rid. thenE (new_emitter rid) (thenE (em_start IDENTITY)
     (bindE (tryE (authenticate E authorization intent)) (\<lambda>result. case result of
         Inr identity \<Rightarrow> after_identity E intent identity execute
       | Inl (IdentityError code message) \<Rightarrow>
           thenE (em_finish IDENTITY BLOCKED [codes_json [''INVALID_IDENTITY'', code]])
             (thenE (skip_remaining IDENTITY [''INVALID_IDENTITY'', code])
               (blocked_before_pipeline E intent [''INVALID_IDENTITY'', code] message ''identity''))
       | Inl e \<Rightarrow> raise e))))"

section \<open>The other routes\<close>

definition get_approval :: "env \<Rightarrow> string \<Rightarrow> json act" where
  "get_approval E i = bindE (load_request E i) (\<lambda>r. case r of
       None \<Rightarrow> raise (HttpError 404 ''unknown or expired approval request'')
     | Some r \<Rightarrow> ret (request_summary r))"

definition grant_approval :: "env \<Rightarrow> string \<Rightarrow> (string \<times> json) act" where
  "grant_approval E i = bindE (grant E i) (\<lambda>token. case token of
       None \<Rightarrow> raise (HttpError 404 ''unknown or expired approval request'')
     | Some t \<Rightarrow> bindE (load_request E i) (\<lambda>request.
         let summary = (case request of None \<Rightarrow> JObj [] | Some r \<Rightarrow> request_summary r) in
         thenE (record_event_safe E ((event ''approval.granted'')\<lparr>ei_pa_id := map_option ar_pa_id request,
             ei_user_id := map_option ar_user_id request, ei_reason_codes := [''HUMAN_APPROVAL_GRANTED''],
             ei_payload := summary\<rparr>))
           (ret (t, summary))))"

definition reconcile :: "env \<Rightarrow> (tally \<times> nat) act" where
  "reconcile E = bindE (reconcile_unknown E 60) (\<lambda>resolved.
     bindE (expire_stale_authorizations E) (\<lambda>expired. ret (resolved, expired)))"

text \<open>\<open>order_by(desc(created_at)).limit(limit)\<close> and \<open>order_by(desc(seq)).limit(limit)\<close>.\<close>

definition list_transactions :: "env \<Rightarrow> nat \<Rightarrow> txn_row list act" where
  "list_transactions E limit = session_scope E
     (db_get (\<lambda>d. take limit (rev (sort_key tr_created_at (txns d)))))"

definition audit_events :: "env \<Rightarrow> nat \<Rightarrow> audit_row list act" where
  "audit_events E limit = session_scope E (db_get (\<lambda>d. take limit (rev (by_seq (audit_log d)))))"

section \<open>The database on every path\<close>

lemma ev_emits:
  "evolves (on_db (ledger_step E)) (em_start st)" "evolves (on_db (ledger_step E)) (em_finish st s d)"
  "evolves (on_db (ledger_step E)) (skip_remaining st c)" "evolves (on_db (ledger_step E)) (em_set_pa pa)"
  "evolves (on_db (ledger_step E)) (new_emitter r)"
  by (intro ledger.db_keeps evo; simp)+

lemma ev_reads:
  "evolves (on_db (ledger_step E)) (analyze E txn)" "evolves (on_db (ledger_step E)) (evaluate_token E t)"
  "evolves (on_db (ledger_step E)) (evaluate E i)" "evolves (on_db (ledger_step E)) (check_duplicate E txn)"
  "evolves (on_db (ledger_step E)) (remember_outcome E txn r b)" "evolves (on_db (ledger_step E)) (record_velocity E txn)"
  "evolves (on_db (ledger_step E)) (create_request E txn cs)" "evolves (on_db (ledger_step E)) (authenticate E h p)"
  "evolves (on_db (ledger_step E)) (enforce_edge_rate_limit E a dl)" "evolves (on_db (ledger_step E)) (uuid4_hex E)"
  "evolves (on_db (ledger_step E)) (load_request E ri)" "evolves (on_db (ledger_step E)) (grant E ri)"
  by (intro ledger.db_keeps evo; simp)+

lemma ev_load_context: "evolves (on_db (ledger_step E)) (load_context E txn)"
  unfolding load_context_def zcount_window_def
  by (intro ledger.ev_rules ledger.db_session ledger.db_keeps [OF keeps_store_call]) simp

lemmas ev_stages = ledger.ev_rules ev_emits ev_reads ev_load_context ledger_ops ledger.db_record_event_safe ledger.db_lock

lemma ev_carry_out: "evolves (on_db (ledger_step E)) (carry_out E txn dup x v)"
  unfolding carry_out_def authorization_stage_def block_branch_def approval_branch_def allow_branch_def audit_stage_def Let_def
  by (auto intro!: ev_stages split: decision.splits)

lemma ev_decide: "evolves (on_db (ledger_step E)) (decide E txn i d)"
  unfolding decide_def Let_def by (intro ev_stages)

lemma ev_run_pipeline: "evolves (on_db (ledger_step E)) (run_pipeline E txn i x)"
  unfolding run_pipeline_def replay_stored_def by (intro ev_stages ev_decide ev_carry_out)

lemma ev_blocked_before: "evolves (on_db (ledger_step E)) (blocked_before_pipeline E p cs m s)"
  unfolding blocked_before_pipeline_def new_pa_id_def Let_def by (auto intro!: ev_stages)

lemma ev_create: "evolves (on_db (ledger_step E)) (create_payment_intent E p h x e)"
  unfolding create_payment_intent_def request_id_of_def after_identity_def enter_pipeline_def new_pa_id_def Let_def
  by (auto intro!: ev_stages ev_run_pipeline ev_blocked_before split: sum.splits exn.splits)

end
