(* ===== verification/Enforcement.thy ===== *)
theory Enforcement
  imports Pipeline
begin

text \<open>
  What the whole pipeline guarantees: money moves only behind one decision. The lemmas follow
  a change of the provider's state back through the stages to the policy server's answer and
  the facts it was given.
\<close>

section \<open>Stages that never reach the provider\<close>

lemma keepsD: "evolves (keeps g) m \<Longrightarrow> g (snd (m w)) = g w"
  by (simp add: evolves_def keeps_def)

lemma keepsE: "evolves (keeps g) m \<Longrightarrow> m w = (r, w') \<Longrightarrow> g w' = g w"
  by (metis keepsD snd_conv)

lemma contact_bind:
  assumes "evolves (keeps g) m" "g (snd (bindE m f s)) \<noteq> g s"
  shows "\<exists>x t. m s = (Inr x, t) \<and> g t = g s \<and> g (snd (f x t)) \<noteq> g t"
  by (rule changed_in_bind [OF keepsD [OF assms(1)] assms(2)]) blast

lemma contact_then:
  assumes "evolves (keeps g) m" "g (snd (thenE m n s)) \<noteq> g s"
  shows "\<exists>x t. m s = (Inr x, t) \<and> g t = g s \<and> g (snd (n t)) \<noteq> g t"
  using contact_bind [OF assms(1), of "\<lambda>_. n" s] assms(2) by (simp add: thenE_def)

definition side_free :: "(world \<Rightarrow> 'b) \<Rightarrow> bool" where
  "side_free f \<longleftrightarrow> ignores_store f \<and> ignores_db f \<and> ignores_events f \<and> (\<forall>w b. f (w\<lparr>breaker := b\<rparr>) = f w)"

lemma side_freeD: "side_free f \<Longrightarrow> ignores_store f" "side_free f \<Longrightarrow> ignores_db f" "side_free f \<Longrightarrow> ignores_events f"
  "side_free f \<Longrightarrow> ignores_clock f" "side_free f \<Longrightarrow> f (w\<lparr>breaker := b\<rparr>) = f w"
  by (simp_all add: side_free_def ignores_store_def)

lemma side_free_provider: "side_free provider" "side_free checkpoints"
  by (simp_all add: side_free_def)

lemmas stage_frames = keeps_em_start keeps_em_finish keeps_skip keeps_em_set_pa keeps_new_emitter keeps_analyze
  keeps_load_context keeps_evaluate_token keeps_evaluate keeps_persist keeps_set_state keeps_create_request
  keeps_record_velocity keeps_authorize keeps_record_event_safe keeps_remember keeps_check_duplicate
  keeps_authenticate keeps_enforce keeps_uuid side_freeD

lemma keeps_decide: "side_free f \<Longrightarrow> evolves (keeps f) (decide E txn i d)"
  unfolding decide_def Let_def by (intro frame.ev_rules stage_frames)

lemma keeps_replay: "side_free f \<Longrightarrow> evolves (keeps f) (replay_stored E txn r)"
  unfolding replay_stored_def by (intro frame.ev_rules stage_frames)

lemma keeps_blocked_before: "side_free f \<Longrightarrow> evolves (keeps f) (blocked_before_pipeline E p cs m s)"
  unfolding blocked_before_pipeline_def new_pa_id_def Let_def
  by (auto intro!: frame.ev_rules stage_frames)

lemma keeps_block_branch: "side_free f \<Longrightarrow> evolves (keeps f) (block_branch E txn v r)"
  unfolding block_branch_def by (intro frame.ev_rules stage_frames)

lemma keeps_approval_branch: "side_free f \<Longrightarrow> evolves (keeps f) (approval_branch E txn v r)"
  unfolding approval_branch_def by (intro frame.ev_rules stage_frames)

lemma keeps_audit_stage: "side_free f \<Longrightarrow> evolves (keeps f) (audit_stage E txn v r)"
  unfolding audit_stage_def by (auto intro!: frame.ev_rules stage_frames)

lemma keeps_allow_unexecuted: "side_free f \<Longrightarrow> evolves (keeps f) (allow_branch E txn v False r)"
  unfolding allow_branch_def Let_def if_False by (intro frame.ev_rules stage_frames)

text \<open>After the decision, only an ALLOW that is to be executed touches the provider.\<close>

lemma keeps_carry_out:
  assumes "side_free f" "\<not> (pr_decision (ev_verdict v) = ALLOW \<and> x)"
  shows "evolves (keeps f) (carry_out E txn dup x v)"
proof -
  have "evolves (keeps f) (authorization_stage E txn (ev_verdict v) x r)" for r
    using assms(2) unfolding authorization_stage_def
    by (cases "pr_decision (ev_verdict v)")
      (auto intro!: frame.ev_rules keeps_em_start keeps_block_branch keeps_approval_branch keeps_allow_unexecuted assms(1) side_freeD)
  then show ?thesis unfolding carry_out_def Let_def
    by (intro frame.ev_rules keeps_audit_stage stage_frames assms(1))
qed

section \<open>What the decision was made of\<close>

lemma load_context_ok:
  assumes "load_context E txn w = (Inr c, w')"
  shows "\<exists>t k. now w \<le> t \<and> c = (db_context txn t (db w))\<lparr>pc_transactions_last_hour := k\<rparr> \<and> db w' = db w"
proof -
  from assms obtain c0 w1 where s: "session_scope E (asks (\<lambda>w. db_context txn (now w) (db w))) w = (Inr c0, w1)"
    and r: "bindE (zcount_window E (velocity_key txn) 3600) (\<lambda>n. ret (c0\<lparr>pc_transactions_last_hour := n\<rparr>)) w1 = (Inr c, w')"
    unfolding load_context_def by (rule bindE_InrE)
  from s have c0: "c0 = db_context txn (now (tick E w)) (db w)" "db w1 = db w"
    by (auto simp: session_commit)
  from r obtain k w2 where z: "zcount_window E (velocity_key txn) 3600 w1 = (Inr k, w2)"
    and r2: "(ret (c0\<lparr>pc_transactions_last_hour := k\<rparr>) :: policy_context act) w2 = (Inr c, w')" by (rule bindE_InrE)
  have "db w2 = db w1" by (rule keepsE [OF keeps_store_call z [unfolded zcount_window_def]]) simp
  with r2 have "c = c0\<lparr>pc_transactions_last_hour := k\<rparr>" "db w' = db w1" by simp_all
  with c0 now_tick [of w E] show ?thesis
    by (intro exI [of _ "now (tick E w)"] exI [of _ k]) simp
qed

lemma emit_db:
  "em_start st w = (r, w') \<Longrightarrow> db w' = db w" "em_finish st s d w = (r, w') \<Longrightarrow> db w' = db w"
  by (erule keepsE [rotated], intro evo, simp)+

text \<open>The analysis and the approval finding were produced by the analyzer and the approval check, at time \<open>t\<close> or later.\<close>

definition gathered :: "env \<Rightarrow> canonical_txn \<Rightarrow> real \<Rightarrow> analysis_result \<Rightarrow> approval_finding \<Rightarrow> bool" where
  "gathered E txn t a ap \<longleftrightarrow> (\<exists>v v'. t \<le> now v \<and> analyze E txn v = (Inr a, v')) \<and>
     (\<exists>u u'. t \<le> now u \<and> evaluate_token E (ct_approval_token txn) u = (Inr ap, u'))"

lemma gathered_mono: "gathered E txn t a ap \<Longrightarrow> t' \<le> t \<Longrightarrow> gathered E txn t' a ap"
  unfolding gathered_def by (meson order_trans)

lemma later_load_context: "load_context E txn w = (r, w') \<Longrightarrow> now w \<le> now w'"
  using now_tick [of w E] now_tick [of "tick E w" E]
  by (auto simp: load_context_def session_scope_def asks_def bindE_def zcount_window_def store_call_def Let_def
      split: prod.splits sum.splits if_splits)

lemma decide_ok:
  assumes "decide E txn i d w = (Inr v, w')"
  shows "\<exists>t k ap n. gathered E txn (now w) (ev_analysis v) ap \<and> now w \<le> t \<and> ev_context v = (db_context txn t (db w))\<lparr>pc_transactions_last_hour := k\<rparr> \<and>
    ev_risk v = assess txn (ev_context v) (ev_analysis v) \<and>
    ev_verdict v = read_reply (pc_policy_version (ev_context v))
      (e_opa E n (policy_input E txn i (ev_context v) (ev_analysis v) d ap))"
proof -
  have keep: "analyze E txn u = (r, u') \<Longrightarrow> db u' = db u" "analyze E txn u = (r, u') \<Longrightarrow> now u \<le> now u'" for u r u'
  proof -
    assume a: "analyze E txn u = (r, u')"
    show "db u' = db u" by (rule keepsE [OF keeps_analyze a]) simp_all
    have "evolves later (analyze E txn)"
      by (auto simp: evolves_def later_def analyze_def classify_def ask_model_def uuid4_hex_def llm_call_def Let_def bindE_def thenE_def
          record_transport_failure_def record_success_def tick_def split: llm_reply.splits option.splits)
    with a show "now u \<le> now u'" by (auto simp: evolves_def later_def dest: spec [of _ u])
  qed
  have n: "em_start st u = (r, u') \<Longrightarrow> now u' = now u" "em_finish st s dd u = (r, u') \<Longrightarrow> now u' = now u" for st s dd u r u'
    by (auto simp: em_start_def em_finish_def publish_def thenE_def bindE_def Let_def)
  from assms obtain w1 w2 w3 w4 w5 w6 w7 w8 w9 a c ap vd u1 u2 u3 u4 u5 st dt where
    s: "em_start ANALYZER w = (Inr u1, w1)" "analyze E txn w1 = (Inr a, w2)"
      "em_finish ANALYZER PASSED (analysis_fields a) w2 = (Inr u2, w3)" "em_start RISK w3 = (Inr u3, w4)"
      "load_context E txn w4 = (Inr c, w5)" "em_finish RISK st dt w5 = (Inr u4, w6)"
      "evaluate_token E (ct_approval_token txn) w6 = (Inr ap, w9)"
    and e: "evaluate E (policy_input E txn i c a d ap) w8 = (Inr vd, w7)"
    and v: "v = \<lparr>ev_analysis = a, ev_context = c, ev_risk = assess txn c a, ev_verdict = vd\<rparr>"
    unfolding decide_def Let_def by (auto elim!: bindE_InrE thenE_InrE)
  have d: "db w4 = db w" using emit_db s(1,3,4) keep(1) [OF s(2)] by metis
  have t: "now w \<le> now w4" using n s(1,3,4) keep(2) [OF s(2)] by metis
  have "now w \<le> now w1" "now w \<le> now w6" using n(1) [OF s(1)] n(2) [OF s(6)] later_load_context [OF s(5)] t by simp_all
  with s(2,7) have g: "gathered E txn (now w) a ap" unfolding gathered_def by blast
  from load_context_ok [OF s(5)] d t obtain t' k where "now w \<le> t'"
    "c = (db_context txn t' (db w))\<lparr>pc_transactions_last_hour := k\<rparr>" by (metis order_trans)
  moreover have "vd = read_reply (pc_policy_version c) (e_opa E (ops w8) (policy_input E txn i c a d ap))"
    using e by (simp add: evaluate_def policy_input_def build_input_def context_input_of_def)
  ultimately show ?thesis using v g by auto
qed

section \<open>From the provider back to the decision\<close>

lemma run_pipeline_contact:
  assumes "provider (snd (run_pipeline E txn i x w)) \<noteq> provider w"
  shows "\<exists>t k a ap dup n r. x \<and> gathered E txn (now w) a ap \<and> now w \<le> t \<and> (let c = (db_context txn t (db w))\<lparr>pc_transactions_last_hour := k\<rparr> in
    e_opa E n (policy_input E txn i c a dup ap) = OpaResult r \<and> or_decision r = ''ALLOW'')"
proof -
  have p: "side_free provider" by (rule side_free_provider)
  from assms obtain dup w1 where 1: "check_duplicate E txn w = (Inr dup, w1)"
    and 2: "provider (snd ((case io_replay dup of Some r \<Rightarrow> replay_stored E txn r
     | None \<Rightarrow> bindE (decide E txn i (io_finding dup)) (carry_out E txn dup x)) w1)) \<noteq> provider w1"
    using contact_bind [OF keeps_check_duplicate] ignores_provider(2) unfolding run_pipeline_def by blast
  from 2 have 3: "provider (snd (bindE (decide E txn i (io_finding dup)) (carry_out E txn dup x) w1)) \<noteq> provider w1"
    using keepsD [OF keeps_replay [OF p]] by (cases "io_replay dup") auto
  then obtain v w2 where 4: "decide E txn i (io_finding dup) w1 = (Inr v, w2)"
    and 5: "provider (snd (carry_out E txn dup x v w2)) \<noteq> provider w2"
    using contact_bind [OF keeps_decide [OF p]] by blast
  from 5 have al: "pr_decision (ev_verdict v) = ALLOW" "x"
    using keepsD [OF keeps_carry_out [OF p]] by blast+
  have d1: "db w1 = db w" by (rule keepsE [OF keeps_check_duplicate 1]) simp
  have n1: "now w \<le> now w1"
    using 1 by (auto simp: check_duplicate_def check_fingerprint_def store_get_def store_call_def bindE_def Let_def tick_def
        split: prod.splits sum.splits if_splits sval.splits)
  from decide_ok [OF 4] obtain t k ap n where g: "gathered E txn (now w1) (ev_analysis v) ap" and dec: "now w1 \<le> t"
    "ev_context v = (db_context txn t (db w1))\<lparr>pc_transactions_last_hour := k\<rparr>"
    "ev_verdict v = read_reply (pc_policy_version (ev_context v))
      (e_opa E n (policy_input E txn i (ev_context v) (ev_analysis v) (io_finding dup) ap))" by blast
  from read_reply_block [of "pc_policy_version (ev_context v)" "e_opa E n (policy_input E txn i (ev_context v) (ev_analysis v) (io_finding dup) ap)"]
    al(1) dec(3) obtain r where r: "e_opa E n (policy_input E txn i (ev_context v) (ev_analysis v) (io_finding dup) ap) = OpaResult r"
    "decision_of (or_decision r) = Some ALLOW" by auto
  then have "or_decision r = ''ALLOW''" by (auto simp: decision_of_def split: if_splits)
  with r(1) dec d1 n1 al(2) gathered_mono [OF g n1] show ?thesis unfolding Let_def by (metis order_trans)
qed

text \<open>The result of an inner computation under the locks.\<close>

lemma with_lock_contact:
  assumes "provider (snd (with_lock E k ttl m w)) \<noteq> provider w"
  shows "\<exists>w1. db w1 = db w \<and> now w \<le> now w1 \<and> provider (snd (m w1)) \<noteq> provider w1"
proof -
  from assms obtain tok w1 where 1: "uuid4_hex E w = (Inr tok, w1)"
    and 2: "provider (snd (thenE (lock_enter E k tok ttl) (finallyE m (lock_exit E k tok)) w1)) \<noteq> provider w1"
    using contact_bind [OF keeps_uuid] ignores_provider(1) unfolding with_lock_def by blast
  from 2 obtain u w2 where 3: "lock_enter E k tok ttl w1 = (Inr u, w2)"
    and 4: "provider (snd (finallyE m (lock_exit E k tok) w2)) \<noteq> provider w2"
    using contact_then [OF keeps_lock_attempts] ignores_provider(2) unfolding lock_enter_def by blast
  have ex: "provider (snd (lock_exit E k tok s)) = provider s" for s
    unfolding lock_exit_def by (rule keepsD) (intro frame.ev_rules evo, simp)
  have "provider (snd (m w2)) \<noteq> provider w2"
    using 4 ex by (auto simp: finallyE_def split: prod.splits sum.splits) (metis snd_conv)+
  moreover have "db w2 = db w" using 1 keepsE [OF keeps_lock_attempts 3 [unfolded lock_enter_def], of db]
    by (auto simp: uuid4_hex_def)
  moreover have "evolves later (lock_attempts E n key token t)" for n key token t
  proof (induction n)
    case (Suc n)
    have "evolves later (store_call E f)" for f :: "real \<Rightarrow> sval store \<Rightarrow> bool \<times> sval store"
      by (auto simp: evolves_def later_def store_call_def Let_def now_tick split: prod.splits)
    moreover have "evolves later (sleep d)" for d by (simp add: evolves_def later_def sleep_def)
    ultimately show ?case using Suc by (auto intro!: clock.ev_rules)
  qed (simp add: evolves_def later_def)
  from evolvesE [OF this 3 [unfolded lock_enter_def]] have "now w \<le> now w2" using 1 by (auto simp: uuid4_hex_def later_def)
  ultimately show ?thesis by blast
qed

section \<open>The whole request\<close>

lemma later_store_call: "evolves later (store_call E f)"
  by (auto simp: evolves_def later_def store_call_def Let_def now_tick split: prod.splits)

lemma later_uuid: "evolves later (uuid4_hex E)"
  by (simp add: evolves_def later_def uuid4_hex_def)

lemma time_authenticate: "authenticate E h p w = (r, w') \<Longrightarrow> now w \<le> now w'"
proof -
  have "evolves later (decode_delegation_token E tok)" for tok
    unfolding decode_delegation_token_def
    by (auto intro!: clock.ev_rules split: option.splits sum.splits jwt_error.splits)
  moreover have "evolves later (assert_not_revoked E d)" for d
    unfolding assert_not_revoked_def by (intro clock.ev_rules later_store_call)
  ultimately have "evolves later (authenticate E h p)"
    unfolding authenticate_def assert_binding_def assert_scope_def by (intro clock.ev_rules)
  then show "authenticate E h p w = (r, w') \<Longrightarrow> now w \<le> now w'" by (auto simp: later_def dest: evolvesE)
qed

lemma time_enforce: "tryE (enforce_edge_rate_limit E a d) w = (r, w') \<Longrightarrow> now w \<le> now w'"
proof -
  have "evolves later (rl_check E c)" "evolves later (rl_record E c)" for c
    by (cases c; auto simp: rl_check_def rl_record_def zcount_window_def zadd_window_def
        intro!: clock.ev_rules later_store_call later_uuid)+
  then have "evolves later (tryE (enforce_edge_rate_limit E a d))" unfolding enforce_edge_rate_limit_def reraise_rate_limit_def
    by (auto intro!: clock.ev_rules split: exn.splits)
  then show "tryE (enforce_edge_rate_limit E a d) w = (r, w') \<Longrightarrow> now w \<le> now w'" by (auto simp: later_def dest: evolvesE)
qed

text \<open>What the provider is only ever reached behind.\<close>

definition allowed_by_opa :: "env \<Rightarrow> canonical_txn \<Rightarrow> agent_identity \<Rightarrow> policy_context \<Rightarrow> real \<Rightarrow> bool" where
  "allowed_by_opa E txn i c t0 \<longleftrightarrow> (\<exists>n a dup ap r. gathered E txn t0 a ap \<and> e_opa E n (policy_input E txn i c a dup ap) = OpaResult r \<and> or_decision r = ''ALLOW'')"

lemma enter_pipeline_contact:
  assumes "provider (snd (enter_pipeline E p i x w)) \<noteq> provider w"
  shows "x \<and> (\<exists>pa t0 t k. now w \<le> t0 \<and> t0 \<le> t \<and> (let txn = build_canonical E p i pa t0 in
    allowed_by_opa E txn i ((db_context txn t (db w))\<lparr>pc_transactions_last_hour := k\<rparr>) t0))"
proof -
  have ev: "evolves (keeps provider) (em_start s)" "evolves (keeps provider) (new_pa_id E)" "evolves (keeps provider) (em_set_pa q)"
    "evolves (keeps provider) (em_finish s st d)" "evolves (keeps provider) (asks f)" for s q st d and f :: "world \<Rightarrow> 'z"
    unfolding new_pa_id_def by (intro frame.ev_rules stage_frames side_free_provider)+
  from assms obtain u1 w1 pa w2 where 1: "em_start CANONICAL w = (Inr u1, w1)" "new_pa_id E w1 = (Inr pa, w2)"
    and r2: "provider (snd (bindE (asks (\<lambda>w. build_canonical E p i pa (now w))) (\<lambda>txn.
     thenE (em_set_pa pa)
     (thenE (em_finish CANONICAL PASSED [(''payment_authorization_id'', JStr pa), (''cart_hash'', JStr (ct_cart_hash txn)),
         (''fingerprint'', JStr (ct_fingerprint txn)),
         (''untrusted_fields'', JList (map JStr (sort (map fst (untrusted_fields (ct_untrusted txn))))))])
     (bindE (tryE (with_lock E (idem_lock_key txn) None (with_lock E (fp_lock_key txn) (Some 15)
               (run_pipeline E txn i x)))) (\<lambda>result. case result of
           Inr r \<Rightarrow> ret r
         | Inl (LockTimeout _) \<Rightarrow> ret (concurrent_response E pa)
         | Inl e \<Rightarrow> raise e)))) w2)) \<noteq> provider w2"
    unfolding enter_pipeline_def by (blast dest: contact_then [OF ev(1)] contact_bind [OF ev(2)])
  define txn where "txn = build_canonical E p i pa (now w2)"
  from r2 obtain u3 w3 u4 w4 where 2: "em_set_pa pa w2 = (Inr u3, w3)"
      "em_finish CANONICAL PASSED [(''payment_authorization_id'', JStr pa), (''cart_hash'', JStr (ct_cart_hash txn)),
         (''fingerprint'', JStr (ct_fingerprint txn)),
         (''untrusted_fields'', JList (map JStr (sort (map fst (untrusted_fields (ct_untrusted txn))))))] w3 = (Inr u4, w4)"
    and r4: "provider (snd (bindE (tryE (with_lock E (idem_lock_key txn) None (with_lock E (fp_lock_key txn) (Some 15)
               (run_pipeline E txn i x)))) (\<lambda>result. case result of
           Inr r \<Rightarrow> ret r
         | Inl (LockTimeout _) \<Rightarrow> ret (concurrent_response E pa)
         | Inl e \<Rightarrow> raise e) w4)) \<noteq> provider w4"
    unfolding txn_def by (auto simp: bindE_def [of "asks _"] dest!: contact_then [OF ev(3)] contact_then [OF ev(4)])
  have "provider (snd (with_lock E (idem_lock_key txn) None (with_lock E (fp_lock_key txn) (Some 15) (run_pipeline E txn i x)) w4)) \<noteq> provider w4"
    using r4 by (auto simp: bindE_def tryE_def split: prod.splits sum.splits exn.splits)
  from with_lock_contact [OF this] obtain w5 where 5: "db w5 = db w4" "now w4 \<le> now w5"
    "provider (snd (with_lock E (fp_lock_key txn) (Some 15) (run_pipeline E txn i x) w5)) \<noteq> provider w5" by blast
  from with_lock_contact [OF 5(3)] obtain w6 where 6: "db w6 = db w5" "now w5 \<le> now w6"
    "provider (snd (run_pipeline E txn i x w6)) \<noteq> provider w6" by blast
  have d: "db w4 = db w" "now w \<le> now w2" "now w2 = now w4"
    using 1 2 by (auto simp: em_start_def new_pa_id_def em_set_pa_def em_finish_def publish_def uuid4_hex_def bindE_def thenE_def Let_def)
  from run_pipeline_contact [OF 6(3)] obtain t k a ap dup n r where g: "gathered E txn (now w6) a ap" and f: "x" "now w6 \<le> t"
    "e_opa E n (policy_input E txn i ((db_context txn t (db w6))\<lparr>pc_transactions_last_hour := k\<rparr>) a dup ap) = OpaResult r"
    "or_decision r = ''ALLOW''" unfolding Let_def by blast
  have d6: "db w6 = db w" using 5(1) 6(1) d(1) by simp
  have "now w2 \<le> now w6" using 5(2) 6(2) d(3) by linarith
  then have g2: "gathered E txn (now w2) a ap" by (rule gathered_mono [OF g])
  have "allowed_by_opa E txn i ((db_context txn t (db w))\<lparr>pc_transactions_last_hour := k\<rparr>) (now w2)"
    unfolding allowed_by_opa_def by (intro exI conjI, rule g2, rule f(3) [unfolded d6], rule f(4))
  moreover have "now w2 \<le> t" using f(2) 5(2) 6(2) d(3) by linarith
  ultimately show ?thesis using f(1) d(2) unfolding Let_def txn_def by blast
qed

lemma create_contact:
  assumes "provider (snd (create_payment_intent E p h xr x w)) \<noteq> provider w"
  shows "x \<and> (\<exists>i pa w0 w1 t0 t k. authenticate E h p w0 = (Inr i, w1) \<and> store w0 = store w \<and> now w0 = now w \<and>
    now w \<le> t0 \<and> t0 \<le> t \<and>
    (let txn = build_canonical E p i pa t0 in
      allowed_by_opa E txn i ((db_context txn t (db w))\<lparr>pc_transactions_last_hour := k\<rparr>) t0))"
proof -
  have pf: "side_free provider" by (rule side_free_provider)
  have ev: "evolves (keeps provider) (request_id_of E xr)" "evolves (keeps provider) (new_emitter r)"
    "evolves (keeps provider) (em_start s)" "evolves (keeps provider) (em_finish s st d)" "evolves (keeps provider) (skip_remaining s cs)"
    "evolves (keeps provider) (tryE (authenticate E h p))"
    "evolves (keeps provider) (tryE (enforce_edge_rate_limit E a dl))" for r s st d cs a dl
    unfolding request_id_of_def Let_def by (intro frame.ev_rules stage_frames pf)+
  from assms obtain rid w1 u2 w2 u3 w3 res w4 where
    1: "request_id_of E xr w = (Inr rid, w1)" "new_emitter rid w1 = (Inr u2, w2)" "em_start IDENTITY w2 = (Inr u3, w3)"
      "tryE (authenticate E h p) w3 = (Inr res, w4)"
    and r4: "provider (snd ((case res of
         Inr identity \<Rightarrow> after_identity E p identity x
       | Inl (IdentityError code message) \<Rightarrow>
           thenE (em_finish IDENTITY BLOCKED [codes_json [''INVALID_IDENTITY'', code]])
             (thenE (skip_remaining IDENTITY [''INVALID_IDENTITY'', code])
               (blocked_before_pipeline E p [''INVALID_IDENTITY'', code] message ''identity''))
       | Inl e \<Rightarrow> raise e) w4)) \<noteq> provider w4"
    unfolding create_payment_intent_def
    by (blast dest: contact_bind [OF ev(1)] contact_then [OF ev(2)] contact_then [OF ev(3)] contact_bind [OF ev(6)])
  have "evolves (keeps provider) (thenE (em_finish IDENTITY BLOCKED [codes_json [''INVALID_IDENTITY'', code]])
             (thenE (skip_remaining IDENTITY [''INVALID_IDENTITY'', code])
               (blocked_before_pipeline E p [''INVALID_IDENTITY'', code] message ''identity'')))" for code message
    by (intro frame.ev_rules ev keeps_blocked_before pf)
  from r4 keepsD [OF this] obtain i where i: "res = Inr i"
    by (cases res) (auto split: exn.splits)
  with 1(4) have a: "authenticate E h p w3 = (Inr i, w4)" by (auto simp: tryE_def split: prod.splits)
  from r4 i have "provider (snd (after_identity E p i x w4)) \<noteq> provider w4" by simp
  then obtain u5 w5 res5 w6 where 2: "em_finish IDENTITY PASSED [(''agent_id'', JStr (id_agent_id i)), (''delegation_id'', JStr (id_delegation_id i))] w4 = (Inr u5, w5)"
      "tryE (enforce_edge_rate_limit E (id_agent_id i) (id_delegation_id i)) w5 = (Inr res5, w6)"
    and r6: "provider (snd ((case res5 of
         Inr _ \<Rightarrow> enter_pipeline E p i x
       | Inl (RateLimitError scope limit) \<Rightarrow>
           thenE (em_finish IDENTITY BLOCKED [codes_json [''RATE_LIMIT_EXCEEDED''], (''scope'', JStr scope), (''limit'', JInt limit)])
             (thenE (skip_remaining IDENTITY [''RATE_LIMIT_EXCEEDED''])
               (blocked_before_pipeline E p [''RATE_LIMIT_EXCEEDED''] (rate_limit_message scope limit) ''edge_rate_limit''))
       | Inl e \<Rightarrow> raise e) w6)) \<noteq> provider w6"
    unfolding after_identity_def by (blast dest: contact_then [OF ev(4)] contact_bind [OF ev(7)])
  have "evolves (keeps provider) (thenE (em_finish IDENTITY BLOCKED [codes_json [''RATE_LIMIT_EXCEEDED''], (''scope'', JStr scope), (''limit'', JInt limit)])
             (thenE (skip_remaining IDENTITY [''RATE_LIMIT_EXCEEDED''])
               (blocked_before_pipeline E p [''RATE_LIMIT_EXCEEDED''] (rate_limit_message scope limit) ''edge_rate_limit'')))" for scope limit
    by (intro frame.ev_rules ev keeps_blocked_before pf)
  from r6 keepsD [OF this] have c: "provider (snd (enter_pipeline E p i x w6)) \<noteq> provider w6"
    by (cases res5) (auto split: exn.splits)
  have w3: "store w3 = store w" "now w3 = now w" "db w3 = db w"
    using 1(1-3) by (auto simp: request_id_of_def new_emitter_def em_start_def publish_def uuid4_hex_def bindE_def thenE_def Let_def
        split: if_splits)
  have db: "db w6 = db w"
    using keepsE [OF keeps_authenticate a, of db] emit_db(2) [OF 2(1)] keepsE [OF frame.ev_try [OF keeps_enforce] 2(2), of db] w3(3) by simp
  have n: "now w \<le> now w6" using time_authenticate [OF a] time_enforce [OF 2(2)] 2(1) w3(2)
    by (auto simp: em_finish_def publish_def bindE_def Let_def)
  from enter_pipeline_contact [OF c] db n a w3 show ?thesis unfolding Let_def by (metis order_trans)
qed

text \<open>A delegation in the revocation set does not even get past authentication.\<close>

lemma revoked_no_contact:
  "st_sismember REVOCATION_SET (pi_delegation_id p) (store w) \<Longrightarrow> provider (snd (create_payment_intent E p h xr x w)) = provider w"
  using create_contact [of E p h xr x w] authenticate_ok by (metis (no_types, lifting))

end
