(* ===== verification/Scenario.thy ===== *)
theory Scenario
  imports Enforcement
begin

text \<open>
  A small concrete deployment: one user, one agent, one verified merchant, one spending policy.
  Its runs are evaluated by the kernel; they show that the hypotheses of the properties can
  hold together, and two of them are runs in which the code does something surprising. SHA-256
  is a constant here and a token is named by its \<open>jti\<close>: nothing below depends on more.
\<close>

definition demo_cfg :: settings where
  "demo_cfg = default_settings\<lparr>cfg_rate_limit_enabled := False, cfg_environment := ''staging''\<rparr>"

definition demo_sign :: "string \<Rightarrow> claims \<Rightarrow> string" where
  "demo_sign key c = (case claim_str c ''jti'' of None \<Rightarrow> '''' | Some j \<Rightarrow> j)"

definition demo_base :: env where
  "demo_base = \<lparr>e_H = (\<lambda>s. ''h''), e_frepr = (\<lambda>_. ''f''), e_cfg = demo_cfg, e_admin_api_key = ''admin-key'',
     e_uuid = (\<lambda>n. ''u'' @ str_nat n), e_store_ok = (\<lambda>_. True), e_db_ok = (\<lambda>_. True), e_delay = (\<lambda>_. 0),
     e_jwt_encode = demo_sign, e_jwt_decode = (\<lambda>_ _ _ _ _ _. Inl (JwtInvalid '''')),
     e_payment_private = ''pay-private'', e_payment_public = ''pay-public'',
     e_delegation_public = Some ''del-public'', e_delegation_private = Some ''del-private'',
     e_opa = (\<lambda>_ i. rego_result i), e_llm = (\<lambda>_ _. LlmTimeout), e_net = (\<lambda>_. Delivered 0), e_net_error = (\<lambda>_. ''timed out''),
     e_others = (\<lambda>_ st. st), e_link_code = (\<lambda>n. str_nat n)\<rparr>"

definition demo_intent :: payment_intent where
  "demo_intent = \<lparr>pi_idempotency_key = ''order-01'', pi_agent_id = ''a'', pi_user_id = ''u'',
     pi_delegation_id = ''d'', pi_merchant_id = ''m'', pi_merchant_verified = True,
     pi_amount = \<lparr>coeff = 10, dexp = 0\<rparr>, pi_currency = ''USD'',
     pi_items = [\<lparr>sku = ''s'', item_name = ''n'', quantity = 1, unit_price = \<lparr>coeff = 10, dexp = 0\<rparr>\<rparr>],
     pi_purpose = '''', pi_merchant_content = \<lparr>mc_source_type = OFFICIAL_API, mc_source_url = '''', mc_text = ''''\<rparr>,
     pi_tool_arguments = [], pi_approval_token = None\<rparr>"

definition demo_cart :: string where "demo_cart = ''h''"

definition demo_delegation :: claims where
  "demo_delegation = delegation_claims demo_base 1000 ''a'' ''u'' ''d'' None 3600"

text \<open>The tokens that were ever signed.\<close>

definition demo_signed :: "claims list" where
  "demo_signed = [demo_delegation,
     authorization_claims demo_base 1000 300 ''pat_u4'' ''pa_u0'' ''u'' ''a'' ''m'' \<lparr>coeff = 10, dexp = 0\<rparr> ''USD'' demo_cart ''v1'']"

definition demo_decode :: "string \<Rightarrow> string list \<Rightarrow> string \<Rightarrow> string \<Rightarrow> real \<Rightarrow> string \<Rightarrow> jwt_error + claims" where
  "demo_decode key req aud iss t tok = (case List.find (\<lambda>c. demo_sign key c = tok) demo_signed of
       None \<Rightarrow> Inl (JwtInvalid ''signature'')
     | Some c \<Rightarrow> if jwt_accepts req aud iss t c then Inr c else Inl (JwtInvalid ''claims''))"

text \<open>The deployment, with what other processes do meanwhile and the network's behaviour open.\<close>

definition demo_at :: "(nat \<Rightarrow> sval store \<Rightarrow> sval store) \<Rightarrow> (nat \<Rightarrow> net_fault) \<Rightarrow> env" where
  "demo_at others net = demo_base\<lparr>e_jwt_decode := demo_decode, e_others := others, e_net := net\<rparr>"

definition demo_env :: env where "demo_env = demo_at (\<lambda>_ st. st) (\<lambda>_. Delivered 0)"

definition demo_policy :: policy_row where
  "demo_policy = \<lparr>sp_user_id = ''u'', sp_agent_id = ''a'', sp_policy_version = ''v1'',
     sp_per_transaction_limit = \<lparr>coeff = 10, dexp = 0\<rparr>, sp_daily_limit = \<lparr>coeff = 100, dexp = 0\<rparr>, sp_currency = ''USD'',
     sp_allowed_merchants = [''m''], sp_blocked_merchants = [], sp_require_verified = True,
     sp_approval_threshold = \<lparr>coeff = 50, dexp = 0\<rparr>, sp_max_per_hour = 10, sp_revoked = False\<rparr>"

definition demo_db :: database where
  "demo_db = empty_db\<lparr>
     agents := [''a'' \<mapsto> \<lparr>ag_owner_user_id = ''u'', ag_display_name = ''agent'', ag_allowed_scopes = [''payments:authorize''],
       ag_allowed_categories = [], ag_active = True\<rparr>],
     policies := [''d'' \<mapsto> demo_policy],
     merchants := [''m'' \<mapsto> \<lparr>mr_display_name = ''shop'', mr_category = ''books'', mr_verified = True, mr_risk_score = 0\<rparr>]\<rparr>"

definition demo_world :: world where
  "demo_world = init_world\<lparr>now := 1000, db := demo_db\<rparr>"

definition demo_header :: "string option" where
  "demo_header = Some (''Bearer '' @ demo_sign ''del-private'' demo_delegation)"

text \<open>What the run computes on the way.\<close>

definition demo_identity :: agent_identity where
  "demo_identity = \<lparr>id_agent_id = ''a'', id_user_id = ''u'', id_delegation_id = ''d'',
     id_scopes = [''payments:authorize''], id_jti = ''jti_1000_d''\<rparr>"

definition demo_txn :: canonical_txn where
  "demo_txn = build_canonical demo_env demo_intent demo_identity ''pa_u0'' 1000"

definition demo_analysis :: analysis_result where
  "demo_analysis = (let flds = untrusted_fields (ct_untrusted demo_txn) in
     analysis_of demo_env OFFICIAL_API (scan_rules flds) (nothing_to_classify ''openai/gpt-oss-120b'') (scan_similarity flds))"

definition demo_context :: policy_context where
  "demo_context = (db_context demo_txn 1000 demo_db)\<lparr>pc_transactions_last_hour := 0\<rparr>"

definition demo_evidence :: evidence where
  "demo_evidence = \<lparr>ev_analysis = demo_analysis, ev_context = demo_context, ev_risk = assess demo_txn demo_context demo_analysis,
     ev_verdict = \<lparr>pr_decision = ALLOW, pr_reason_codes = [''POLICY_SATISFIED''], pr_policy_version = ''v1'',
       pr_weighted_score = 20, pr_deny_reasons = [], pr_approval_reasons = [], pr_available = True\<rparr>\<rparr>"

section \<open>Running a program step by step\<close>

text \<open>
  Definitions are unfolded only when a program meets its world, and a continuation only when
  its value is known: the congruence rules keep the rewriting out of what has not run yet.
  The event emitter is kept folded.
\<close>

lemma run_congs:
  "w = w' \<Longrightarrow> bindE m f w = bindE m f w'" "w = w' \<Longrightarrow> thenE m n w = thenE m n w'"
  "w = w' \<Longrightarrow> catchE m h w = catchE m h w'" "w = w' \<Longrightarrow> finallyE m n w = finallyE m n w'"
  "w = w' \<Longrightarrow> tryE m w = tryE m w'" "w = w' \<Longrightarrow> session_scope E m w = session_scope E m w'"
  "w = w' \<Longrightarrow> store_call E g w = store_call E g w'" "w = w' \<Longrightarrow> with_lock E k t m w = with_lock E k t m w'"
  "w = w' \<Longrightarrow> http_call E m w = http_call E m w'"
  by simp_all

definition started :: "stage \<Rightarrow> world \<Rightarrow> world" where "started st w = snd (em_start st w)"
definition finished :: "stage \<Rightarrow> stage_status \<Rightarrow> (string \<times> json) list \<Rightarrow> world \<Rightarrow> world" where
  "finished st s d w = snd (em_finish st s d w)"
definition bound_pa :: "string \<Rightarrow> world \<Rightarrow> world" where "bound_pa pa w = snd (em_set_pa pa w)"
definition opened :: "string \<Rightarrow> world \<Rightarrow> world" where "opened r w = snd (new_emitter r w)"

lemmas emit_defs = started_def finished_def bound_pa_def opened_def em_start_def em_finish_def em_set_pa_def
  new_emitter_def publish_def thenE_def bindE_def Let_def

lemma emit_runs: "em_start st w = (Inr (), started st w)" "em_finish st s d w = (Inr (), finished st s d w)"
  "em_set_pa pa w = (Inr (), bound_pa pa w)" "new_emitter r w = (Inr (), opened r w)"
  by (simp_all add: emit_defs)

definition core :: "world \<Rightarrow> real \<times> nat \<times> nat \<times> sval store \<times> database \<times> provider_state" where
  "core w = (now w, ops w, uuids w, store w, db w, provider w)"

lemma emit_core: "core (started st w) = core w" "core (finished st s d w) = core w" "core (bound_pa p w) = core w"
  "core (opened r w) = core w"
  by (simp_all add: core_def emit_defs)

lemmas emit_keeps = emit_core [unfolded core_def prod.inject]

lemma lock_enter_run: "lock_enter E key token ttl w = bindE (store_call E (\<lambda>t. st_set_nx t (lock_name key) (SStr token) (Some (lock_ttl_of E ttl))))
   (\<lambda>ok. if ok then ret () else thenE (sleep (1/20)) (lock_attempts E 49 (lock_name key) token (lock_ttl_of E ttl))) w"
  using lock_attempts.simps(2) [of E 49 "lock_name key" token "lock_ttl_of E ttl"] by (simp add: lock_enter_def)

lemmas control_defs = bindE_def thenE_def catchE_def finallyE_def tryE_def asks_def modifyE_def
  store_get_def store_set_def store_call_def with_lock_def lock_exit_def sleep_def session_scope_def db_get_def db_modify_def uuid4_hex_def

lemmas identity_defs = authenticate_def decode_delegation_token_def assert_binding_def assert_scope_def assert_not_revoked_def

lemmas stage_defs = create_payment_intent_def request_id_of_def after_identity_def enforce_edge_rate_limit_def enter_pipeline_def
  new_pa_id_def run_pipeline_def check_duplicate_def check_fingerprint_def decide_def load_context_def zcount_window_def zadd_window_def
  evaluate_token_def evaluate_def carry_out_def persist_transaction_def insert_txn_def authorization_stage_def
  block_branch_def approval_branch_def allow_branch_def record_velocity_def authorize_def issue_authorization_token_def
  update_row_def get_row_def transition_row_def assert_transition_def set_state_def consume_token_def submit_def
  http_call_def serve_charge_def after_call_def audit_stage_def record_event_def append_event_def record_event_safe_def
  remember_outcome_def

lemmas control_runs = control_defs [THEN fun_cong]
lemmas identity_runs = identity_defs [THEN fun_cong]
lemmas stage_runs = stage_defs [THEN fun_cong]

lemmas data_runs = store_defs empty_store_def st_zcount_window_def st_zadd_window_def expiry_of_def lock_name_def lock_ttl_of_def
  velocity_key_def idem_key_def fingerprint_key_def idem_lock_key_def fp_lock_key_def falsy_def row_of_def insertable_def
  update_txn_def move_row_def read_reply_def decision_of_def Let_def

lemmas runs = control_runs stage_runs data_runs emit_runs emit_keeps lock_enter_run

section \<open>The steps of the demonstration\<close>

lemma demo_at_simps [simp]:
  "e_H (demo_at f g) = (\<lambda>s. ''h'')" "e_frepr (demo_at f g) = (\<lambda>_. ''f'')" "e_cfg (demo_at f g) = demo_cfg"
  "e_uuid (demo_at f g) = (\<lambda>n. ''u'' @ str_nat n)" "e_store_ok (demo_at f g) = (\<lambda>_. True)"
  "e_db_ok (demo_at f g) = (\<lambda>_. True)" "e_delay (demo_at f g) = (\<lambda>_. 0)" "e_jwt_encode (demo_at f g) = demo_sign"
  "e_jwt_decode (demo_at f g) = demo_decode" "e_opa (demo_at f g) = (\<lambda>_ i. rego_result i)" "e_net (demo_at f g) = g"
  "e_others (demo_at f g) = f" "e_delegation_public (demo_at f g) = Some ''del-public''"
  "e_payment_public (demo_at f g) = ''pay-public''"
  by (simp_all add: demo_at_def demo_base_def)

lemma demo_tick [simp]: "tick (demo_at f g) w = w\<lparr>ops := Suc (ops w)\<rparr>" by (simp add: tick_def)

lemma demo_cfg_simps [simp]: "cfg_jwt_audience demo_cfg = ''agentpay-sentinel''" "cfg_jwt_issuer demo_cfg = ''agentpay-control-plane''"
  "cfg_rate_limit_enabled demo_cfg = False" "cfg_lock_ttl demo_cfg = 10" "cfg_provider_timeout demo_cfg = 5" "cfg_token_ttl demo_cfg = 300"
  "cfg_idempotency_ttl demo_cfg = 86400" "cfg_fingerprint_window demo_cfg = 300" "cfg_policy_version demo_cfg = ''v1.4.2''"
  by (simp_all add: demo_cfg_def default_settings_def)

lemma demo_world_simps [simp]: "now demo_world = 1000" "ops demo_world = 0" "uuids demo_world = 0" "store demo_world = empty_store"
  "db demo_world = demo_db" "provider demo_world = init_provider" "txns demo_db = []" "audit_log demo_db = []"
  "pv_consumed_jti init_provider = []" "pv_behaviour init_provider = SUCCESS" "pv_call_count init_provider = 0"
  "pv_charges init_provider = Map.empty"
  by (simp_all add: demo_world_def init_world_def demo_db_def empty_db_def init_provider_def)

lemma demo_credentials:
  "bearer demo_header = Some ''jti_1000_d''"
  "demo_decode ''del-public'' delegation_requires ''agentpay-sentinel'' ''agentpay-control-plane'' 1000 ''jti_1000_d'' = Inr demo_delegation"
  "missing_claims demo_delegation = []" "scopes_of (claim demo_delegation ''scopes'') = Some [''payments:authorize'']"
  "claim_text demo_env demo_delegation ''agent_id'' = ''a''" "claim_text demo_env demo_delegation ''sub'' = ''u''"
  "claim_text demo_env demo_delegation ''delegation_id'' = ''d''" "claim_text demo_env demo_delegation ''jti'' = ''jti_1000_d''"
  by code_simp+

lemma demo_same: "claim_text (demo_at f g) = claim_text demo_env" "build_canonical (demo_at f g) = build_canonical demo_env"
  "analysis_of (demo_at f g) = analysis_of demo_env" "policy_input (demo_at f g) = policy_input demo_env"
  "verify_authorization_token (demo_at f g) = verify_authorization_token demo_env"
  by (simp_all add: fun_eq_iff demo_env_def claim_text_def build_canonical_def transaction_fingerprint_def fingerprint_bucket_def
      analysis_of_def all_evidence_def policy_input_def verify_authorization_token_def Let_def split: option.splits)

lemma demo_authenticates: "now w = 1000 \<Longrightarrow> sets (store w) = (\<lambda>_. []) \<Longrightarrow>
    authenticate (demo_at f g) demo_header demo_intent w = (Inr demo_identity, w\<lparr>ops := Suc (ops w)\<rparr>)"
  by (simp add: control_runs identity_runs demo_credentials demo_same binding_mismatches_def demo_intent_def REQUIRED_SCOPE_def
      st_sismember_def demo_identity_def Let_def cong: run_congs)

lemma demo_txn_simps [simp]: "ct_pa_id demo_txn = ''pa_u0''" "ct_user_id demo_txn = ''u''" "ct_idempotency_key demo_txn = ''order-01''"
  "ct_fingerprint demo_txn = ''h''" "ct_payload_hash demo_txn = ''h''" "ct_agent_id demo_txn = ''a''" "ct_delegation_id demo_txn = ''d''"
  "ct_merchant_id demo_txn = ''m''" "ct_amount demo_txn = \<lparr>coeff = 10, dexp = 0\<rparr>" "ct_currency demo_txn = ''USD''"
  "ct_cart_hash demo_txn = ''h''" "ct_approval_token demo_txn = None"
  "untrusted_fields (ct_untrusted demo_txn) = [(''merchant_content'', ''''), (''purpose'', ''''), (''tool_arguments'', '''')]"
  "uc_source_type (ct_untrusted demo_txn) = OFFICIAL_API"
  by (simp_all add: demo_txn_def demo_env_def build_canonical_def demo_intent_def demo_identity_def Let_def transaction_fingerprint_def
      cart_hash_def payload_hash_def untrusted_fields_def)

lemma demo_analyzed: "analyze (demo_at f g) demo_txn w = (Inr demo_analysis, w)"
  by (simp add: analyze_def Let_def demo_analysis_def classify_def strip_def lstrip_def rstrip_def demo_same)
    (simp add: demo_cfg_def default_settings_def)

lemma demo_policy_allows: "rego_result (policy_input demo_env demo_txn demo_identity demo_context demo_analysis no_duplicate no_approval) =
    OpaResult \<lparr>or_decision = ''ALLOW'', or_reason_codes = [''POLICY_SATISFIED''], or_deny_reasons = [], or_approval_reasons = [],
      or_policy_version = ''v1'', or_weighted_score = 20\<rparr>"
  by code_simp

lemma demo_charged: "create_charge (demo_at f g) 1000 u (charge_body_of demo_txn) (Some ''Bearer pat_u4'') p =
   (if ''pat_u4'' \<in> set (pv_consumed_jti p) then (http_error 409 ''authorization token already used'', count_call (charge_body_of demo_txn) p)
    else settle (charge_body_of demo_txn) ''pat_u4'' (''ch_'' @ take 16 u) (count_call (charge_body_of demo_txn) p))"
proof -
  have "bearer (Some ''Bearer pat_u4'') = Some ''pat_u4''" by code_simp
  moreover have "verify_authorization_token demo_env 1000 ''pat_u4'' = Inr (demo_signed ! 1)" by code_simp
  moreover have "claim_str (demo_signed ! 1) ''jti'' = Some ''pat_u4''" by code_simp
  moreover have "charge_mismatches (demo_signed ! 1) (charge_body_of demo_txn) = Some []" by code_simp
  ultimately show ?thesis by (simp add: create_charge_def demo_same Let_def)
qed

lemma demo_charge_pa: "cb_pa_id (charge_body_of demo_txn) = ''pa_u0''"
  by (simp add: charge_body_of_def)

lemma reply_delay: "rep_delay (reply s b) = 0"
  by (simp add: reply_def)

lemma demo_signature: "demo_sign key (authorization_claims E n t j pa u a m am c h p) = j"
  by (simp add: demo_sign_def claim_str_def claim_def authorization_claims_def)

lemma demo_numbers:
  "str_nat 0 = ''0''"
  "str_nat (Suc 0) = ''1''"
  "str_nat (Suc (Suc 0)) = ''2''"
  "str_nat (Suc (Suc (Suc 0))) = ''3''"
  "str_nat (Suc (Suc (Suc (Suc 0)))) = ''4''"
  "str_nat (Suc (Suc (Suc (Suc (Suc 0))))) = ''5''"
  "str_nat (Suc (Suc (Suc (Suc (Suc (Suc 0)))))) = ''6''"
  "str_nat (Suc (Suc (Suc (Suc (Suc (Suc (Suc 0))))))) = ''7''"
  "str_nat (Suc (Suc (Suc (Suc (Suc (Suc (Suc (Suc 0)))))))) = ''8''"
  "str_nat (Suc (Suc (Suc (Suc (Suc (Suc (Suc (Suc (Suc 0))))))))) = ''9''"
  "str_nat (Suc (Suc (Suc (Suc (Suc (Suc (Suc (Suc (Suc (Suc 0)))))))))) = ''10''"
  "str_nat (Suc (Suc (Suc (Suc (Suc (Suc (Suc (Suc (Suc (Suc (Suc 0))))))))))) = ''11''"
  "str_nat (Suc (Suc (Suc (Suc (Suc (Suc (Suc (Suc (Suc (Suc (Suc (Suc 0)))))))))))) = ''12''"
  "str_nat (Suc (Suc (Suc (Suc (Suc (Suc (Suc (Suc (Suc (Suc (Suc (Suc (Suc 0))))))))))))) = ''13''"
  "str_nat (Suc (Suc (Suc (Suc (Suc (Suc (Suc (Suc (Suc (Suc (Suc (Suc (Suc (Suc 0)))))))))))))) = ''14''"
  by code_simp+

lemma new_row_id: "ae_event_id (new_row E e i us rows) = i"
  by (simp add: new_row_def Let_def)

lemma demo_folds: "build_canonical demo_env demo_intent demo_identity ''pa_u0'' 1000 = demo_txn"
  "(db_context demo_txn 1000 demo_db)\<lparr>pc_transactions_last_hour := 0\<rparr> = demo_context"
  "\<not> df_idempotency_conflict no_duplicate" "\<not> df_fingerprint_conflict no_duplicate"
  by (simp_all add: demo_txn_def demo_context_def no_duplicate_def)

lemmas demo_steps = demo_authenticates demo_same demo_analyzed demo_policy_allows demo_charged demo_charge_pa reply_delay demo_signature demo_numbers demo_folds new_row_id
  settle_def status_of_def confirmed_json_def is_conflict_def with_outcome_def outcome_def response_def

section \<open>A payment that goes through\<close>

lemma demo_confirmed:
  "\<exists>r w. create_payment_intent demo_env demo_intent demo_header (Some ''req-1'') True demo_world = (Inr r, w) \<and>
     rsp_decision r = ALLOW \<and> rsp_state r = CONFIRMED \<and> pv_call_count (provider w) = 1 \<and> pv_charges (provider w) ''pa_u0'' \<noteq> None"
  unfolding demo_env_def
  by (simp add: runs demo_steps del: str_nat.simps cong: run_congs)

section \<open>A payment that goes through and is reported as blocked\<close>

text \<open>
  While the provider is charging, another worker takes the lock of the audit chain (for the 15
  seconds every holder takes it for) and does not give it back within 2.5 seconds.
\<close>

definition audit_lock_taken :: "nat \<Rightarrow> sval store \<Rightarrow> sval store" where
  "audit_lock_taken n st = st\<lparr>kv := (kv st)(lock_name ''audit_chain'' \<mapsto> (SStr ''other-worker'', Some 1015))\<rparr>"

lemma lock_attempts_held:
  assumes "kv (store w) key = Some (v, Some t)" "now w + real n / 20 \<le> t"
  shows "lock_attempts (demo_at f g) n key tok ttl w = (Inl (LockTimeout key), w\<lparr>ops := ops w + n, now := now w + real n / 20\<rparr>)"
  using assms
proof (induction n arbitrary: w)
  case (Suc n)
  let ?w = "w\<lparr>ops := Suc (ops w), now := now w + 1 / 20\<rparr>"
  have "\<not> t < now w" using Suc.prems(2) by (simp add: field_simps)
  then have "lock_attempts (demo_at f g) (Suc n) key tok ttl w = lock_attempts (demo_at f g) n key tok ttl ?w"
    using Suc.prems(1) by (simp add: bindE_def thenE_def store_call_def sleep_def store_defs Let_def)
  also have "\<dots> = (Inl (LockTimeout key), ?w\<lparr>ops := ops ?w + n, now := now ?w + real n / 20\<rparr>)"
    by (rule Suc.IH) (use Suc.prems in \<open>simp_all add: field_simps\<close>)
  finally show ?case by (simp add: field_simps)
qed simp

lemma lock_enter_held:
  "kv (store w) (lock_name key) = Some (v, Some t) \<Longrightarrow> now w + 5 / 2 \<le> t \<Longrightarrow> lock_enter (demo_at f g) key tok ttl w =
    (Inl (LockTimeout (lock_name key)), w\<lparr>ops := ops w + 50, now := now w + 5 / 2\<rparr>)"
  using lock_attempts_held [of w "lock_name key" v t 50 f g tok "lock_ttl_of (demo_at f g) ttl"] by (simp add: lock_enter_def)

lemma lock_enter_free:
  "kv (store w) (lock_name key) = None \<Longrightarrow> lock_enter (demo_at f g) key tok ttl w = bindE (store_call (demo_at f g) 
     (\<lambda>t. st_set_nx t (lock_name key) (SStr tok) (Some (lock_ttl_of (demo_at f g) ttl)))) (\<lambda>_. ret ()) w"
  by (simp add: lock_enter_run bindE_def store_call_def store_defs Let_def)

lemmas runs' = control_runs stage_runs data_runs emit_runs emit_keeps lock_enter_free

lemma demo_lost:
  "\<exists>r w. create_payment_intent (demo_at audit_lock_taken (\<lambda>_. Delivered 0)) demo_intent demo_header (Some ''req-1'') True demo_world = (Inr r, w) \<and>
     rsp_decision r = BLOCK \<and> rsp_state r = FAILED \<and> rsp_reason_codes r = [''CONCURRENT_REQUEST_IN_FLIGHT''] \<and>
     pv_charges (provider w) ''pa_u0'' \<noteq> None \<and> map tr_state (txns (db w)) = [CONFIRMED]"
  by (simp add: runs' lock_enter_held demo_steps audit_lock_taken_def concurrent_response_def del: str_nat.simps cong: run_congs)

end
