(* ===== verification/Settlement.thy ===== *)
theory Settlement
  imports Enforcement
begin

text \<open>
  The money side of \<open>gateway/payments.py\<close>: what one transition writes, that a token reaches the
  provider at most once whatever happens in between, what a confirmed payment means at the
  provider, and that reconciliation and expiry only ever ask and record.
\<close>

section \<open>One transition\<close>

lemma get_row_run: "get_row pa w = (case find_txn pa (txns (db w)) of None \<Rightarrow> (Inl (KeyMissing pa), w) | Some r \<Rightarrow> (Inr r, w))"
  by (simp add: get_row_def db_get_def bindE_def split: option.splits)

lemma transition_row_run: "transition_row pa t ref det w = (case find_txn pa (txns (db w)) of
     None \<Rightarrow> (Inl (KeyMissing pa), w)
   | Some r \<Rightarrow> if t \<in> set (valid_transitions (tr_state r))
       then (Inr r, w\<lparr>db := (db w)\<lparr>txns := update_txn pa (move_row t ref det) (txns (db w))\<rparr>\<rparr>)
       else (Inl (InvalidTransition (tr_state r) t), w))"
  by (simp add: transition_row_def bindE_def thenE_def get_row_run assert_transition_def update_row_def db_modify_def split: option.splits)

text \<open>Either nothing was written, or exactly the allowed transition was.\<close>

lemma set_state_effect:
  assumes "set_state E pa t ref det audit w = (r, w')"
  shows "(txns (db w') = txns (db w) \<and> r \<noteq> Inr ()) \<or>
    (\<exists>row. find_txn pa (txns (db w)) = Some row \<and> t \<in> set (valid_transitions (tr_state row)) \<and>
      txns (db w') = update_txn pa (move_row t ref det) (txns (db w)))"
proof -
  obtain q v where s: "session_scope E (transition_row pa t ref det) w = (q, v)" by fastforce
  show ?thesis
  proof (cases q)
    case (Inl e)
    with s assms show ?thesis using session_rollback [of E "transition_row pa t ref det" w e v]
      by (auto simp: set_state_def bindE_def)
  next
    case (Inr row)
    with s have "transition_row pa t ref det (tick E w) = (Inr row, v)" by (simp add: session_commit)
    then have f: "find_txn pa (txns (db w)) = Some row" "t \<in> set (valid_transitions (tr_state row))"
      "txns (db v) = update_txn pa (move_row t ref det) (txns (db w))"
      by (auto simp: transition_row_run split: option.splits if_splits)
    have "evolves (on_db (\<lambda>d d'. txns d' = txns d))
        (if audit then thenE (record_event E (state_event pa t ref det row)) (ret ()) else ret ())"
      by (intro same_txns.ev_rules same_txns.db_record_event)
    moreover from assms s Inr have "(if audit then thenE (record_event E (state_event pa t ref det row)) (ret ()) else ret ()) v = (r, w')"
      by (simp add: set_state_def bindE_def)
    ultimately have "txns (db w') = txns (db v)" by (auto simp: on_db_def dest: evolvesE)
    with f show ?thesis by auto
  qed
qed

lemma set_state_done:
  assumes "set_state E pa t ref det audit w = (Inr (), w')"
  shows "\<exists>row. find_txn pa (txns (db w)) = Some row \<and> t \<in> set (valid_transitions (tr_state row)) \<and>
      find_txn pa (txns (db w')) = Some (move_row t ref det row)"
  using set_state_effect [OF assms] by (auto simp: find_txn_update move_row_keys)

section \<open>A token is spent before the provider is asked\<close>

lemma consume_token_cases:
  assumes "consume_token E pa w = (q, w')"
  shows "(\<exists>e. q = Inl e \<and> db w' = db w) \<or>
    (\<exists>row. find_txn pa (txns (db w)) = Some row \<and>
       (q = Inr False \<and> 1 \<le> tr_token_uses row \<and> db w' = db w \<or>
        q = Inr True \<and> tr_token_uses row = 0 \<and>
          find_txn pa (txns (db w')) = Some (row\<lparr>tr_token_uses := 1\<rparr>)))"
proof (cases q)
  case (Inl e)
  with assms session_rollback show ?thesis unfolding consume_token_def by blast
next
  case (Inr b)
  with assms show ?thesis
    by (auto simp: consume_token_def session_commit bindE_def thenE_def get_row_run update_row_def db_modify_def find_txn_update
        split: option.splits if_splits)
qed

lemma submit_contact:
  assumes "provider (snd (submit E txn tok w)) \<noteq> provider w"
  shows "\<exists>row v. find_txn (ct_pa_id txn) (txns (db w)) = Some row \<and> tr_token_uses row = 0 \<and>
     consume_token E (ct_pa_id txn) w = (Inr True, v) \<and> find_txn (ct_pa_id txn) (txns (db v)) = Some (row\<lparr>tr_token_uses := 1\<rparr>)"
proof -
  from assms obtain b v where c: "consume_token E (ct_pa_id txn) w = (Inr b, v)"
    and r: "provider (snd ((if \<not> b then ret (outcome FAILED None ''token already consumed'')
     else thenE (set_state E (ct_pa_id txn) SUBMITTED None None True)
       (bindE (http_call E (serve_charge E (charge_body_of txn) (Some (''Bearer '' @ it_token tok)))) (after_call E txn))) v)) \<noteq> provider v"
    using contact_bind [OF keeps_consume] ignores_provider(3) unfolding submit_def by blast
  from r have b by (cases b) auto
  with c consume_token_cases [OF c] show ?thesis by auto
qed

lemma spent_stays:
  assumes "ledger_step E d d'" "txns_ok (txns d)" "find_txn pa (txns d) = Some r" "1 \<le> tr_token_uses r"
  shows "\<exists>r'. find_txn pa (txns d') = Some r' \<and> 1 \<le> tr_token_uses r'"
  using assms rows_evolve_find [of "txns d" "txns d'" pa r] by (fastforce simp: ledger_step_def row_evolves_def)

lemma submit_spends:
  assumes "provider (snd (submit E txn tok w)) \<noteq> provider w" "txns_ok (txns (db w))"
  shows "txns_ok (txns (db (snd (submit E txn tok w)))) \<and>
    (\<exists>r. find_txn (ct_pa_id txn) (txns (db (snd (submit E txn tok w)))) = Some r \<and> 1 \<le> tr_token_uses r)"
proof -
  from submit_contact [OF assms(1)] obtain row v where c: "consume_token E (ct_pa_id txn) w = (Inr True, v)"
    "find_txn (ct_pa_id txn) (txns (db v)) = Some (row\<lparr>tr_token_uses := 1\<rparr>)" by blast
  let ?rest = "thenE (set_state E (ct_pa_id txn) SUBMITTED None None True)
       (bindE (http_call E (serve_charge E (charge_body_of txn) (Some (''Bearer '' @ it_token tok)))) (after_call E txn))"
  have rest: "submit E txn tok w = ?rest v" using c(1) by (simp add: submit_def bindE_def)
  have "evolves (on_db (ledger_step E)) ?rest" by (intro ledger.ev_rules ev_set_state ev_http_charge ev_after_call)
  then have l: "ledger_step E (db v) (db (snd (?rest v)))" by (auto simp: on_db_def dest: evolvesD [of _ _ v])
  have ok: "txns_ok (txns (db v))"
    using evolvesE [OF ev_consume_token c(1)] assms(2) by (simp add: on_db_def ledger_step_def)
  from spent_stays [OF l ok c(2)] l ok rest show ?thesis by (auto simp: ledger_step_def)
qed

text \<open>After a submission that reached the provider, no later one does, in any process that has
  only run operations of the service meanwhile.\<close>

lemma submit_once:
  assumes "txns_ok (txns (db w))" "provider (snd (submit E txn tok w)) \<noteq> provider w"
    and "ledger_step E (db (snd (submit E txn tok w))) (db v)" "ct_pa_id txn' = ct_pa_id txn"
  shows "provider (snd (submit E txn' tok' v)) = provider v"
proof (rule ccontr)
  assume "provider (snd (submit E txn' tok' v)) \<noteq> provider v"
  from submit_contact [OF this] obtain row where "find_txn (ct_pa_id txn) (txns (db v)) = Some row" "tr_token_uses row = 0"
    using assms(4) by auto
  with submit_spends [OF assms(2,1)] spent_stays [OF assms(3)] show False by fastforce
qed

section \<open>What the outcome of a submission means\<close>

lemma http_call_reply:
  assumes "http_call E h w = (Inr (Inr r), w')"
  shows "\<exists>v v'. provider v = provider w \<and> db v = db w \<and> h v = (Inr r, v') \<and> provider w' = provider v' \<and> db w' = db v'"
  using assms by (auto simp: http_call_def Let_def sleep_def elim!: bindE_InrE thenE_InrE split: net_fault.splits if_splits)
    (fastforce intro: exI [of _ "(tick E w)\<lparr>store := e_others E (ops w) (store w)\<rparr>"])

lemma serve_charge_run:
  assumes "serve_charge E b auth v = (Inr r, v')"
  shows "\<exists>t u. create_charge E t u b auth (provider v) = (r, provider v')"
  using assms by (fastforce simp: serve_charge_def uuid4_hex_def bindE_def split: prod.splits)

text \<open>What \<open>submit\<close> returns is what the last transition wrote.\<close>

lemma after_call_outcome:
  assumes "after_call E txn resp w = (Inr out, w')"
  shows "(\<exists>row. find_txn (ct_pa_id txn) (txns (db w')) = Some row \<and> tr_state row = po_state out) \<and> provider w' = provider w \<and>
    (po_state out = CONFIRMED \<longrightarrow> (\<exists>r. resp = Inr r \<and> rep_status r < 400 \<and> status_of (rep_body r) = Some ''confirmed'' \<and>
       po_reference out = Option.bind (jget (rep_body r) ''provider_reference'') jstr)) \<and>
    (po_state out = UNKNOWN \<longleftrightarrow> (\<exists>exc. resp = Inl exc)) \<and> po_state out \<in> {CONFIRMED, FAILED, UNKNOWN}"
proof -
  have p: "provider w' = provider w" by (rule keepsE [OF keeps_after_call assms]) simp_all
  show ?thesis
  proof (cases resp)
    case (Inl exc)
    with assms obtain u v where "set_state E (ct_pa_id txn) UNKNOWN None (Some ''awaiting reconciliation; not treated as success'') True v = (Inr u, w')"
      "out = outcome UNKNOWN None ''provider timeout; reconciling''"
      by (auto simp: after_call_def elim!: thenE_InrE)
    with set_state_done [of E "ct_pa_id txn" UNKNOWN] p Inl show ?thesis by (fastforce simp: outcome_def move_row_def)
  next
    case (Inr r)
    with assms obtain u ref det where "set_state E (ct_pa_id txn) (po_state out) ref det True w = (Inr u, w')"
      "po_state out = CONFIRMED \<and> rep_status r < 400 \<and> status_of (rep_body r) = Some ''confirmed'' \<and>
        po_reference out = Option.bind (jget (rep_body r) ''provider_reference'') jstr \<or> po_state out = FAILED"
      by (auto simp: after_call_def Let_def outcome_def elim!: thenE_InrE split: if_splits)
    with set_state_done [of E "ct_pa_id txn" "po_state out" ref det True w w'] p Inr show ?thesis
      by (auto simp: move_row_def)
  qed
qed

lemma submit_run:
  assumes "submit E txn tok w = (Inr out, w')"
  shows "out = outcome FAILED None ''token already consumed'' \<and> provider w' = provider w \<or>
    (\<exists>v q resp. provider v = provider w \<and>
       http_call E (serve_charge E (charge_body_of txn) (Some (''Bearer '' @ it_token tok))) v = (Inr resp, q) \<and>
       after_call E txn resp q = (Inr out, w'))"
proof -
  from assms obtain b w1 where c: "consume_token E (ct_pa_id txn) w = (Inr b, w1)"
    and r: "(if \<not> b then ret (outcome FAILED None ''token already consumed'')
     else thenE (set_state E (ct_pa_id txn) SUBMITTED None None True)
       (bindE (http_call E (serve_charge E (charge_body_of txn) (Some (''Bearer '' @ it_token tok)))) (after_call E txn))) w1 = (Inr out, w')"
    unfolding submit_def by (rule bindE_InrE)
  have p1: "provider w1 = provider w" by (rule keepsE [OF keeps_consume c]) simp
  show ?thesis
  proof (cases b)
    case True
    with r obtain u w2 resp q where s: "set_state E (ct_pa_id txn) SUBMITTED None None True w1 = (Inr u, w2)"
      "http_call E (serve_charge E (charge_body_of txn) (Some (''Bearer '' @ it_token tok))) w2 = (Inr resp, q)"
      "after_call E txn resp q = (Inr out, w')" by (auto elim!: thenE_InrE bindE_InrE)
    moreover have "provider w2 = provider w1" by (rule keepsE [OF keeps_set_state s(1)]) simp_all
    ultimately show ?thesis using p1 by metis
  qed (use r p1 in auto)
qed

lemma submit_outcome:
  assumes "submit E txn tok w = (Inr out, w')" "po_state out = CONFIRMED" "pv_behaviour (provider w) \<noteq> TIMEOUT_BEHAVIOUR"
  shows "(\<exists>row. find_txn (ct_pa_id txn) (txns (db w')) = Some row \<and> tr_state row = CONFIRMED) \<and>
    (\<exists>ch. pv_charges (provider w') (ct_pa_id txn) = Some ch \<and> ch_status ch = ''confirmed'' \<and>
       ch_reference ch = po_reference out \<and> ch_amount ch = Some (dec_str (ct_amount txn)))"
proof -
  from submit_run [OF assms(1)] assms(2) obtain v q resp where s: "provider v = provider w"
    "http_call E (serve_charge E (charge_body_of txn) (Some (''Bearer '' @ it_token tok))) v = (Inr resp, q)"
    "after_call E txn resp q = (Inr out, w')" by (auto simp: outcome_def)
  from after_call_outcome [OF s(3)] assms(2) obtain r where a: "resp = Inr r" "status_of (rep_body r) = Some ''confirmed''"
    "po_reference out = Option.bind (jget (rep_body r) ''provider_reference'') jstr" "provider w' = provider q"
    "\<exists>row. find_txn (ct_pa_id txn) (txns (db w')) = Some row \<and> tr_state row = CONFIRMED" by auto
  from http_call_reply [OF s(2) [unfolded a(1)]] s(1) obtain x x' where h: "provider x = provider w"
    "serve_charge E (charge_body_of txn) (Some (''Bearer '' @ it_token tok)) x = (Inr r, x')" "provider q = provider x'" by auto
  from serve_charge_run [OF h(2)] obtain t u
    where c: "create_charge E t u (charge_body_of txn) (Some (''Bearer '' @ it_token tok)) (provider w) = (r, provider w')"
    using h a(4) by auto
  have "jget (rep_body r) ''status'' = Some (JStr ''confirmed'')"
    using a(2) by (auto simp: status_of_def bind_eq_Some_conv elim!: jstr.elims)
  from confirmed_recorded [OF c this assms(3)] a(3,5) show ?thesis
    by (auto simp: charge_body_of_def)
qed

lemma submit_unanswered:
  assumes "submit E txn tok w = (Inr out, w')" "po_state out = UNKNOWN"
  shows "\<exists>row. find_txn (ct_pa_id txn) (txns (db w')) = Some row \<and> tr_state row = UNKNOWN"
  using submit_run [OF assms(1)] after_call_outcome assms(2) by (fastforce simp: outcome_def)

section \<open>Sweeps over the rows\<close>

text \<open>
  Both background sweeps leave the provider as it is and change rows one by one: the contract
  of a sweep is what may happen to one row, and it lifts to whole programs.
\<close>

locale row_sweep =
  fixes Q :: "provider_state \<Rightarrow> txn_row \<Rightarrow> txn_row \<Rightarrow> bool"
  assumes Q_refl: "Q p r r"
    and Q_trans: "Q p a b \<Longrightarrow> Q p b c \<Longrightarrow> Q p a c"
begin

definition sweeps :: "world \<Rightarrow> world \<Rightarrow> bool" where
  "sweeps w w' \<longleftrightarrow> provider w' = provider w \<and> list_all2 (Q (provider w)) (txns (db w)) (txns (db w'))"

end

sublocale row_sweep \<subseteq> evolution sweeps
proof
  show "sweeps w w" for w by (simp add: sweeps_def list_all2_refl Q_refl)
  show "sweeps u w" if "sweeps u v" "sweeps v w" for u v w
  proof -
    from that have "list_all2 (Q (provider u)) (txns (db u)) (txns (db v))"
      "list_all2 (Q (provider u)) (txns (db v)) (txns (db w))" by (simp_all add: sweeps_def)
    then have "list_all2 (Q (provider u)) (txns (db u)) (txns (db w))" by (rule list_all2_trans [rotated 1]) (rule Q_trans)
    with that show ?thesis by (simp add: sweeps_def)
  qed
qed

context row_sweep
begin

lemma sweeps_same: "provider w' = provider w \<Longrightarrow> txns (db w') = txns (db w) \<Longrightarrow> sweeps w w'"
  by (simp add: sweeps_def list_all2_refl Q_refl)

lemma sweeps_read: "evolves sweeps (session_scope E (db_get f))"
  by (rule evolvesI, rule sweeps_same) (simp_all add: session_scope_def db_get_def Let_def)

lemma sweeps_set_state:
  assumes "\<And>r. r \<in> set (txns (db w)) \<Longrightarrow> tr_pa_id r = pa \<Longrightarrow> st \<in> set (valid_transitions (tr_state r)) \<Longrightarrow>
      Q (provider w) r (move_row st ref det r)"
    and "txns_ok (txns (db w))"
  shows "sweeps w (snd (set_state E pa st ref det a w))"
proof -
  obtain q w' where s: "set_state E pa st ref det a w = (q, w')" by fastforce
  have p: "provider w' = provider w" by (rule keepsE [OF keeps_set_state s]) simp_all
  from set_state_effect [OF s] show ?thesis
  proof (elim disjE exE conjE)
    fix row assume f: "find_txn pa (txns (db w)) = Some row" "st \<in> set (valid_transitions (tr_state row))"
      and u: "txns (db w') = update_txn pa (move_row st ref det) (txns (db w))"
    have "Q (provider w) r (if tr_pa_id r = pa then move_row st ref det r else r)" if r: "r \<in> set (txns (db w))" for r
    proof (cases "tr_pa_id r = pa")
      case True
      with find_txn_SomeD [OF f(1)] txns_ok_unique [OF assms(2) r] have "r = row" by auto
      with True assms(1) [OF r] f(2) show ?thesis by simp
    qed (simp add: Q_refl)
    then have "list_all2 (Q (provider w)) (txns (db w)) (txns (db w'))"
      unfolding u update_txn_def list_all2_map2 list_all2_same by blast
    then show ?thesis by (simp add: s sweeps_def p)
  qed (use p s in \<open>auto intro: sweeps_same\<close>)
qed

end

section \<open>Reconciling only asks\<close>

text \<open>The provider's answer for a payment, as \<open>reconcile_unknown\<close> reads it.\<close>

definition resolved_as :: "provider_state \<Rightarrow> string \<Rightarrow> payment_state \<Rightarrow> bool" where
  "resolved_as p pa st \<longleftrightarrow> (case pv_charges p pa of
       None \<Rightarrow> st = FAILED
     | Some c \<Rightarrow> st = CONFIRMED \<and> ch_status c = ''confirmed'' \<or> st = FAILED \<and> ch_status c \<in> {''failed'', ''declined''})"

definition reconciled :: "provider_state \<Rightarrow> txn_row \<Rightarrow> txn_row \<Rightarrow> bool" where
  "reconciled p r r' \<longleftrightarrow> tr_pa_id r' = tr_pa_id r \<and> (tr_state r' = tr_state r \<or> resolved_as p (tr_pa_id r) (tr_state r'))"

interpretation resolving: row_sweep reconciled
  by unfold_locales (auto simp: reconciled_def)

lemma http_get_reply:
  assumes "http_call E (serve_get pa) w = (q, w')"
  shows "provider w' = provider w" "db w' = db w" "q = Inr (Inr r) \<Longrightarrow> r = get_charge pa (provider w)"
proof -
  show "provider w' = provider w" "db w' = db w"
    by (rule keepsE [OF keeps_http_call [OF _ keeps_serve_get] assms], simp)+
  assume "q = Inr (Inr r)"
  with http_call_reply [of E "serve_get pa" w r w'] assms show "r = get_charge pa (provider w)"
    by (auto simp: serve_get_def)
qed

lemma get_charge_resolves:
  "rep_status (get_charge pa p) = 404 \<Longrightarrow> resolved_as p pa FAILED"
  "rep_status (get_charge pa p) \<noteq> 404 \<Longrightarrow> status_of (rep_body (get_charge pa p)) = Some ''confirmed'' \<Longrightarrow> resolved_as p pa CONFIRMED"
  "rep_status (get_charge pa p) \<noteq> 404 \<Longrightarrow> status_of (rep_body (get_charge pa p)) \<in> {Some ''failed'', Some ''declined''} \<Longrightarrow> resolved_as p pa FAILED"
  by (auto simp: get_charge_def resolved_as_def charge_json_def status_of_def split: option.splits)

text \<open>What is done with an answer.\<close>

lemma resolving_answer:
  assumes "txns_ok (txns (db v))" "resolved_as (provider v) pa st"
  shows "resolving.sweeps v (snd (thenE (set_state E pa st ref det True) (ret m) v))"
proof -
  have "resolving.sweeps v (snd (set_state E pa st ref det True v))"
    by (rule resolving.sweeps_set_state [OF _ assms(1)]) (simp add: reconciled_def move_row_def assms(2))
  then show ?thesis by (auto simp: thenE_def bindE_def split: prod.splits sum.splits)
qed

lemma resolving_one:
  assumes "txns_ok (txns (db w))"
  shows "resolving.sweeps w (snd (reconcile_one E n pa w))"
proof -
  obtain q v where h: "http_call E (serve_get pa) w = (q, v)" by fastforce
  note k = http_get_reply [OF h]
  have 1: "resolving.sweeps w v" using k by (intro resolving.sweeps_same) simp_all
  have "resolving.sweeps v (snd (reconcile_one E n pa w))"
  proof (cases "\<exists>r. q = Inr (Inr r)")
    case True
    then obtain r where q: "q = Inr (Inr r)" by blast
    with k have r: "r = get_charge pa (provider v)" by simp
    have ok: "txns_ok (txns (db v))" using assms k by simp
    from h q have "reconcile_one E n pa w = (if rep_status r = 404 then
           thenE (set_state E pa FAILED None (Some ''provider has no record; never charged'') True)
             (ret (n\<lparr>failed_n := Suc (failed_n n)\<rparr>))
         else if 400 \<le> rep_status r then ret (n\<lparr>still_unknown_n := Suc (still_unknown_n n)\<rparr>)
         else if status_of (rep_body r) = Some ''confirmed'' then
           thenE (set_state E pa CONFIRMED (Option.bind (jget (rep_body r) ''provider_reference'') jstr)
                    (Some ''resolved by reconciliation'') True)
             (ret (n\<lparr>confirmed_n := Suc (confirmed_n n)\<rparr>))
         else if status_of (rep_body r) \<in> {Some ''failed'', Some ''declined''} then
           thenE (set_state E pa FAILED None (Some ''resolved by reconciliation'') True)
             (ret (n\<lparr>failed_n := Suc (failed_n n)\<rparr>))
         else ret (n\<lparr>still_unknown_n := Suc (still_unknown_n n)\<rparr>)) v"
      by (simp add: reconcile_one_def bindE_def)
    then show ?thesis using get_charge_resolves [of pa "provider v"] r
      by (auto intro!: resolving_answer [OF ok] resolving.evo_refl)
  next
    case False
    with h show ?thesis by (auto simp: reconcile_one_def bindE_def resolving.evo_refl split: sum.splits)
  qed
  with 1 show ?thesis by (rule resolving.evo_trans)
qed

lemma resolving_all:
  "txns_ok (txns (db w)) \<Longrightarrow> resolving.sweeps w (snd (foldE (reconcile_one E) n pas w))"
proof (induction pas arbitrary: n w)
  case (Cons pa pas)
  obtain q v where r: "reconcile_one E n pa w = (q, v)" by fastforce
  have 1: "resolving.sweeps w v" using resolving_one [OF Cons.prems, of E n pa] r by simp
  have ok: "txns_ok (txns (db v))" using evolvesE [OF ev_reconcile_one r] Cons.prems by (simp add: on_db_def ledger_step_def)
  show ?case using 1 Cons.IH [OF ok] resolving.evo_trans [OF 1] r by (cases q) (auto simp: bindE_def)
qed (simp add: resolving.evo_refl)

lemma resolving_reconcile:
  assumes "txns_ok (txns (db w))"
  shows "resolving.sweeps w (snd (reconcile_unknown E m w))"
proof -
  let ?read = "session_scope E (db_get (\<lambda>d. unknown_since (now w - 60 * of_nat m) (txns d)))"
  obtain q v where r: "?read w = (q, v)" by fastforce
  have 1: "resolving.sweeps w v" by (rule evolvesE [OF resolving.sweeps_read r])
  have "db v = db w" using r by (auto simp: session_scope_def db_get_def Let_def split: if_splits)
  with assms have "resolving.sweeps v (snd (foldE (reconcile_one E) \<lparr>confirmed_n = 0, failed_n = 0, still_unknown_n = 0\<rparr> pas v))" for pas
    by (intro resolving_all) simp
  with 1 r show ?thesis by (cases q) (auto simp: reconcile_unknown_def bindE_def intro: resolving.evo_trans)
qed

section \<open>Expiring\<close>

definition expired_in :: "string set \<Rightarrow> provider_state \<Rightarrow> txn_row \<Rightarrow> txn_row \<Rightarrow> bool" where
  "expired_in S p r r' \<longleftrightarrow> tr_pa_id r' = tr_pa_id r \<and> tr_token_expires_at r' = tr_token_expires_at r \<and>
     (tr_state r' = tr_state r \<or> tr_pa_id r \<in> S \<and> tr_state r = AUTHORIZED \<and> tr_state r' = EXPIRED)"

interpretation expiring: row_sweep "expired_in S" for S
  by unfold_locales (auto simp: expired_in_def)

lemma expirable: "EXPIRED \<in> set (valid_transitions st) \<longleftrightarrow> st = AUTHORIZED"
  by (cases st) simp_all

lemma expiring_all:
  "txns_ok (txns (db w)) \<Longrightarrow> set pas \<subseteq> S \<Longrightarrow>
    expiring.sweeps S w (snd (forE pas (\<lambda>pa. set_state E pa EXPIRED None det True) w))"
proof (induction pas arbitrary: w)
  case (Cons pa pas)
  obtain q v where r: "set_state E pa EXPIRED None det True w = (q, v)" by fastforce
  have "expiring.sweeps S w (snd (set_state E pa EXPIRED None det True w))"
    by (rule expiring.sweeps_set_state [OF _ Cons.prems(1)])
      (use Cons.prems(2) in \<open>simp add: expired_in_def move_row_def expirable\<close>)
  then have 1: "expiring.sweeps S w v" by (simp add: r)
  have ok: "txns_ok (txns (db v))" using evolvesE [OF ev_set_state r] Cons.prems(1) by (simp add: on_db_def ledger_step_def)
  show ?case using 1 expiring.evo_trans [OF 1 Cons.IH [OF ok]] Cons.prems(2) r by (cases q) (auto simp: thenE_def bindE_def)
qed (simp add: expiring.evo_refl)

lemma expire_run:
  assumes "expire_stale_authorizations E w = (q, w')"
  shows "(\<exists>e. q = Inl e \<and> db w' = db w \<and> provider w' = provider w) \<or>
    (\<exists>v r. db v = db w \<and> provider v = provider w \<and> q = map_sum id (\<lambda>_. length (stale_at (now w) (txns (db w)))) r \<and>
      forE (stale_at (now w) (txns (db w))) (\<lambda>pa. set_state E pa EXPIRED None (Some ''token TTL elapsed unused'') True) v = (r, w'))"
proof -
  let ?m = "session_scope E (db_get (\<lambda>d. stale_at (now w) (txns d)))"
  obtain s v where r: "?m w = (s, v)" by fastforce
  have k: "db v = db w" "provider v = provider w" using r by (auto simp: session_scope_def db_get_def Let_def split: if_splits)
  show ?thesis
  proof (cases s)
    case (Inl e)
    with r k assms show ?thesis by (auto simp: expire_stale_authorizations_def bindE_def)
  next
    case (Inr pas)
    with r have "pas = stale_at (now w) (txns (db w))" by (auto simp: session_commit db_get_def)
    with Inr r k assms show ?thesis
      by (auto simp: expire_stale_authorizations_def bindE_def thenE_def split: prod.splits sum.splits intro!: exI [of _ v])
  qed
qed

lemma expiring_sweep:
  assumes "txns_ok (txns (db w))"
  shows "expiring.sweeps (set (stale_at (now w) (txns (db w)))) w (snd (expire_stale_authorizations E w))"
proof -
  obtain q w' where e: "expire_stale_authorizations E w = (q, w')" by fastforce
  from expire_run [OF e] show ?thesis
  proof (elim disjE exE conjE)
    fix v r assume v: "db v = db w" "provider v = provider w"
      and f: "forE (stale_at (now w) (txns (db w))) (\<lambda>pa. set_state E pa EXPIRED None (Some ''token TTL elapsed unused'') True) v = (r, w')"
    have "expiring.sweeps (set (stale_at (now w) (txns (db w)))) v w'"
      using expiring_all [of v "stale_at (now w) (txns (db w))" "set (stale_at (now w) (txns (db w)))" E "Some ''token TTL elapsed unused''"] assms v f
      by simp
    with v show ?thesis by (simp add: e expiring.sweeps_def)
  qed (simp add: e expiring.sweeps_same)
qed

lemma expire_all_done:
  "forE pas (\<lambda>pa. set_state E pa EXPIRED None det True) v = (Inr (), w') \<Longrightarrow> txns_ok (txns (db v)) \<Longrightarrow> pa \<in> set pas \<Longrightarrow>
    \<exists>r. find_txn pa (txns (db w')) = Some r \<and> tr_state r = EXPIRED"
proof (induction pas arbitrary: v)
  case (Cons p pas)
  from Cons.prems(1) obtain u v1 where s: "set_state E p EXPIRED None det True v = (Inr u, v1)"
    and f: "forE pas (\<lambda>pa. set_state E pa EXPIRED None det True) v1 = (Inr (), w')" by (auto elim: thenE_InrE)
  have ok: "txns_ok (txns (db v1))" using evolvesE [OF ev_set_state s] Cons.prems(2) by (simp add: on_db_def ledger_step_def)
  show ?case
  proof (cases "pa \<in> set pas")
    case True
    then show ?thesis by (rule Cons.IH [OF f ok])
  next
    case False
    with Cons.prems(3) s set_state_done [of E p EXPIRED None det True v v1]
    obtain r where r: "find_txn pa (txns (db v1)) = Some r" "tr_state r = EXPIRED" by (auto simp: move_row_def)
    have "evolves (on_db (ledger_step E)) (forE pas (\<lambda>pa. set_state E pa EXPIRED None det True))"
      by (intro ledger.ev_rules ev_set_state)
    from evolvesE [OF this f] ok have "rows_evolve (txns (db v1)) (txns (db w'))" by (simp add: on_db_def ledger_step_def)
    from rows_evolve_find [OF this r(1)] r(2) show ?thesis by (auto simp: row_evolves_def moves_terminal)
  qed
qed simp

end
