(* ===== verification/Outcomes.thy ===== *)
theory Outcomes
  imports Settlement
begin

text \<open>
  What a response tells its caller: a retry gets the stored answer and touches nothing, a key
  or a cart used twice is refused, a decision that is not an ALLOW carries no token and moved
  no money, and what an executed ALLOW presupposes when the policy server evaluates the shipped
  bundle.
\<close>

section \<open>Duplicates\<close>

text \<open>The stored answer under the request's idempotency key at the time it is looked up.\<close>

definition stored_for :: "env \<Rightarrow> canonical_txn \<Rightarrow> world \<Rightarrow> sval option" where
  "stored_for E txn w = st_look (now (tick E w)) (store w) (idem_key (ct_user_id txn) (ct_idempotency_key txn))"

lemma store_get_run: "store_get E k w = (if e_store_ok E (ops w)
    then (Inr (st_look (now (tick E w)) (store w) k), (tick E w)\<lparr>store := snd (st_get (now (tick E w)) k (store w))\<rparr>)
    else (Inl StoreDown, tick E w))"
  using mem.get_val [of "now (tick E w)" k "store w"] by (auto simp: store_get_def store_call_def Let_def split: prod.splits)

lemma check_duplicate_stored:
  assumes "stored_for E txn w = Some (SIdem h r)" "e_store_ok E (ops w)"
  shows "\<exists>w'. check_duplicate E txn w = (Inr (if h = ct_payload_hash txn
     then \<lparr>io_finding = no_duplicate\<lparr>df_detail := ''idempotent_replay''\<rparr>, io_replay = Some r\<rparr> else idem_conflict), w') \<and>
     db w' = db w \<and> provider w' = provider w"
  using assms by (simp add: check_duplicate_def bindE_def store_get_run stored_for_def falsy_def)

lemma replay_stored_run:
  "\<exists>w'. replay_stored E txn r w = (Inr (r\<lparr>rsp_replayed := True, rsp_message := ''idempotent replay: identical stored response returned''\<rparr>), w') \<and>
     provider w' = provider w \<and> txns (db w') = txns (db w)"
proof -
  obtain w1 where 1: "em_finish CANONICAL PASSED [(''idempotent_replay'', JBool True), (''idempotency_key'', JStr (ct_idempotency_key txn))] w = (Inr (), w1)"
    using emit_total by blast
  obtain w2 where 2: "skip_remaining CANONICAL [''IDEMPOTENT_REPLAY''] w1 = (Inr (), w2)" using skip_total by blast
  let ?e = "(event ''decision.idempotent_replay'')\<lparr>
         ei_pa_id := Some (rsp_payment_authorization_id r), ei_user_id := Some (ct_user_id txn),
         ei_agent_id := Some (ct_agent_id txn), ei_decision := Some (decision_str (rsp_decision r)),
         ei_reason_codes := [''IDEMPOTENT_REPLAY''], ei_policy_version := Some (cfg_policy_version (e_cfg E)),
         ei_payload := JObj [(''idempotency_key'', JStr (ct_idempotency_key txn))]\<rparr>"
  obtain x w3 where 3: "record_event_safe E ?e w2 = (Inr x, w3)" using record_event_safe_total by blast
  have "provider w3 = provider w"
    using keepsE [OF keeps_em_finish 1, of provider] keepsE [OF keeps_skip 2, of provider] keepsE [OF keeps_record_event_safe 3, of provider] by simp
  moreover have "txns (db w3) = txns (db w)"
    using keepsE [OF keeps_em_finish 1, of db] keepsE [OF keeps_skip 2, of db]
      evolvesE [OF same_txns.db_record_event_safe 3] by (simp add: on_db_def)
  ultimately show ?thesis using 1 2 3 by (simp add: replay_stored_def thenE_def bindE_def)
qed

lemma run_pipeline_replay:
  assumes "stored_for E txn w = Some (SIdem (ct_payload_hash txn) r)" "e_store_ok E (ops w)"
  shows "\<exists>w'. run_pipeline E txn i x w = (Inr (r\<lparr>rsp_replayed := True, rsp_message := ''idempotent replay: identical stored response returned''\<rparr>), w') \<and>
     provider w' = provider w \<and> txns (db w') = txns (db w)"
proof -
  from check_duplicate_stored [OF assms] obtain w1 where
    "check_duplicate E txn w = (Inr \<lparr>io_finding = no_duplicate\<lparr>df_detail := ''idempotent_replay''\<rparr>, io_replay = Some r\<rparr>, w1)"
    "db w1 = db w" "provider w1 = provider w" by auto
  with replay_stored_run [of E txn r w1] show ?thesis by (auto simp: run_pipeline_def bindE_def)
qed

section \<open>What each branch answers\<close>

definition harmless :: "decision_response \<Rightarrow> bool" where
  "harmless r \<longleftrightarrow> rsp_decision r \<noteq> ALLOW \<and> rsp_authorization r = None \<and> rsp_provider_reference r = None"

lemma response_simps [simp]: "rsp_decision (response pa d cs st rk p) = d" "rsp_authorization (response pa d cs st rk p) = None"
  "rsp_provider_reference (response pa d cs st rk p) = None"
  by (simp_all add: response_def)

lemma audit_stage_answer:
  assumes "audit_stage E txn v rsp w = (Inr r, w')"
  shows "\<exists>i h. r = rsp\<lparr>rsp_audit_event_id := i, rsp_audit_hash := h\<rparr>"
  using assms by (fastforce simp: audit_stage_def elim!: thenE_InrE bindE_InrE split: prod.splits)

lemma carry_out_answer:
  assumes "carry_out E txn dup x v w = (Inr r, w')"
  shows "rsp_decision r = pr_decision (ev_verdict v) \<and>
    (pr_decision (ev_verdict v) \<noteq> ALLOW \<longrightarrow> harmless r \<and> provider w' = provider w)"
proof -
  let ?d = "pr_decision (ev_verdict v)"
  from assms obtain w1 rsp w2 where a: "authorization_stage E txn (ev_verdict v) x
      (response (ct_pa_id txn) ?d (pr_reason_codes (ev_verdict v)) CREATED (ev_risk v) (pr_policy_version (ev_verdict v))) w1 = (Inr rsp, w2)"
    and b: "\<exists>u u'. audit_stage E txn v rsp u = (Inr r, u')"
    unfolding carry_out_def Let_def by (fastforce elim!: thenE_InrE bindE_InrE)
  from b obtain i h where r: "r = rsp\<lparr>rsp_audit_event_id := i, rsp_audit_hash := h\<rparr>" using audit_stage_answer by blast
  have "rsp_decision rsp = ?d \<and> (?d \<noteq> ALLOW \<longrightarrow> rsp_authorization rsp = None \<and> rsp_provider_reference rsp = None)"
    using a by (cases ?d)
      (auto simp: authorization_stage_def block_branch_def approval_branch_def allow_branch_def with_outcome_def Let_def
        elim!: thenE_InrE bindE_InrE split: if_splits)
  moreover have "provider w' = provider w" if "?d \<noteq> ALLOW"
    by (rule keepsE [OF keeps_carry_out [OF side_free_provider(1)] assms]) (simp add: that)
  ultimately show ?thesis by (simp add: r harmless_def)
qed

lemma run_pipeline_answer:
  assumes "run_pipeline E txn i x w = (Inr r, w')" "rsp_decision r \<noteq> ALLOW"
  shows "provider w' = provider w \<and> (harmless r \<or> rsp_replayed r)"
proof -
  from assms(1) obtain dup w1 where 1: "check_duplicate E txn w = (Inr dup, w1)"
    and r: "(case io_replay dup of Some r \<Rightarrow> replay_stored E txn r
     | None \<Rightarrow> bindE (decide E txn i (io_finding dup)) (carry_out E txn dup x)) w1 = (Inr r, w')"
    unfolding run_pipeline_def by (rule bindE_InrE)
  have p1: "provider w1 = provider w" by (rule keepsE [OF keeps_check_duplicate 1]) simp
  show ?thesis
  proof (cases "io_replay dup")
    case None
    with r obtain v w2 where d: "decide E txn i (io_finding dup) w1 = (Inr v, w2)" "carry_out E txn dup x v w2 = (Inr r, w')"
      by (auto elim: bindE_InrE)
    have "provider w2 = provider w1" by (rule keepsE [OF keeps_decide [OF side_free_provider(1)] d(1)])
    with carry_out_answer [OF d(2)] assms(2) p1 show ?thesis by auto
  next
    case (Some s)
    with r replay_stored_run [of E txn s w1] p1 show ?thesis by auto
  qed
qed

section \<open>Refusals\<close>

lemma conflict_denied:
  "df_idempotency_conflict d \<or> df_fingerprint_conflict d \<Longrightarrow> rego_decision (policy_input E txn i c a d ap) = BLOCK"
  by (rule ccontr) (use no_deny_facts(16,17) [of "policy_input E txn i c a d ap"] in
      \<open>auto simp: rego_decision_def policy_input_def build_input_def split: if_splits\<close>)

lemma faithful_verdict:
  assumes "opa_faithful E" "decide E txn i d w = (Inr v, w')"
  shows "\<exists>t k ap. now w \<le> t \<and> ev_context v = (db_context txn t (db w))\<lparr>pc_transactions_last_hour := k\<rparr> \<and>
    (pr_decision (ev_verdict v) = BLOCK \<or>
     pr_decision (ev_verdict v) = rego_decision (policy_input E txn i (ev_context v) (ev_analysis v) d ap))"
proof -
  from decide_ok [OF assms(2)] obtain t k ap n where d: "now w \<le> t"
    "ev_context v = (db_context txn t (db w))\<lparr>pc_transactions_last_hour := k\<rparr>"
    "ev_verdict v = read_reply (pc_policy_version (ev_context v))
      (e_opa E n (policy_input E txn i (ev_context v) (ev_analysis v) d ap))" by blast
  let ?i = "policy_input E txn i (ev_context v) (ev_analysis v) d ap"
  from assms(1) consider "e_opa E n ?i = rego_result ?i" | nm where "e_opa E n ?i = OpaError nm"
    unfolding opa_faithful_def by blast
  then have "pr_decision (ev_verdict v) = BLOCK \<or> pr_decision (ev_verdict v) = rego_decision ?i"
  proof cases
    case 1
    with rego_result_decision [of ?i] d(3) show ?thesis by (auto simp: read_reply_def)
  next
    case 2
    with d(3) show ?thesis by (simp add: read_reply_def unavailable_def)
  qed
  with d show ?thesis by blast
qed

lemma duplicate_blocked:
  assumes "opa_faithful E" "run_pipeline E txn i x w = (Inr r, w')"
    and "check_duplicate E txn w = (Inr dup, w1)" "is_conflict dup" "io_replay dup = None"
  shows "rsp_decision r = BLOCK \<and> harmless r \<and> provider w' = provider w"
proof -
  from assms(2,3,5) obtain v w2 where d: "decide E txn i (io_finding dup) w1 = (Inr v, w2)" "carry_out E txn dup x v w2 = (Inr r, w')"
    by (auto simp: run_pipeline_def elim!: bindE_InrE)
  from faithful_verdict [OF assms(1) d(1)] conflict_denied [of "io_finding dup"] assms(4)
  have b: "pr_decision (ev_verdict v) = BLOCK" by (auto simp: is_conflict_def)
  have "provider w1 = provider w" by (rule keepsE [OF keeps_check_duplicate assms(3)]) simp
  moreover have "provider w2 = provider w1" by (rule keepsE [OF keeps_decide [OF side_free_provider(1)] d(1)])
  ultimately show ?thesis using carry_out_answer [OF d(2)] b by simp
qed

lemma reused_key_blocked:
  assumes "opa_faithful E" "run_pipeline E txn i x w = (Inr r, w')"
    and "stored_for E txn w = Some (SIdem h s)" "h \<noteq> ct_payload_hash txn"
  shows "rsp_decision r = BLOCK \<and> harmless r \<and> provider w' = provider w"
proof -
  from assms(2) have ok: "e_store_ok E (ops w)"
    by (auto simp: run_pipeline_def check_duplicate_def store_get_run bindE_def split: if_splits)
  from check_duplicate_stored [OF assms(3) ok] assms(4) obtain w1 where "check_duplicate E txn w = (Inr idem_conflict, w1)" by auto
  then show ?thesis by (rule duplicate_blocked [OF assms(1,2)]) (simp_all add: is_conflict_def idem_conflict_def)
qed

text \<open>A row that waits for approval occupies its idempotency key: the approved retry cannot be
  persisted, and raises before anything is authorized.\<close>

lemma approved_retry_collides:
  assumes "r0 \<in> set (txns (db w))" "tr_user_id r0 = ct_user_id txn" "tr_idempotency_key r0 = ct_idempotency_key txn"
    "tr_decision r0 = ''REQUIRE_APPROVAL''" "pr_decision (ev_verdict v) = ALLOW"
  shows "\<exists>e w'. carry_out E txn dup x v w = (Inl e, w') \<and> e = IntegrityError \<and> db w' = db w \<and> provider w' = provider w"
proof -
  have "\<not> insertable (row_of txn (decision_str ALLOW) cs CREATED rk p t) (txns (db w))" for cs rk p t
    using assms by (auto simp: insertable_def index_conflict_def row_of_def intro!: bexI [of _ r0])
  then have "persist_transaction E txn (decision_str ALLOW) cs CREATED rk p w = (Inl IntegrityError, (tick E w)\<lparr>db := db w\<rparr>)" for cs rk p
    by (simp add: persist_transaction_def session_scope_def insert_txn_def db_get_def bindE_def Let_def)
  then show ?thesis using assms(5) by (simp add: carry_out_def Let_def thenE_def bindE_def)
qed

section \<open>What an executed ALLOW presupposes\<close>

text \<open>The registry facts behind a permitted charge, in the words of the tables.\<close>

definition permitted :: "database \<Rightarrow> payment_intent \<Rightarrow> bool" where
  "permitted d p \<longleftrightarrow> (\<exists>pol a. policies d (pi_delegation_id p) = Some pol \<and> agents d (pi_agent_id p) = Some a \<and>
     sp_user_id pol = pi_user_id p \<and> \<not> sp_revoked pol \<and> ag_active a \<and>
     pi_currency p = sp_currency pol \<and> to_minor_units (pi_amount p) \<le> to_minor_units (sp_per_transaction_limit pol) \<and>
     pi_merchant_id p \<notin> set (sp_blocked_merchants pol) \<and>
     (sp_allowed_merchants pol = [] \<or> pi_merchant_id p \<in> set (sp_allowed_merchants pol)) \<and>
     (sp_require_verified pol \<longrightarrow> (\<exists>m. merchants d (pi_merchant_id p) = Some m \<and> mr_verified m)))"

definition within_budget :: "database \<Rightarrow> payment_intent \<Rightarrow> real \<Rightarrow> bool" where
  "within_budget d p t \<longleftrightarrow> (case policies d (pi_delegation_id p) of None \<Rightarrow> False
     | Some pol \<Rightarrow> spent_since (pi_user_id p) (t - 86400) (txns d) + to_minor_units (pi_amount p) \<le> to_minor_units (sp_daily_limit pol))"

lemma context_facts:
  assumes "c = (db_context (build_canonical E p i pa t0) t d)\<lparr>pc_transactions_last_hour := k\<rparr>"
    and "id_user_id i = pi_user_id p" "id_agent_id i = pi_agent_id p" "id_delegation_id i = pi_delegation_id p"
    and "pc_policy_found c" "pc_agent_registered c"
  shows "\<exists>pol a. policies d (pi_delegation_id p) = Some pol \<and> agents d (pi_agent_id p) = Some a \<and> sp_user_id pol = pi_user_id p \<and>
    pc_policy_revoked c = sp_revoked pol \<and> pc_agent_active c = ag_active a \<and> pc_policy_currency c = sp_currency pol \<and>
    pc_per_transaction_limit c = sp_per_transaction_limit pol \<and> pc_daily_limit c = sp_daily_limit pol \<and>
    pc_blocked_merchants c = sp_blocked_merchants pol \<and> pc_allowed_merchants c = sp_allowed_merchants pol \<and>
    pc_require_verified_merchant c = sp_require_verified pol \<and>
    (pc_merchant_verified c \<longrightarrow> (\<exists>m. merchants d (pi_merchant_id p) = Some m \<and> mr_verified m)) \<and>
    to_minor_units (pc_spent_today c) = spent_since (pi_user_id p) (t - 86400) (txns d)"
  using assms
  by (auto simp: db_context_def with_agent_def with_merchant_def with_policy_def no_context_def build_canonical_def Let_def
      split: option.splits if_splits)

lemma rego_allow_permits:
  assumes "rego_decision (policy_input E (build_canonical E p i pa t0) i c a dup ap) = ALLOW"
    and "c = (db_context (build_canonical E p i pa t0) t d)\<lparr>pc_transactions_last_hour := k\<rparr>"
    and "id_user_id i = pi_user_id p" "id_agent_id i = pi_agent_id p" "id_delegation_id i = pi_delegation_id p"
  shows "permitted d p \<and> within_budget d p t"
proof -
  let ?x = "policy_input E (build_canonical E p i pa t0) i c a dup ap"
  note f = no_deny_facts [OF rego_allow_no_deny [OF assms(1)]]
  note s = policy_input_def build_input_def context_input_of_def build_canonical_def Let_def
  have g: "pc_policy_found c" "pc_agent_registered c" "pc_agent_active c" "\<not> pc_policy_revoked c"
    using f(1,2,11,12) by (simp_all add: s)
  from context_facts [OF assms(2-5) g(1,2)] obtain pol ag where c: "policies d (pi_delegation_id p) = Some pol" "agents d (pi_agent_id p) = Some ag"
    "sp_user_id pol = pi_user_id p" "pc_policy_revoked c = sp_revoked pol" "pc_agent_active c = ag_active ag" "pc_policy_currency c = sp_currency pol"
    "pc_per_transaction_limit c = sp_per_transaction_limit pol" "pc_daily_limit c = sp_daily_limit pol"
    "pc_blocked_merchants c = sp_blocked_merchants pol" "pc_allowed_merchants c = sp_allowed_merchants pol"
    "pc_require_verified_merchant c = sp_require_verified pol"
    "pc_merchant_verified c \<longrightarrow> (\<exists>m. merchants d (pi_merchant_id p) = Some m \<and> mr_verified m)"
    "to_minor_units (pc_spent_today c) = spent_since (pi_user_id p) (t - 86400) (txns d)" by blast
  have "permitted d p" unfolding permitted_def
    using f(3,5,7,8,9) c g by (intro exI [of _ pol] exI [of _ ag]) (auto simp: s)
  moreover have "within_budget d p t" unfolding within_budget_def using f(4) c by (simp add: s)
  ultimately show ?thesis ..
qed

text \<open>A faithful server's ALLOW is the bundle's.\<close>

lemma opa_allow_rego:
  assumes "opa_faithful E" "e_opa E n i = OpaResult r" "or_decision r = ''ALLOW''"
  shows "rego_decision i = ALLOW"
proof -
  have "rego_result i = OpaResult r" using assms(1,2) unfolding opa_faithful_def by (metis opa_reply.distinct(5))
  with rego_result_decision [of i] assms(3) have "decision_str (rego_decision i) = ''ALLOW''" by auto
  then show ?thesis by (cases "rego_decision i") simp_all
qed

lemma charge_permitted:
  assumes "opa_faithful E" "provider (snd (create_payment_intent E p h xr x w)) \<noteq> provider w"
  shows "x \<and> permitted (db w) p \<and> (\<exists>t \<ge> now w. within_budget (db w) p t) \<and>
    \<not> st_sismember REVOCATION_SET (pi_delegation_id p) (store w)"
proof -
  from create_contact [OF assms(2)] obtain i pa w0 w1 t0 t k where x: "x" and a: "authenticate E h p w0 = (Inr i, w1)"
    and s: "store w0 = store w" and t: "now w \<le> t0" "t0 \<le> t"
    and o: "allowed_by_opa E (build_canonical E p i pa t0) i ((db_context (build_canonical E p i pa t0) t (db w))\<lparr>pc_transactions_last_hour := k\<rparr>) t0"
    unfolding Let_def by blast
  note b = authenticate_ok [OF a]
  let ?c = "(db_context (build_canonical E p i pa t0) t (db w))\<lparr>pc_transactions_last_hour := k\<rparr>"
  from o obtain n an dup ap r where r: "e_opa E n (policy_input E (build_canonical E p i pa t0) i ?c an dup ap) = OpaResult r" "or_decision r = ''ALLOW''"
    unfolding allowed_by_opa_def by blast
  let ?i = "policy_input E (build_canonical E p i pa t0) i ?c an dup ap"
  from opa_allow_rego [OF assms(1) r] have "rego_decision ?i = ALLOW" .
  from rego_allow_permits [OF this refl] b have "permitted (db w) p \<and> within_budget (db w) p t" by blast
  with x b s t show ?thesis by (metis order_trans)
qed

section \<open>What screened a charge\<close>

text \<open>A human's approval of exactly this transaction, verified at time \<open>t\<close> or later.\<close>

definition approved_after :: "env \<Rightarrow> canonical_txn \<Rightarrow> real \<Rightarrow> bool" where
  "approved_after E txn t \<longleftrightarrow> (\<exists>tok t' c. t \<le> t' \<and> ct_approval_token txn = Some tok \<and> verify_approval_token E t' tok = Inr c \<and>
     bound_amount_of E c = Some (to_minor_units (ct_amount txn)) \<and> claim_str c ''bound_merchant_id'' = Some (ct_merchant_id txn) \<and>
     claim_str c ''bound_currency'' = Some (ct_currency txn) \<and> claim_str c ''bound_cart_hash'' = Some (ct_cart_hash txn))"

lemma evaluate_satisfied:
  assumes "evaluate_token E (ct_approval_token txn) u = (Inr ap, u')" "approval_satisfied (policy_input E txn i c a d ap)" "t \<le> now u"
  shows "approved_after E txn t"
proof -
  from assms(1,2) obtain tok where "ct_approval_token txn = Some tok" "tok \<noteq> ''''"
    by (cases "ct_approval_token txn")
      (auto simp: evaluate_token_def approval_satisfied_def policy_input_def build_input_def no_approval_def Let_def split: if_splits)
  with assms show ?thesis
    unfolding approved_after_def
    by (auto simp: evaluate_token_def bindE_def approval_satisfied_def policy_input_def build_input_def no_approval_def Let_def
        intro!: exI [of _ "now u"] split: sum.splits jwt_error.splits option.splits)
qed

definition needs_no_human :: "env \<Rightarrow> policy_row \<Rightarrow> canonical_txn \<Rightarrow> analysis_result \<Rightarrow> bool" where
  "needs_no_human E pol txn a \<longleftrightarrow> to_minor_units (ct_amount txn) < to_minor_units (sp_approval_threshold pol) \<and>
     an_injection_confidence a < injection_review \<and>
     (an_classifier_degraded a \<longrightarrow> cfg_allow_degraded_classifier (e_cfg E))"

lemma rego_allow_screens:
  assumes "rego_decision (policy_input E (build_canonical E p i pa t0) i c a dup ap) = ALLOW"
    and "c = (db_context (build_canonical E p i pa t0) t d)\<lparr>pc_transactions_last_hour := k\<rparr>"
    and "id_user_id i = pi_user_id p" "id_agent_id i = pi_agent_id p" "id_delegation_id i = pi_delegation_id p"
  shows "an_injection_confidence a < injection_hard_block \<and>
    (approval_satisfied (policy_input E (build_canonical E p i pa t0) i c a dup ap) \<or>
     (\<exists>pol. policies d (pi_delegation_id p) = Some pol \<and> needs_no_human E pol (build_canonical E p i pa t0) a))"
proof -
  let ?x = "policy_input E (build_canonical E p i pa t0) i c a dup ap"
  have n: "deny_reasons ?x = []" by (rule rego_allow_no_deny [OF assms(1)])
  note s = policy_input_def build_input_def context_input_of_def
  have "an_injection_confidence a < injection_hard_block" using no_deny_facts(15) [OF n] by (simp add: s Let_def)
  moreover have "\<exists>pol. policies d (pi_delegation_id p) = Some pol \<and> needs_no_human E pol (build_canonical E p i pa t0) a"
    if "\<not> approval_satisfied ?x"
  proof -
    have r: "approval_reasons ?x = []" using that assms(1) n by (auto simp: rego_decision_def split: if_splits)
    note f = no_review_facts [OF r n]
    have "ci_policy_found (in_context ?x)" by (rule no_deny_facts(1) [OF n])
    then have "pc_policy_found c" by (simp add: s Let_def)
    then obtain pol where "policies d (pi_delegation_id p) = Some pol" "pc_approval_threshold c = sp_approval_threshold pol"
      using assms(2) by (auto simp: db_context_def with_agent_def with_merchant_def with_policy_def no_context_def build_canonical_def assms(5) Let_def
          split: option.splits if_splits)
    with f(1,3,4) show ?thesis by (auto simp: needs_no_human_def s Let_def)
  qed
  ultimately show ?thesis by blast
qed

lemma charge_screened:
  assumes "opa_faithful E" "provider (snd (create_payment_intent E p h xr x w)) \<noteq> provider w"
  shows "\<exists>i pa t a v v'. now w \<le> t \<and> t \<le> now v \<and> analyze E (build_canonical E p i pa t) v = (Inr a, v') \<and>
    an_injection_confidence a < injection_hard_block \<and>
    (approved_after E (build_canonical E p i pa t) t \<or>
     (\<exists>pol. policies (db w) (pi_delegation_id p) = Some pol \<and> needs_no_human E pol (build_canonical E p i pa t) a))"
proof -
  from create_contact [OF assms(2)] obtain i pa w0 w1 t0 t k where a: "authenticate E h p w0 = (Inr i, w1)" and t: "now w \<le> t0"
    and o: "allowed_by_opa E (build_canonical E p i pa t0) i ((db_context (build_canonical E p i pa t0) t (db w))\<lparr>pc_transactions_last_hour := k\<rparr>) t0"
    unfolding Let_def by blast
  let ?txn = "build_canonical E p i pa t0"
  let ?c = "(db_context ?txn t (db w))\<lparr>pc_transactions_last_hour := k\<rparr>"
  from o obtain n an dup ap r where g: "gathered E ?txn t0 an ap"
    and r: "e_opa E n (policy_input E ?txn i ?c an dup ap) = OpaResult r" "or_decision r = ''ALLOW''"
    unfolding allowed_by_opa_def by blast
  from g obtain v v' u u' where v: "t0 \<le> now v" "analyze E ?txn v = (Inr an, v')"
    and u: "t0 \<le> now u" "evaluate_token E (ct_approval_token ?txn) u = (Inr ap, u')" unfolding gathered_def by blast
  note s = rego_allow_screens [OF opa_allow_rego [OF assms(1) r] refl]
  show ?thesis using s evaluate_satisfied [OF u(2) _ u(1)] authenticate_ok [OF a] t v by blast
qed

section \<open>The numbers of the events\<close>

lemma ignores_emitter [simp]: "ignores_clock emitter" "ignores_store emitter" "ignores_db emitter"
  by (simp_all add: ignores_defs)

lemma seq_submit: "evolves seq_ordered (submit E txn tok)"
proof (rule seq_keeps)
  show "evolves (keeps emitter) (submit E txn tok)" "evolves (keeps outbox) (submit E txn tok)"
    unfolding submit_def
    by (intro frame.ev_rules keeps_consume keeps_set_state keeps_http_call keeps_serve_charge keeps_after_call; simp)+
qed

lemmas frames_of_events = keeps_analyze keeps_load_context keeps_evaluate_token keeps_evaluate keeps_persist keeps_set_state keeps_create_request
  keeps_record_velocity keeps_authorize keeps_record_event_safe keeps_remember keeps_check_duplicate

lemma seq_stages: "evolves seq_ordered (analyze E txn)" "evolves seq_ordered (load_context E txn)" "evolves seq_ordered (evaluate_token E t)"
  "evolves seq_ordered (evaluate E i)" "evolves seq_ordered (persist_transaction E txn d rs st rk p)" "evolves seq_ordered (set_state E pa s ref det a)"
  "evolves seq_ordered (create_request E txn cs)" "evolves seq_ordered (record_velocity E txn)" "evolves seq_ordered (authorize E txn p)"
  "evolves seq_ordered (record_event_safe E e)" "evolves seq_ordered (remember_outcome E txn r b)" "evolves seq_ordered (check_duplicate E txn)"
  by (intro seq_keeps frames_of_events; simp)+

lemmas seq_rules = seqs.ev_rules seq_emit seq_submit seq_stages

lemma seq_run_pipeline: "evolves seq_ordered (run_pipeline E txn i x)"
  unfolding run_pipeline_def replay_stored_def decide_def carry_out_def authorization_stage_def block_branch_def approval_branch_def
    allow_branch_def audit_stage_def Let_def
  by (auto intro!: seq_rules split: decision.splits)

end
