(* ===== verification/Linking.thy ===== *)
theory Linking
  imports World
begin

text \<open>
  \<open>control_plane/telegram.py\<close>: one-time codes that bind a Telegram id to an account. A code is
  single-use and expires after ten minutes; issuing one drops the account's earlier unused
  code. The table of links is a finite map from Telegram ids to accounts, and the operations
  refine the operations on that map.
\<close>

section \<open>Codes\<close>

definition CODE_TTL :: real where "CODE_TTL = 600"

definition mask_id :: "string \<Rightarrow> string" where
  "mask_id tid = (if length tid \<le> 4 then replicate (length tid) (CHR ''*'')
     else take 2 tid @ replicate (length tid - 4) (CHR ''*'') @ drop (length tid - 2) tid)"

text \<open>Six characters drawn with \<open>secrets.choice\<close>.\<close>

definition draw_code :: "env \<Rightarrow> string act" where
  "draw_code E = (\<lambda>w. (Inr (''LINK-'' @ e_link_code E (uuids w)), w\<lparr>uuids := Suc (uuids w)\<rparr>))"

record issued_code =
  ic_code :: string
  ic_expires_at :: real
  ic_expires_in :: int

definition unused_of :: "string \<Rightarrow> tg_code_row \<Rightarrow> bool" where
  "unused_of user r \<longleftrightarrow> tc_user_id r = user \<and> tc_used_at r = None"

text \<open>The session of \<open>issue_code\<close>: drop the stale codes, add the new one.\<close>

definition replace_code :: "string \<Rightarrow> string \<Rightarrow> real \<Rightarrow> unit act" where
  "replace_code user code t = bindE (db_get (\<lambda>d. filter (\<lambda>r. \<not> unused_of user r) (tg_codes d))) (\<lambda>kept.
     if code \<in> tc_code ` set kept then raise IntegrityError
     else db_modify (\<lambda>d. d\<lparr>tg_codes := kept @ [\<lparr>tc_code = code, tc_user_id = user, tc_created_at = t, tc_used_at = None\<rparr>]\<rparr>))"

definition issue_code :: "env \<Rightarrow> string \<Rightarrow> issued_code act" where
  "issue_code E user = bindE (draw_code E) (\<lambda>code. bindE (asks now) (\<lambda>t.
     thenE (session_scope E (replace_code user code t))
       (ret \<lparr>ic_code = code, ic_expires_at = t + CODE_TTL, ic_expires_in = 600\<rparr>)))"

section \<open>Links\<close>

definition find_code :: "string \<Rightarrow> tg_code_row list \<Rightarrow> tg_code_row option" where
  "find_code code rows = List.find (\<lambda>r. tc_code r = code) rows"

definition spend_code :: "string \<Rightarrow> real \<Rightarrow> tg_code_row list \<Rightarrow> tg_code_row list" where
  "spend_code code t rows = map (\<lambda>r. if tc_code r = code then r\<lparr>tc_used_at := Some t\<rparr> else r) rows"

text \<open>\<open>merge\<close> on the primary key.\<close>

definition merge_link :: "tg_link_row \<Rightarrow> tg_link_row list \<Rightarrow> tg_link_row list" where
  "merge_link l rows = (if tl_telegram_id l \<in> tl_telegram_id ` set rows
     then map (\<lambda>r. if tl_telegram_id r = tl_telegram_id l then l else r) rows else rows @ [l])"

definition bind_account :: "string \<Rightarrow> string \<Rightarrow> string act" where
  "bind_account code tid = bindE (db_get (\<lambda>d. find_code code (tg_codes d))) (\<lambda>row. case row of
       None \<Rightarrow> raise (LinkError 404 ''unknown link code'')
     | Some r \<Rightarrow> if tc_used_at r \<noteq> None then raise (LinkError 409 ''link code already used'')
         else bindE (asks now) (\<lambda>t.
           if t - tc_created_at r > CODE_TTL then raise (LinkError 410 ''link code expired'')
           else thenE (db_modify (\<lambda>d. d\<lparr>tg_codes := spend_code code t (tg_codes d),
                  tg_links := merge_link \<lparr>tl_telegram_id = tid, tl_user_id = tc_user_id r, tl_linked_at = t\<rparr> (tg_links d)\<rparr>))
             (ret (tc_user_id r))))"

definition redeem_code :: "env \<Rightarrow> string \<Rightarrow> string \<Rightarrow> (string \<times> string) act" where
  "redeem_code E code tid = (let tid' = strip tid in
     bindE (session_scope E (bind_account (upper (strip code)) tid')) (\<lambda>user. ret (user, mask_id tid')))"

definition resolve_user :: "env \<Rightarrow> string \<Rightarrow> string option act" where
  "resolve_user E tid = session_scope E
     (db_get (\<lambda>d. map_option tl_user_id (List.find (\<lambda>l. tl_telegram_id l = strip tid) (tg_links d))))"

definition status_for_user :: "env \<Rightarrow> string \<Rightarrow> (string \<times> real) option act" where
  "status_for_user E user = session_scope E
     (db_get (\<lambda>d. map_option (\<lambda>l. (mask_id (tl_telegram_id l), tl_linked_at l)) (List.find (\<lambda>l. tl_user_id l = user) (tg_links d))))"

definition unlink_user :: "env \<Rightarrow> string \<Rightarrow> nat act" where
  "unlink_user E user = session_scope E (bindE (db_get (\<lambda>d. filter (\<lambda>l. tl_user_id l = user) (tg_links d))) (\<lambda>rows.
     thenE (db_modify (\<lambda>d. d\<lparr>tg_links := filter (\<lambda>l. tl_user_id l \<noteq> user) (tg_links d)\<rparr>)) (ret (length rows))))"

section \<open>The table as a map\<close>

definition accounts :: "tg_link_row list \<Rightarrow> string \<rightharpoonup> string" where
  "accounts rows = map_of (map (\<lambda>l. (tl_telegram_id l, tl_user_id l)) rows)"

lemma find_link: "map_option tl_user_id (List.find (\<lambda>l. tl_telegram_id l = tid) rows) = accounts rows tid"
  by (induction rows) (auto simp: accounts_def)

lemma accounts_snoc: "tl_telegram_id l \<notin> tl_telegram_id ` set rows \<Longrightarrow>
   accounts (rows @ [l]) = (accounts rows)(tl_telegram_id l \<mapsto> tl_user_id l)"
  by (induction rows) (auto simp: accounts_def fun_upd_twist)

lemma accounts_replace: "tl_telegram_id l \<in> tl_telegram_id ` set rows \<Longrightarrow>
   accounts (map (\<lambda>r. if tl_telegram_id r = tl_telegram_id l then l else r) rows) = (accounts rows)(tl_telegram_id l \<mapsto> tl_user_id l)"
proof (induction rows)
  case (Cons r rows)
  have "accounts (map (\<lambda>r. if tl_telegram_id r = tl_telegram_id l then l else r) rows) = accounts rows"
    if "tl_telegram_id l \<notin> tl_telegram_id ` set rows"
    using that by (intro arg_cong [of _ _ accounts] map_idI) (metis imageI)
  with Cons show ?case
    by (cases "tl_telegram_id l \<in> tl_telegram_id ` set rows") (auto simp: accounts_def fun_upd_twist)
qed simp

lemma accounts_merge: "accounts (merge_link l rows) = (accounts rows)(tl_telegram_id l \<mapsto> tl_user_id l)"
  using accounts_snoc [of l rows] accounts_replace [of l rows] by (simp add: merge_link_def)

lemma accounts_filter:
  "distinct (map tl_telegram_id rows) \<Longrightarrow> accounts (filter (\<lambda>l. tl_user_id l \<noteq> user) rows) = (\<lambda>t. case accounts rows t of
     None \<Rightarrow> None | Some u \<Rightarrow> if u = user then None else Some u)"
proof (induction rows)
  case (Cons r rows)
  have "accounts rows (tl_telegram_id r) = None" using Cons.prems by (auto simp: accounts_def map_of_eq_None_iff image_image)
  with Cons show ?case by (auto simp: accounts_def fun_eq_iff split: option.splits)
qed (simp add: accounts_def)

section \<open>Invariant\<close>

text \<open>Codes and Telegram ids are keys; an account has at most one code that can be used.\<close>

definition codes_ok :: "tg_code_row list \<Rightarrow> bool" where
  "codes_ok rows \<longleftrightarrow> distinct (map tc_code rows) \<and> (\<forall>u. length (filter (unused_of u) rows) \<le> 1)"

definition links_ok :: "database \<Rightarrow> bool" where
  "links_ok d \<longleftrightarrow> codes_ok (tg_codes d) \<and> distinct (map tl_telegram_id (tg_links d))"

lemma codes_ok_replace:
  assumes "codes_ok rows" "tc_code r \<notin> tc_code ` set (filter (\<lambda>r. \<not> unused_of u r) rows)" "tc_user_id r = u"
  shows "codes_ok (filter (\<lambda>r. \<not> unused_of u r) rows @ [r])"
proof -
  have "length (filter (unused_of v) (filter (\<lambda>r. \<not> unused_of u r) rows @ [r])) \<le> 1" for v
  proof (cases "v = u")
    case True
    have "filter (unused_of u) (filter (\<lambda>r. \<not> unused_of u r) rows) = []" by (simp add: filter_empty_conv)
    with True show ?thesis by simp
  next
    case False
    have "length (filter (unused_of v) (filter (\<lambda>r. \<not> unused_of u r) rows)) \<le> length (filter (unused_of v) rows)"
      by (induction rows) auto
    moreover have "\<not> unused_of v r" using False assms(3) by (simp add: unused_of_def)
    ultimately show ?thesis using assms(1) by (auto simp: codes_ok_def intro: order_trans)
  qed
  moreover have "distinct (map tc_code (filter (\<lambda>r. \<not> unused_of u r) rows @ [r]))"
    using assms by (auto simp: codes_ok_def distinct_map_filter)
  ultimately show ?thesis by (simp only: codes_ok_def) simp
qed

lemma codes_ok_spend: "codes_ok rows \<Longrightarrow> codes_ok (spend_code c t rows)"
proof -
  assume ok: "codes_ok rows"
  have "map tc_code (spend_code c t rows) = map tc_code rows" by (simp add: spend_code_def)
  moreover have "length (filter (unused_of u) (spend_code c t rows)) \<le> length (filter (unused_of u) rows)" for u
    by (induction rows) (auto simp: spend_code_def unused_of_def)
  ultimately show ?thesis using ok by (auto simp: codes_ok_def intro: order_trans)
qed

lemma links_ok_merge: "distinct (map tl_telegram_id rows) \<Longrightarrow> distinct (map tl_telegram_id (merge_link l rows))"
proof -
  assume d: "distinct (map tl_telegram_id rows)"
  have "map tl_telegram_id (map (\<lambda>r. if tl_telegram_id r = tl_telegram_id l then l else r) rows) = map tl_telegram_id rows" by simp
  then have "distinct (map tl_telegram_id (map (\<lambda>r. if tl_telegram_id r = tl_telegram_id l then l else r) rows))" using d by (simp only:)
  with d show ?thesis by (simp add: merge_link_def del: map_map)
qed

text \<open>What an operation on the links may do to the rest of the database: nothing.\<close>

definition links_step :: "database \<Rightarrow> database \<Rightarrow> bool" where
  "links_step d d' \<longleftrightarrow> d' = d\<lparr>tg_codes := tg_codes d', tg_links := tg_links d'\<rparr> \<and> (links_ok d \<longrightarrow> links_ok d')"

interpretation linking: db_relation links_step
proof
  show "links_step d d" for d by (simp add: links_step_def)
  show "links_step a c" if "links_step a b" "links_step b c" for a b c
    using that unfolding links_step_def by (metis (no_types, lifting) database.surjective database.update_convs(7,8))
qed

lemma issue_links: "evolves (on_db links_step) (issue_code E user)"
proof -
  have "evolves (on_db links_step) (replace_code user c t)" for c t
    by (auto simp: evolves_def on_db_def replace_code_def bindE_def db_get_def db_modify_def links_step_def links_ok_def
        intro!: codes_ok_replace)
  moreover have "evolves (on_db links_step) (draw_code E)"
    by (simp add: evolves_def on_db_def draw_code_def linking.P_refl)
  ultimately show ?thesis unfolding issue_code_def by (intro linking.ev_rules linking.db_session)
qed

lemma redeem_links: "evolves (on_db links_step) (redeem_code E c tid)"
proof -
  have "evolves (on_db links_step) (bind_account c' t')" for c' t'
    by (auto simp: evolves_def on_db_def bind_account_def bindE_def thenE_def db_get_def db_modify_def links_step_def links_ok_def
        intro!: codes_ok_spend links_ok_merge split: option.splits)
  then show ?thesis unfolding redeem_code_def Let_def by (intro linking.ev_rules linking.db_session)
qed

lemma unlink_links: "evolves (on_db links_step) (unlink_user E user)"
  unfolding unlink_user_def
  by (intro linking.db_session)
    (auto simp: evolves_def on_db_def bindE_def thenE_def db_get_def db_modify_def links_step_def links_ok_def distinct_map_filter)

section \<open>A redeemed code\<close>

lemma find_code_spend: "find_code c (spend_code c t rows) = map_option (\<lambda>r. r\<lparr>tc_used_at := Some t\<rparr>) (find_code c rows)"
  by (induction rows) (auto simp: find_code_def spend_code_def)

lemma redeem_ok:
  assumes "redeem_code E c tid w = (Inr (user, m), w')"
  shows "\<exists>r t. find_code (upper (strip c)) (tg_codes (db w)) = Some r \<and> tc_user_id r = user \<and> tc_used_at r = None \<and>
    now w \<le> t \<and> t \<le> tc_created_at r + CODE_TTL \<and>
    find_code (upper (strip c)) (tg_codes (db w')) = Some (r\<lparr>tc_used_at := Some t\<rparr>) \<and>
    accounts (tg_links (db w')) = (accounts (tg_links (db w)))(strip tid \<mapsto> user)"
proof -
  have "now w \<le> now (tick E w)" by (rule now_tick)
  then show ?thesis using assms
    by (auto simp: redeem_code_def Let_def bindE_def session_commit bind_account_def thenE_def db_get_def db_modify_def
        find_code_spend accounts_merge split: prod.splits sum.splits option.splits if_splits)
qed

lemma redeem_spent:
  assumes "find_code (upper (strip c)) (tg_codes (db w)) = Some r" "tc_used_at r \<noteq> None"
  shows "redeem_code E c tid w = (Inl (LinkError 409 ''link code already used''), (tick E w)\<lparr>db := db w\<rparr>)"
  using assms by (simp add: redeem_code_def Let_def bindE_def session_scope_def bind_account_def db_get_def)

lemma redeem_expired:
  assumes "find_code (upper (strip c)) (tg_codes (db w)) = Some r" "tc_used_at r = None" "tc_created_at r + CODE_TTL < now w"
  shows "redeem_code E c tid w = (Inl (LinkError 410 ''link code expired''), (tick E w)\<lparr>db := db w\<rparr>)"
  using assms now_tick [of w E] by (simp add: redeem_code_def Let_def bindE_def session_scope_def bind_account_def db_get_def)

lemma resolve_run: "resolve_user E tid w = (if e_db_ok E (ops w) then (Inr (accounts (tg_links (db w)) (strip tid)), tick E w)
    else (Inl DbDown, (tick E w)\<lparr>db := db w\<rparr>))"
  by (simp add: resolve_user_def session_scope_def db_get_def find_link Let_def)

lemma unlink_run:
  assumes "unlink_user E user w = (Inr n, w')" "distinct (map tl_telegram_id (tg_links (db w)))"
  shows "n = length (filter (\<lambda>l. tl_user_id l = user) (tg_links (db w))) \<and>
    accounts (tg_links (db w')) = (\<lambda>t. case accounts (tg_links (db w)) t of None \<Rightarrow> None | Some u \<Rightarrow> if u = user then None else Some u)"
  using assms by (auto simp: unlink_user_def session_commit bindE_def thenE_def db_get_def db_modify_def accounts_filter)

end
