(* ===== verification/Control.thy ===== *)
theory Control
  imports Linking Payments
begin

text \<open>
  The control plane: \<open>control_plane/auth.py\<close>, \<open>audit.py\<close>, \<open>keys.py\<close> and \<open>routes.py\<close>. Every route
  depends on \<open>require_admin\<close>; here one dispatcher, \<open>serve_admin\<close>, runs the check and then the
  route. It shares the registry tables and the revocation set with the gateway.
\<close>

section \<open>Authentication, attribution, signing\<close>

text \<open>\<open>hmac.compare_digest\<close> takes only ASCII strings; on others it raises \<open>TypeError\<close>.\<close>

definition ascii :: "string \<Rightarrow> bool" where "ascii s \<longleftrightarrow> list_all (\<lambda>c. (of_char c :: nat) < 128) s"

definition compare_digest :: "string \<Rightarrow> string \<Rightarrow> bool act" where
  "compare_digest a b = (if ascii a \<and> ascii b then ret (a = b)
     else raise (RuntimeErr ''comparing strings with non-ASCII characters is not supported''))"

definition require_admin :: "env \<Rightarrow> string option \<Rightarrow> string option \<Rightarrow> string act" where
  "require_admin E x_admin_key x_admin_id = (let expected = e_admin_api_key E in
     if expected = '''' then raise (HttpError 503 ''control plane has no ADMIN_API_KEY configured'')
     else bindE (if nonempty x_admin_key then compare_digest (the x_admin_key) expected else ret False) (\<lambda>ok.
       if \<not> ok then raise (HttpError 401 ''missing or invalid X-Admin-Key'')
       else ret (take 128 (if nonempty x_admin_id then the x_admin_id else ''unknown''))))"

definition admin_digest :: "env \<Rightarrow> json \<Rightarrow> string" where
  "admin_digest E payload = e_H E (canonical_dumps (e_frepr E) payload)"

text \<open>A failure to write the row is logged and swallowed.\<close>

definition record_admin_action :: "env \<Rightarrow> string \<Rightarrow> string \<Rightarrow> string \<Rightarrow> json \<Rightarrow> unit act" where
  "record_admin_action E admin action target payload = catchE
     (session_scope E (bindE (asks now) (\<lambda>t. db_modify (\<lambda>d. d\<lparr>admin_log := admin_log d @
        [\<lparr>ad_admin_id = admin, ad_action = action, ad_target = target, ad_payload_sha256 = admin_digest E payload,
          ad_detail = '''', ad_at = t\<rparr>]\<rparr>))))
     (\<lambda>_. ret ())"

definition sign_delegation_token :: "env \<Rightarrow> string \<Rightarrow> string \<Rightarrow> string \<Rightarrow> string list option \<Rightarrow> int \<Rightarrow> string act" where
  "sign_delegation_token E agent user delegation scopes ttl = bindE (asks (\<lambda>w. \<lfloor>now w\<rfloor>)) (\<lambda>now_s.
     case e_delegation_private E of
       None \<Rightarrow> raise (RuntimeErr ''delegation private key missing'')
     | Some key \<Rightarrow> ret (e_jwt_encode E key (delegation_claims E now_s agent user delegation scopes ttl)))"

section \<open>Bodies\<close>

record agent_in =
  ai_agent_id :: string
  ai_owner_user_id :: string
  ai_display_name :: string
  ai_allowed_scopes :: "string list"
  ai_allowed_categories :: "string list"
  ai_active :: bool

record policy_in =
  pl_delegation_id :: string
  pl_user_id :: string
  pl_agent_id :: string
  pl_policy_version :: string
  pl_per_transaction_limit :: decimal
  pl_daily_limit :: decimal
  pl_currency :: string
  pl_allowed_merchants :: "string list"
  pl_blocked_merchants :: "string list"
  pl_require_verified :: bool
  pl_approval_threshold :: decimal
  pl_max_per_hour :: int

record merchant_in =
  mi_merchant_id :: string
  mi_display_name :: string
  mi_category :: string
  mi_verified :: bool
  mi_risk_score :: real

record token_in =
  to_agent_id :: string
  to_user_id :: string
  to_delegation_id :: string
  to_scopes :: "string list option"
  to_ttl_seconds :: int

definition agent_in_ok :: "agent_in \<Rightarrow> bool" where
  "agent_in_ok b \<longleftrightarrow> len_between 1 128 (ai_agent_id b) \<and> len_between 1 128 (ai_owner_user_id b)"

definition policy_in_ok :: "policy_in \<Rightarrow> bool" where
  "policy_in_ok b \<longleftrightarrow> len_between 1 128 (pl_delegation_id b) \<and> len_between 1 128 (pl_user_id b) \<and>
     len_between 1 128 (pl_agent_id b) \<and> money_ok (pl_per_transaction_limit b) \<and> money_ok (pl_daily_limit b) \<and>
     currency_ok (pl_currency b) \<and> money_ok (pl_approval_threshold b)"

definition merchant_in_ok :: "merchant_in \<Rightarrow> bool" where
  "merchant_in_ok b \<longleftrightarrow> len_between 1 128 (mi_merchant_id b) \<and> 0 \<le> mi_risk_score b \<and> mi_risk_score b \<le> 1"

section \<open>The registry\<close>

definition agent_row_of :: "agent_in \<Rightarrow> agent_row" where
  "agent_row_of b = \<lparr>ag_owner_user_id = ai_owner_user_id b, ag_display_name = ai_display_name b,
     ag_allowed_scopes = ai_allowed_scopes b, ag_allowed_categories = ai_allowed_categories b, ag_active = ai_active b\<rparr>"

definition agent_payload :: "agent_in \<Rightarrow> json" where
  "agent_payload b = JObj [(''agent_id'', JStr (ai_agent_id b)), (''owner_user_id'', JStr (ai_owner_user_id b)),
     (''display_name'', JStr (ai_display_name b)), (''allowed_scopes'', strs_json (ai_allowed_scopes b)),
     (''allowed_merchant_categories'', strs_json (ai_allowed_categories b)), (''active'', JBool (ai_active b))]"

definition status_reply :: "string \<Rightarrow> string \<Rightarrow> string \<Rightarrow> json" where
  "status_reply st k v = JObj [(''status'', JStr st), (k, JStr v)]"

definition upsert_agent :: "env \<Rightarrow> string \<Rightarrow> agent_in \<Rightarrow> json act" where
  "upsert_agent E admin b =
     thenE (session_scope E (db_modify (\<lambda>d. d\<lparr>agents := (agents d)(ai_agent_id b \<mapsto> agent_row_of b)\<rparr>)))
     (thenE (record_admin_action E admin ''agent.upsert'' (ai_agent_id b) (agent_payload b))
       (ret (status_reply ''ok'' ''agent_id'' (ai_agent_id b))))"

definition policy_row_of :: "policy_in \<Rightarrow> policy_row" where
  "policy_row_of b = \<lparr>sp_user_id = pl_user_id b, sp_agent_id = pl_agent_id b, sp_policy_version = pl_policy_version b,
     sp_per_transaction_limit = numeric_12_2 (pl_per_transaction_limit b), sp_daily_limit = numeric_12_2 (pl_daily_limit b),
     sp_currency = pl_currency b, sp_allowed_merchants = pl_allowed_merchants b, sp_blocked_merchants = pl_blocked_merchants b,
     sp_require_verified = pl_require_verified b, sp_approval_threshold = numeric_12_2 (pl_approval_threshold b),
     sp_max_per_hour = pl_max_per_hour b, sp_revoked = False\<rparr>"

text \<open>\<open>{k: str(v) for k, v in data.items()}\<close>.\<close>

definition policy_payload :: "env \<Rightarrow> policy_in \<Rightarrow> json" where
  "policy_payload E b = JObj (map (\<lambda>(k, v). (k, JStr v))
     [(''delegation_id'', pl_delegation_id b), (''user_id'', pl_user_id b), (''agent_id'', pl_agent_id b),
      (''policy_version'', pl_policy_version b), (''per_transaction_limit'', dec_str (pl_per_transaction_limit b)),
      (''daily_limit'', dec_str (pl_daily_limit b)), (''currency'', pl_currency b),
      (''allowed_merchants'', py_str (e_frepr E) (strs_json (pl_allowed_merchants b))),
      (''blocked_merchants'', py_str (e_frepr E) (strs_json (pl_blocked_merchants b))),
      (''require_verified_merchant'', py_str (e_frepr E) (JBool (pl_require_verified b))),
      (''approval_threshold'', dec_str (pl_approval_threshold b)),
      (''max_transactions_per_hour'', str_int (pl_max_per_hour b))])"

definition store_srem :: "env \<Rightarrow> string \<Rightarrow> string \<Rightarrow> unit act" where
  "store_srem E key m = store_call E (\<lambda>t st. ((), st_srem key m st))"

definition store_sadd :: "env \<Rightarrow> string \<Rightarrow> string \<Rightarrow> unit act" where
  "store_sadd E key m = store_call E (\<lambda>t st. ((), st_sadd key m st))"

text \<open>Binding a policy lifts a revocation of its delegation.\<close>

definition upsert_policy :: "env \<Rightarrow> string \<Rightarrow> policy_in \<Rightarrow> json act" where
  "upsert_policy E admin b =
     thenE (session_scope E (db_modify (\<lambda>d. d\<lparr>policies := (policies d)(pl_delegation_id b \<mapsto> policy_row_of b)\<rparr>)))
     (thenE (store_srem E REVOCATION_SET (pl_delegation_id b))
     (thenE (record_admin_action E admin ''policy.upsert'' (pl_delegation_id b) (policy_payload E b))
       (ret (status_reply ''ok'' ''delegation_id'' (pl_delegation_id b)))))"

definition merchant_row_of :: "merchant_in \<Rightarrow> merchant_row" where
  "merchant_row_of b = \<lparr>mr_display_name = mi_display_name b, mr_category = mi_category b, mr_verified = mi_verified b,
     mr_risk_score = mi_risk_score b\<rparr>"

definition merchant_payload :: "merchant_in \<Rightarrow> json" where
  "merchant_payload b = JObj [(''merchant_id'', JStr (mi_merchant_id b)), (''display_name'', JStr (mi_display_name b)),
     (''category'', JStr (mi_category b)), (''verified'', JBool (mi_verified b)), (''risk_score'', JFloat (mi_risk_score b))]"

definition upsert_merchant :: "env \<Rightarrow> string \<Rightarrow> merchant_in \<Rightarrow> json act" where
  "upsert_merchant E admin b =
     thenE (session_scope E (db_modify (\<lambda>d. d\<lparr>merchants := (merchants d)(mi_merchant_id b \<mapsto> merchant_row_of b)\<rparr>)))
     (thenE (record_admin_action E admin ''merchant.upsert'' (mi_merchant_id b) (merchant_payload b))
       (ret (status_reply ''ok'' ''merchant_id'' (mi_merchant_id b))))"

section \<open>Delegations\<close>

definition set_revoked :: "string \<Rightarrow> bool \<Rightarrow> unit act" where
  "set_revoked deleg b = db_modify (\<lambda>d. d\<lparr>policies := (policies d)(deleg := map_option (\<lambda>p. p\<lparr>sp_revoked := b\<rparr>) (policies d deleg))\<rparr>)"

definition revoke_delegation :: "env \<Rightarrow> string \<Rightarrow> string \<Rightarrow> json act" where
  "revoke_delegation E admin deleg =
     thenE (session_scope E (bindE (db_get (\<lambda>d. policies d deleg)) (\<lambda>p. case p of
         None \<Rightarrow> raise (HttpError 404 ''unknown delegation'')
       | Some _ \<Rightarrow> set_revoked deleg True)))
     (thenE (store_sadd E REVOCATION_SET deleg)
     (thenE (record_admin_action E admin ''delegation.revoke'' deleg (JObj []))
       (ret (JObj [(''status'', JStr ''revoked''), (''delegation_id'', JStr deleg), (''propagation'', JStr ''near-real-time'')]))))"

definition list_revoked :: "env \<Rightarrow> string list act" where
  "list_revoked E = store_call E (\<lambda>t st. (sort (st_smembers REVOCATION_SET st), st))"

definition reinstate_delegation :: "env \<Rightarrow> string \<Rightarrow> string \<Rightarrow> json act" where
  "reinstate_delegation E admin deleg =
     thenE (session_scope E (set_revoked deleg False))
     (thenE (store_srem E REVOCATION_SET deleg)
     (thenE (record_admin_action E admin ''delegation.reinstate'' deleg (JObj []))
       (ret (status_reply ''active'' ''delegation_id'' deleg))))"

definition issue_token :: "env \<Rightarrow> string \<Rightarrow> token_in \<Rightarrow> string act" where
  "issue_token E admin b =
     bindE (sign_delegation_token E (to_agent_id b) (to_user_id b) (to_delegation_id b) (to_scopes b) (to_ttl_seconds b)) (\<lambda>token.
     thenE (record_admin_action E admin ''token.mint'' (to_delegation_id b)
         (JObj [(''agent_id'', JStr (to_agent_id b)), (''user_id'', JStr (to_user_id b)), (''ttl'', JInt (to_ttl_seconds b))]))
       (ret token))"

definition get_policy :: "env \<Rightarrow> string \<Rightarrow> policy_row act" where
  "get_policy E deleg = session_scope E (bindE (db_get (\<lambda>d. policies d deleg)) (\<lambda>p. case p of
       None \<Rightarrow> raise (HttpError 404 ''unknown delegation'') | Some r \<Rightarrow> ret r))"

definition list_merchants :: "env \<Rightarrow> (string \<rightharpoonup> merchant_row) act" where
  "list_merchants E = session_scope E (db_get merchants)"

text \<open>PostgreSQL refuses a negative \<open>LIMIT\<close>.\<close>

definition list_admin_audit :: "env \<Rightarrow> int \<Rightarrow> admin_row list act" where
  "list_admin_audit E limit = session_scope E (
     if min limit 500 < 0 then raise (RuntimeErr ''LIMIT must not be negative'')
     else db_get (\<lambda>d. take (nat (min limit 500)) (rev (admin_log d))))"

section \<open>Telegram links and the reset\<close>

definition telegram_link_code :: "env \<Rightarrow> string \<Rightarrow> string \<Rightarrow> issued_code act" where
  "telegram_link_code E admin user = bindE (issue_code E user) (\<lambda>out.
     thenE (record_admin_action E admin ''telegram.link_code'' user (JObj [])) (ret out))"

definition telegram_link :: "env \<Rightarrow> string \<Rightarrow> string \<Rightarrow> string \<Rightarrow> (string \<times> string) act" where
  "telegram_link E admin code tid =
     bindE (catchE (redeem_code E code tid)
              (\<lambda>e. case e of LinkError status detail \<Rightarrow> raise (HttpError status detail) | _ \<Rightarrow> raise e)) (\<lambda>(user, masked).
     thenE (record_admin_action E admin ''telegram.link'' user (JObj [(''telegram_id_masked'', JStr masked)]))
       (ret (user, masked)))"

definition telegram_unlink :: "env \<Rightarrow> string \<Rightarrow> string \<Rightarrow> nat act" where
  "telegram_unlink E admin user = bindE (unlink_user E user) (\<lambda>out.
     thenE (record_admin_action E admin ''telegram.unlink'' user (JObj [])) (ret out))"

definition dev_reset :: "env \<Rightarrow> string \<Rightarrow> string act" where
  "dev_reset E admin = (if is_production E then raise (HttpError 403 ''reset is not available in production'')
     else thenE (session_scope E (db_modify (\<lambda>d. d\<lparr>audit_log := [], txns := [], tg_links := [], tg_codes := []\<rparr>)))
       (thenE (reset_replay_state E)
       (thenE (record_admin_action E admin ''dev.reset'' '''' (JObj []))
         (ret (cfg_environment (e_cfg E))))))"

section \<open>The dispatcher\<close>

datatype admin_request = UpsertAgent agent_in | UpsertPolicy policy_in | UpsertMerchant merchant_in
  | RevokeDelegation string | ListRevoked | ReinstateDelegation string | IssueToken token_in | GetPolicy string
  | ListMerchants | ListAdminAudit int | TelegramLinkCode string | TelegramLink string string
  | TelegramStatus string | TelegramWhoami string | TelegramUnlink string | DevReset

datatype admin_reply = Doc json | Names "string list" | Token string | PolicyRow policy_row
  | MerchantRows "string \<rightharpoonup> merchant_row" | AdminRows "admin_row list" | Code issued_code
  | Linked string string | LinkStatus "(string \<times> real) option" | Account "string option" | Removed nat | Reset string

definition mapE :: "('a \<Rightarrow> 'b) \<Rightarrow> 'a act \<Rightarrow> 'b act" where "mapE f m = bindE m (\<lambda>x. ret (f x))"

fun admin_route :: "env \<Rightarrow> string \<Rightarrow> admin_request \<Rightarrow> admin_reply act" where
  "admin_route E admin (UpsertAgent b) = mapE Doc (upsert_agent E admin b)"
| "admin_route E admin (UpsertPolicy b) = mapE Doc (upsert_policy E admin b)"
| "admin_route E admin (UpsertMerchant b) = mapE Doc (upsert_merchant E admin b)"
| "admin_route E admin (RevokeDelegation d) = mapE Doc (revoke_delegation E admin d)"
| "admin_route E admin ListRevoked = mapE Names (list_revoked E)"
| "admin_route E admin (ReinstateDelegation d) = mapE Doc (reinstate_delegation E admin d)"
| "admin_route E admin (IssueToken b) = mapE Token (issue_token E admin b)"
| "admin_route E admin (GetPolicy d) = mapE PolicyRow (get_policy E d)"
| "admin_route E admin ListMerchants = mapE MerchantRows (list_merchants E)"
| "admin_route E admin (ListAdminAudit n) = mapE AdminRows (list_admin_audit E n)"
| "admin_route E admin (TelegramLinkCode u) = mapE Code (telegram_link_code E admin u)"
| "admin_route E admin (TelegramLink c t) = mapE (case_prod Linked) (telegram_link E admin c t)"
| "admin_route E admin (TelegramStatus u) = mapE LinkStatus (status_for_user E u)"
| "admin_route E admin (TelegramWhoami t) = mapE Account (resolve_user E t)"
| "admin_route E admin (TelegramUnlink u) = mapE Removed (telegram_unlink E admin u)"
| "admin_route E admin DevReset = mapE Reset (dev_reset E admin)"

text \<open>Field constraints of the bodies; a body that fails them is answered 422 after the key is checked.\<close>

fun admin_body_ok :: "admin_request \<Rightarrow> bool" where
  "admin_body_ok (UpsertAgent b) = agent_in_ok b"
| "admin_body_ok (UpsertPolicy b) = policy_in_ok b"
| "admin_body_ok (UpsertMerchant b) = merchant_in_ok b"
| "admin_body_ok (TelegramLinkCode u) = len_between 1 128 u"
| "admin_body_ok (TelegramLink c t) = (len_between 4 32 c \<and> len_between 1 32 t)"
| "admin_body_ok _ = True"

definition serve_admin :: "env \<Rightarrow> string option \<Rightarrow> string option \<Rightarrow> admin_request \<Rightarrow> admin_reply act" where
  "serve_admin E key i req = bindE (require_admin E key i) (\<lambda>admin.
     if \<not> admin_body_ok req then raise (HttpError 422 ''validation error'') else admin_route E admin req)"

section \<open>No key, no effect\<close>

definition admin_named :: "string option \<Rightarrow> string" where
  "admin_named i = take 128 (if nonempty i then the i else ''unknown'')"

lemma require_admin_cases:
  obtains e where "require_admin E key i = (\<lambda>w. (Inl e, w))"
  | "require_admin E key i = (\<lambda>w. (Inr (admin_named i), w))" "key = Some (e_admin_api_key E)" "e_admin_api_key E \<noteq> ''''"
  by (atomize_elim, cases key)
    (auto simp: require_admin_def compare_digest_def Let_def nonempty_def bindE_def admin_named_def fun_eq_iff)

lemma require_admin_keyless:
  assumes "key \<noteq> Some (e_admin_api_key E) \<or> e_admin_api_key E = ''''"
  shows "\<exists>e. require_admin E key i = (\<lambda>w. (Inl e, w))"
  using assms by (cases rule: require_admin_cases [of E key i]) auto

lemma serve_admin_denied:
  assumes "key \<noteq> Some (e_admin_api_key E) \<or> e_admin_api_key E = ''''"
  shows "\<exists>e. serve_admin E key i req w = (Inl e, w)"
  using require_admin_keyless [OF assms, of i] by (auto simp: serve_admin_def bindE_def)

lemma serve_admin_InrE:
  assumes "serve_admin E key i req w = (Inr r, w')"
  obtains "key = Some (e_admin_api_key E)" "e_admin_api_key E \<noteq> ''''" "admin_body_ok req"
    "admin_route E (admin_named i) req w = (Inr r, w')"
  using assms by (cases rule: require_admin_cases [of E key i]) (auto simp: serve_admin_def bindE_def split: if_splits)

lemma serve_admin_cases:
  obtains e where "serve_admin E key i req w = (Inl e, w)"
  | "serve_admin E key i req w = admin_route E (admin_named i) req w" "key = Some (e_admin_api_key E)" "admin_body_ok req"
  by (atomize_elim, cases rule: require_admin_cases [of E key i]) (auto simp: serve_admin_def bindE_def)

section \<open>What an administrator's call may change\<close>

text \<open>Not the transactions, not the decision log; the admin log only grows; the links stay well-formed.\<close>

definition control_step :: "database \<Rightarrow> database \<Rightarrow> bool" where
  "control_step d d' \<longleftrightarrow> txns d' = txns d \<and> audit_log d' = audit_log d \<and> prefix (admin_log d) (admin_log d') \<and>
     (links_ok d \<longrightarrow> links_ok d')"

interpretation control: db_relation control_step
  by unfold_locales (auto simp: control_step_def)

lemma control_links: "links_step d d' \<Longrightarrow> control_step d d'"
  unfolding links_step_def control_step_def by (cases d; cases d') simp

lemma on_control_links: "evolves (on_db links_step) m \<Longrightarrow> evolves (on_db control_step) m"
  by (auto simp: evolves_def on_db_def intro: control_links)

lemma control_modify: "control_step d (d\<lparr>agents := a\<rparr>)" "control_step d (d\<lparr>policies := p\<rparr>)" "control_step d (d\<lparr>merchants := m\<rparr>)"
  "control_step d (d\<lparr>admin_log := admin_log d @ xs\<rparr>)"
  by (simp_all add: control_step_def links_ok_def)

lemma ev_admin_action: "evolves (on_db control_step) (record_admin_action E admin a t p)"
  unfolding record_admin_action_def
  by (intro control.ev_rules control.db_session control.db_modify_rule control_modify)

lemma ev_store_sets: "evolves (on_db control_step) (store_srem E k m)" "evolves (on_db control_step) (store_sadd E k m)"
  "evolves (on_db control_step) (list_revoked E)"
  unfolding store_srem_def store_sadd_def list_revoked_def by (intro control.db_keeps keeps_store_call; simp)+

lemma ev_link_reads: "evolves (on_db control_step) (resolve_user E t)" "evolves (on_db control_step) (status_for_user E u)"
  unfolding resolve_user_def status_for_user_def by (intro control.db_session control.db_keeps keeps_db_get)+

lemma ev_sign: "evolves (on_db control_step) (sign_delegation_token E a u d sc ttl)"
  unfolding sign_delegation_token_def by (intro control.ev_rules)

lemmas control_rules = control.ev_rules control.db_session control.db_modify_rule control_modify ev_admin_action ev_store_sets
  ev_link_reads ev_sign on_control_links [OF issue_links] on_control_links [OF redeem_links] on_control_links [OF unlink_links]
  control.db_keeps [OF keeps_db_get]

lemma ev_admin_route:
  assumes "req \<noteq> DevReset"
  shows "evolves (on_db control_step) (admin_route E admin req)"
  using assms
  by (cases req)
    (auto simp: mapE_def upsert_agent_def upsert_policy_def upsert_merchant_def revoke_delegation_def reinstate_delegation_def
      set_revoked_def issue_token_def get_policy_def list_merchants_def list_admin_audit_def telegram_link_code_def telegram_link_def
      telegram_unlink_def intro!: control_rules split: exn.splits)

text \<open>And never the provider, whatever is asked.\<close>

lemma keeps_links:
  assumes f: "ignores_db f"
  shows "evolves (keeps f) (issue_code E u)" "evolves (keeps f) (redeem_code E c t)" "evolves (keeps f) (unlink_user E u)"
    "evolves (keeps f) (resolve_user E t)" "evolves (keeps f) (status_for_user E u)"
proof -
  have d: "evolves (keeps f) (draw_code E)" using f by (simp add: draw_code_def evolves_def keeps_def ignores_defs)
  show "evolves (keeps f) (issue_code E u)" "evolves (keeps f) (redeem_code E c t)" "evolves (keeps f) (unlink_user E u)"
    "evolves (keeps f) (resolve_user E t)" "evolves (keeps f) (status_for_user E u)"
    unfolding issue_code_def replace_code_def redeem_code_def bind_account_def unlink_user_def resolve_user_def status_for_user_def Let_def
    by (auto intro!: frame.ev_rules keeps_session keeps_db_get keeps_db_modify d f)
qed

lemma keeps_admin:
  assumes "ignores_store f" "ignores_db f"
  shows "evolves (keeps f) (serve_admin E key i req)"
proof -
  have a: "evolves (keeps f) (record_admin_action E ad ac t p)" for ad ac t p
    unfolding record_admin_action_def by (intro frame.ev_rules keeps_session keeps_db_modify assms)
  have s: "evolves (keeps f) (store_srem E k m)" "evolves (keeps f) (store_sadd E k m)" "evolves (keeps f) (list_revoked E)" for k m
    unfolding store_srem_def store_sadd_def list_revoked_def by (intro keeps_store_call assms)+
  have r: "evolves (keeps f) (reset_replay_state E)"
    using assms(1) by (auto simp: reset_replay_state_def evolves_def keeps_def ignores_store_def)
  have "evolves (keeps f) (admin_route E admin req)" for admin
    by (cases req)
      (auto simp: mapE_def upsert_agent_def upsert_policy_def upsert_merchant_def revoke_delegation_def reinstate_delegation_def
        set_revoked_def issue_token_def sign_delegation_token_def get_policy_def list_merchants_def list_admin_audit_def
        telegram_link_code_def telegram_link_def telegram_unlink_def dev_reset_def
        intro!: frame.ev_rules keeps_session keeps_db_get keeps_db_modify keeps_links a s r assms split: exn.splits)
  then show ?thesis
    unfolding evolves_def keeps_def by (metis prod.sel(2) serve_admin_cases)
qed

lemma reset_refused:
  assumes "is_production E"
  shows "\<exists>e. serve_admin E key i DevReset w = (Inl e, w)"
  using assms by (cases rule: serve_admin_cases [of E key i DevReset w]) (auto simp: bindE_def mapE_def dev_reset_def)

lemma serve_admin_step:
  assumes "req \<noteq> DevReset \<or> is_production E"
  shows "control_step (db w) (db (snd (serve_admin E key i req w)))"
proof (cases "req = DevReset")
  case True
  with assms reset_refused [of E key i w] show ?thesis using control.P_refl by auto
next
  case False
  show ?thesis
    using evolvesD [OF ev_admin_route [OF False], of w E "admin_named i"] control.P_refl
    by (cases rule: serve_admin_cases [of E key i req w]) (simp_all add: on_db_def)
qed

section \<open>Revoking\<close>

lemma admin_action_keeps:
  assumes "record_admin_action E admin a t p w = (Inr u, w')"
  shows "store w' = store w \<and> policies (db w') = policies (db w)"
  using assms
  by (auto simp: record_admin_action_def catchE_def session_scope_def bindE_def db_modify_def Let_def split: prod.splits sum.splits if_splits)

lemma revoke_marks:
  assumes "serve_admin E key i (RevokeDelegation d) w = (Inr r, w')"
  shows "st_sismember REVOCATION_SET d (store w') \<and> (\<exists>p. policies (db w') d = Some p \<and> sp_revoked p) \<and> key = Some (e_admin_api_key E)"
proof -
  from assms obtain admin j where k: "key = Some (e_admin_api_key E)" and r: "revoke_delegation E admin d w = (Inr j, w')"
    by (auto elim!: serve_admin_InrE simp: bindE_def mapE_def split: prod.splits sum.splits)
  from r obtain u1 w1 u2 w2 u3 w3 where 1: "session_scope E (bindE (db_get (\<lambda>d'. policies d' d)) (\<lambda>p. case p of
         None \<Rightarrow> raise (HttpError 404 ''unknown delegation'') | Some _ \<Rightarrow> set_revoked d True)) w = (Inr u1, w1)"
    and 2: "store_sadd E REVOCATION_SET d w1 = (Inr u2, w2)"
    and 3: "record_admin_action E admin ''delegation.revoke'' d (JObj []) w2 = (Inr u3, w3)" "w3 = w'"
    unfolding revoke_delegation_def by (auto elim!: thenE_InrE)
  from 1 have "\<exists>p. policies (db w1) d = Some p \<and> sp_revoked p"
    by (auto simp: session_commit bindE_def db_get_def set_revoked_def db_modify_def split: option.splits)
  moreover from 2 have "st_sismember REVOCATION_SET d (store w2)" "db w2 = db w1"
    by (auto simp: store_sadd_def store_call_def Let_def st_sadd_def st_sismember_def split: if_splits)
  ultimately show ?thesis using admin_action_keeps [OF 3(1)] 3(2) k by simp
qed

text \<open>A revocation stays until it is lifted: by reinstating the delegation, or by binding its policy anew.\<close>

definition stays_revoked :: "string \<Rightarrow> world \<Rightarrow> world \<Rightarrow> bool" where
  "stays_revoked d w w' \<longleftrightarrow> (st_sismember REVOCATION_SET d (store w) \<longrightarrow> st_sismember REVOCATION_SET d (store w'))"

interpretation sticky: evolution "stays_revoked d" for d
  by unfold_locales (auto simp: stays_revoked_def)

fun lifts :: "string \<Rightarrow> admin_request \<Rightarrow> bool" where
  "lifts d (UpsertPolicy b) = (pl_delegation_id b = d)"
| "lifts d (ReinstateDelegation d') = (d' = d)"
| "lifts d _ = False"

lemma sticky_keeps: "evolves (keeps store) m \<Longrightarrow> evolves (stays_revoked d) m"
  by (auto simp: evolves_def keeps_def stays_revoked_def)

lemma sticky_store: "m \<noteq> d \<Longrightarrow> evolves (stays_revoked d) (store_srem E k m)" "evolves (stays_revoked d) (store_sadd E k m')"
  "evolves (stays_revoked d) (list_revoked E)" "evolves (stays_revoked d) (reset_replay_state E)"
  by (auto simp: evolves_def stays_revoked_def store_srem_def store_sadd_def list_revoked_def reset_replay_state_def store_call_def Let_def
      st_sismember_def st_srem_def st_sadd_def st_clear_replay_def)

lemma sticky_session: "evolves (keeps store) m \<Longrightarrow> evolves (stays_revoked d) (session_scope E m)"
  by (intro sticky_keeps keeps_session) simp_all

lemma sticky_action: "evolves (stays_revoked d) (record_admin_action E admin a t p)"
  unfolding record_admin_action_def by (intro sticky_keeps frame.ev_rules keeps_session keeps_db_modify) simp_all

lemma revocation_sticks:
  assumes "\<not> lifts d req"
  shows "evolves (stays_revoked d) (serve_admin E key i req)"
proof -
  have "evolves (stays_revoked d) (admin_route E admin req)" for admin
    using assms
    by (cases req)
      (auto simp: mapE_def upsert_agent_def upsert_policy_def upsert_merchant_def revoke_delegation_def reinstate_delegation_def
        set_revoked_def issue_token_def sign_delegation_token_def get_policy_def list_merchants_def list_admin_audit_def
        telegram_link_code_def telegram_link_def telegram_unlink_def dev_reset_def
        intro!: sticky.ev_rules sticky_store sticky_session sticky_action sticky_keeps [OF keeps_links(1)] sticky_keeps [OF keeps_links(2)]
          sticky_keeps [OF keeps_links(3)] sticky_keeps [OF keeps_links(4)] sticky_keeps [OF keeps_links(5)]
          keeps_db_modify keeps_db_get frame.ev_rules split: exn.splits option.splits)
  then show ?thesis
    unfolding evolves_def stays_revoked_def by (metis prod.sel(2) serve_admin_cases)
qed

lemma lifting_lifts:
  assumes "serve_admin E key i req w = (Inr r, w')" "lifts d req"
  shows "\<not> st_sismember REVOCATION_SET d (store w')"
proof -
  from assms obtain admin a t p w1 w2 where "store_srem E REVOCATION_SET d w1 = (Inr (), w2)" "record_admin_action E admin a t p w2 = (Inr (), w')"
    by (cases req)
      (auto elim!: serve_admin_InrE thenE_InrE simp: upsert_policy_def reinstate_delegation_def mapE_def elim!: bindE_InrE)
  then show ?thesis using admin_action_keeps [of E admin a t p w2 "()" w']
    by (auto simp: store_srem_def store_call_def Let_def st_srem_def st_sismember_def split: if_splits)
qed

text \<open>A sequence of requests to the control plane, each with its headers.\<close>

definition serve_all :: "env \<Rightarrow> (string option \<times> string option \<times> admin_request) list \<Rightarrow> world \<Rightarrow> world" where
  "serve_all E reqs w = fold (\<lambda>(key, i, req) w. snd (serve_admin E key i req w)) reqs w"

lemma serve_all_sticks:
  assumes "\<forall>(key, i, req) \<in> set reqs. \<not> lifts d req" "st_sismember REVOCATION_SET d (store w)"
  shows "st_sismember REVOCATION_SET d (store (serve_all E reqs w))"
  using assms
proof (induction reqs arbitrary: w)
  case (Cons x reqs)
  obtain key i req where x: "x = (key, i, req)" by (cases x)
  with Cons.prems(1) have "\<not> lifts d req" by auto
  from evolvesD [OF revocation_sticks [OF this], of w E key i] Cons.prems(2)
  have "st_sismember REVOCATION_SET d (store (snd (serve_admin E key i req w)))" by (simp add: stays_revoked_def)
  with Cons.IH [of "snd (serve_admin E key i req w)"] Cons.prems(1) x show ?case by (simp add: serve_all_def)
qed (simp add: serve_all_def)

section \<open>A spent code stays spent\<close>

definition code_spent :: "string \<Rightarrow> database \<Rightarrow> bool" where
  "code_spent c d \<longleftrightarrow> (\<exists>r. find_code c (tg_codes d) = Some r \<and> tc_used_at r \<noteq> None)"

definition keeps_spent :: "string \<Rightarrow> database \<Rightarrow> database \<Rightarrow> bool" where
  "keeps_spent c d d' \<longleftrightarrow> (code_spent c d \<longrightarrow> code_spent c d')"

interpretation spent: db_relation "keeps_spent c" for c
  by unfold_locales (auto simp: keeps_spent_def)

lemma find_filter: "List.find Q rows = Some r \<Longrightarrow> P r \<Longrightarrow> List.find Q (filter P rows) = Some r"
  by (induction rows) (auto split: if_splits)

lemma find_snoc: "List.find Q rows = Some r \<Longrightarrow> List.find Q (rows @ xs) = Some r"
  by (induction rows) auto

lemma spent_replaced:
  "code_spent c d \<Longrightarrow> code_spent c (d\<lparr>tg_codes := filter (\<lambda>r. \<not> unused_of u r) (tg_codes d) @ xs\<rparr>)"
proof -
  assume "code_spent c d"
  then obtain r where r: "List.find (\<lambda>r. tc_code r = c) (tg_codes d) = Some r" "tc_used_at r \<noteq> None"
    by (auto simp: code_spent_def find_code_def)
  have "\<not> unused_of u r" using r(2) by (simp add: unused_of_def)
  from find_snoc [OF find_filter [OF r(1), of "\<lambda>r. \<not> unused_of u r", OF this]] r(2) show ?thesis
    by (auto simp: code_spent_def find_code_def)
qed

lemma spent_issue: "evolves (on_db (keeps_spent c)) (issue_code E user)"
proof -
  have "evolves (on_db (keeps_spent c)) (replace_code user c' t)" for c' t
    by (auto simp: evolves_def on_db_def replace_code_def bindE_def db_get_def db_modify_def keeps_spent_def spent_replaced)
  moreover have "evolves (on_db (keeps_spent c)) (draw_code E)"
    by (simp add: evolves_def on_db_def draw_code_def spent.P_refl)
  ultimately show ?thesis unfolding issue_code_def by (intro spent.ev_rules spent.db_session)
qed

lemma find_code_spend_other: "find_code c (spend_code c' t rows) = map_option (\<lambda>r. if c = c' then r\<lparr>tc_used_at := Some t\<rparr> else r) (find_code c rows)"
  by (induction rows) (auto simp: find_code_def spend_code_def)

lemma spent_respent: "code_spent c d \<Longrightarrow> code_spent c (d\<lparr>tg_codes := spend_code c' t (tg_codes d), tg_links := l\<rparr>)"
  by (cases "c = c'") (auto simp: code_spent_def find_code_spend_other)

lemma spent_redeem: "evolves (on_db (keeps_spent c)) (redeem_code E c' tid)"
proof -
  have "evolves (on_db (keeps_spent c)) (bind_account a t)" for a t
    by (auto simp: evolves_def on_db_def bind_account_def bindE_def thenE_def db_get_def db_modify_def keeps_spent_def spent_respent
        split: option.splits)
  then show ?thesis unfolding redeem_code_def Let_def by (intro spent.ev_rules spent.db_session)
qed

lemma spent_same: "tg_codes d' = tg_codes d \<Longrightarrow> keeps_spent c d d'"
  by (simp add: keeps_spent_def code_spent_def)

lemma spent_keeps: "evolves (keeps (\<lambda>w. tg_codes (db w))) m \<Longrightarrow> evolves (on_db (keeps_spent c)) m"
  by (auto simp: evolves_def keeps_def on_db_def intro: spent_same)

lemma spent_action: "evolves (on_db (keeps_spent c)) (record_admin_action E admin a t p)"
  unfolding record_admin_action_def
  by (intro spent.ev_rules spent.db_session spent.db_modify_rule spent_same) simp

lemma spent_store: "evolves (on_db (keeps_spent c)) (store_srem E k m)" "evolves (on_db (keeps_spent c)) (store_sadd E k m)"
  "evolves (on_db (keeps_spent c)) (list_revoked E)"
  unfolding store_srem_def store_sadd_def list_revoked_def by (intro spent.db_keeps keeps_store_call; simp)+

lemma spent_serve:
  assumes "req \<noteq> DevReset"
  shows "evolves (on_db (keeps_spent c)) (serve_admin E key i req)"
proof -
  have "evolves (on_db (keeps_spent c)) (admin_route E admin req)" for admin
    using assms
    by (cases req)
      (auto simp: mapE_def upsert_agent_def upsert_policy_def upsert_merchant_def revoke_delegation_def reinstate_delegation_def
        set_revoked_def issue_token_def sign_delegation_token_def get_policy_def list_merchants_def list_admin_audit_def
        telegram_link_code_def telegram_link_def telegram_unlink_def unlink_user_def resolve_user_def status_for_user_def
        intro!: spent.ev_rules spent.db_session spent.db_modify_rule spent_same spent_action spent_store spent_issue spent_redeem
          spent.db_keeps [OF keeps_db_get] split: exn.splits option.splits)
  then show ?thesis
    unfolding evolves_def on_db_def using spent.P_refl by (metis prod.sel(2) serve_admin_cases)
qed

lemma spent_serve_all:
  assumes "\<forall>(key, i, req) \<in> set reqs. req \<noteq> DevReset" "code_spent c (db w)"
  shows "code_spent c (db (serve_all E reqs w))"
  using assms
proof (induction reqs arbitrary: w)
  case (Cons x reqs)
  obtain key i req where x: "x = (key, i, req)" by (cases x)
  with Cons.prems(1) have "req \<noteq> DevReset" by auto
  from evolvesD [OF spent_serve [OF this], of c w E key i] Cons.prems(2)
  have "code_spent c (db (snd (serve_admin E key i req w)))" by (simp add: on_db_def keeps_spent_def)
  with Cons.IH [of "snd (serve_admin E key i req w)"] Cons.prems(1) x show ?case by (simp add: serve_all_def)
qed (simp add: serve_all_def)

lemma code_spent_refused:
  assumes "code_spent (upper (strip c)) (db w)"
  shows "redeem_code E c tid w = (Inl (LinkError 409 ''link code already used''), (tick E w)\<lparr>db := db w\<rparr>)"
  using assms redeem_spent [of c w] by (auto simp: code_spent_def)

section \<open>A minted token\<close>

lemma delegation_accepted:
  assumes "of_int now_s \<le> t" "t < of_int (now_s + ttl)"
  shows "jwt_accepts delegation_requires (cfg_jwt_audience (e_cfg E)) (cfg_jwt_issuer (e_cfg E)) t (delegation_claims E now_s a u d sc ttl)"
  using assms by (simp add: jwt_accepts_def delegation_requires_def claim_def delegation_claims_def)

lemma minted_authenticates:
  assumes "serve_admin E key i (IssueToken b) w = (Inr (Token tok), w')" "e_delegation_private E = Some priv" "e_delegation_public E = Some pub"
    and "jwt_returns E priv pub (delegation_claims E \<lfloor>now w\<rfloor> (to_agent_id b) (to_user_id b) (to_delegation_id b) (to_scopes b) (to_ttl_seconds b))"
    and "bearer h = Some tok" "of_int \<lfloor>now w\<rfloor> \<le> now v" "now v < of_int (\<lfloor>now w\<rfloor> + to_ttl_seconds b)"
    and "pi_agent_id p = to_agent_id b" "pi_user_id p = to_user_id b" "pi_delegation_id p = to_delegation_id b"
    and "to_agent_id b \<noteq> ''''" "to_delegation_id b \<noteq> ''''" "case to_scopes b of None \<Rightarrow> True | Some s \<Rightarrow> REQUIRED_SCOPE \<in> set s"
    and "e_store_ok E (ops v)" "\<not> st_sismember REVOCATION_SET (to_delegation_id b) (store v)"
  shows "\<exists>idn v'. authenticate E h p v = (Inr idn, v') \<and> id_agent_id idn = to_agent_id b \<and> id_user_id idn = to_user_id b \<and>
    id_delegation_id idn = to_delegation_id b"
proof -
  let ?c = "delegation_claims E \<lfloor>now w\<rfloor> (to_agent_id b) (to_user_id b) (to_delegation_id b) (to_scopes b) (to_ttl_seconds b)"
  from assms(1,2) have t: "tok = e_jwt_encode E priv ?c"
    by (auto elim!: serve_admin_InrE simp: bindE_def mapE_def issue_token_def sign_delegation_token_def thenE_def
        split: prod.splits sum.splits)
  have "e_jwt_decode E pub delegation_requires (cfg_jwt_audience (e_cfg E)) (cfg_jwt_issuer (e_cfg E)) (now v) tok = Inr ?c"
    using delegation_accepted [OF assms(6,7)] assms(4) t by (simp add: jwt_returns_def)
  moreover have "missing_claims ?c = []" using assms(11,12) by (simp add: missing_claims_def claim_def delegation_claims_def)
  moreover have "\<exists>sc. scopes_of (claim ?c ''scopes'') = Some sc \<and> REQUIRED_SCOPE \<in> set sc"
    using assms(13) by (auto simp: claim_def delegation_claims_def List.map_filter_def split: option.splits)
  moreover have "claim_text E ?c ''agent_id'' = to_agent_id b" "claim_text E ?c ''sub'' = to_user_id b"
    "claim_text E ?c ''delegation_id'' = to_delegation_id b"
    by (simp_all add: claim_text_def claim_def delegation_claims_def py_str_def)
  ultimately show ?thesis using assms(3,5,8-10,14,15)
    by (auto simp: authenticate_def decode_delegation_token_def bindE_def thenE_def assert_binding_def binding_mismatches_def
        assert_scope_def assert_not_revoked_def catchE_def store_call_def Let_def)
qed

end
