(* ===== verification/Relay.thy ===== *)
theory Relay
  imports Events "HOL-Library.Sublist"
begin

text \<open>
  \<open>apps/event-relay/event_relay/main.py\<close>: the hub that fans stage events out to WebSocket clients.
  The Redis pump and one coroutine per client interleave at their awaits; an action is what one of
  them does between two awaits, so a run of the relay is a sequence of actions. An event is the
  stage event of \<open>gateway/events.py\<close> that the message carries.
\<close>

section \<open>Hub and clients\<close>

record relay_config =
  rc_client_queue_size :: int
  rc_replay_buffer_size :: int

definition default_relay_config :: relay_config where
  "default_relay_config = \<lparr>rc_client_queue_size = 256, rc_replay_buffer_size = 500\<rparr>"

record subscriber =
  sb_queue :: "stage_event list"
  sb_request_id :: "string option"
  sb_dropped :: nat

definition wants :: "string option \<Rightarrow> stage_event \<Rightarrow> bool" where
  "wants rid e \<longleftrightarrow> rid = None \<or> rid = Some (ev_request_id e)"

datatype ws_message = Hello "string option" bool | StageMsg bool stage_event \<comment> \<open>replayed?\<close> | DroppedMsg nat

text \<open>Where the coroutine \<open>_serve\<close> of a client is suspended.\<close>

datatype phase = Greeting
  | Replaying "stage_event list" \<comment> \<open>still to be sent\<close>
  | Waiting \<comment> \<open>in \<open>queue.get()\<close>\<close>
  | Delivering \<comment> \<open>a live event is being sent\<close>
  | Reporting \<comment> \<open>the number of dropped events is being sent\<close>

text \<open>
  The last three fields are history: the events fanned out when the client was added, and when its
  replay was taken, and the events its queue refused.
\<close>

record client =
  cl_phase :: phase
  cl_sent :: "ws_message list"
  cl_joined :: nat
  cl_snapped :: nat
  cl_lost :: nat

text \<open>The hub; \<open>rl_log\<close> is the history of all events it has fanned out.\<close>

record relay =
  rl_subscribers :: "nat \<rightharpoonup> subscriber"
  rl_recent :: "stage_event list"
  rl_connected :: bool
  rl_events_seen :: nat
  rl_backoff :: real
  rl_clients :: "nat \<rightharpoonup> client"
  rl_log :: "stage_event list"

definition init_relay :: relay where
  "init_relay = \<lparr>rl_subscribers = Map.empty, rl_recent = [], rl_connected = False, rl_events_seen = 0,
     rl_backoff = 1 / 2, rl_clients = Map.empty, rl_log = []\<rparr>"

section \<open>Fan-out\<close>

text \<open>A queue of size at most zero is unbounded.\<close>

definition full :: "relay_config \<Rightarrow> subscriber \<Rightarrow> bool" where
  "full C s \<longleftrightarrow> 0 < rc_client_queue_size C \<and> rc_client_queue_size C \<le> int (length (sb_queue s))"

definition offer :: "relay_config \<Rightarrow> stage_event \<Rightarrow> subscriber \<Rightarrow> subscriber" where
  "offer C e s = (if \<not> wants (sb_request_id s) e then s
     else if full C s then s\<lparr>sb_dropped := Suc (sb_dropped s)\<rparr> else s\<lparr>sb_queue := sb_queue s @ [e]\<rparr>)"

definition trim_recent :: "relay_config \<Rightarrow> stage_event list \<Rightarrow> stage_event list" where
  "trim_recent C es = (if int (length es) > rc_replay_buffer_size C then drop (nat (int (length es) - rc_replay_buffer_size C)) es else es)"

definition count_lost :: "relay_config \<Rightarrow> stage_event \<Rightarrow> (nat \<rightharpoonup> subscriber) \<Rightarrow> (nat \<rightharpoonup> client) \<Rightarrow> nat \<rightharpoonup> client" where
  "count_lost C e subs cls = (\<lambda>i. case subs i of
       Some s \<Rightarrow> if wants (sb_request_id s) e \<and> full C s then map_option (\<lambda>c. c\<lparr>cl_lost := Suc (cl_lost c)\<rparr>) (cls i) else cls i
     | None \<Rightarrow> cls i)"

definition fan_out :: "relay_config \<Rightarrow> stage_event \<Rightarrow> relay \<Rightarrow> relay" where
  "fan_out C e h = h\<lparr>rl_events_seen := Suc (rl_events_seen h), rl_recent := trim_recent C (rl_recent h @ [e]),
     rl_subscribers := (\<lambda>i. map_option (offer C e) (rl_subscribers h i)),
     rl_clients := count_lost C e (rl_subscribers h) (rl_clients h), rl_log := rl_log h @ [e]\<rparr>"

definition replay :: "string option \<Rightarrow> relay \<Rightarrow> stage_event list" where
  "replay rid h = (if rid = None then rl_recent h else filter (wants rid) (rl_recent h))"

section \<open>The pump and the clients\<close>

datatype channel_message = NotMessage | Garbage | Carries stage_event

definition pump_subscribed :: "relay \<Rightarrow> relay" where
  "pump_subscribed h = h\<lparr>rl_connected := True, rl_backoff := 1 / 2\<rparr>"

definition pump_message :: "relay_config \<Rightarrow> channel_message \<Rightarrow> relay \<Rightarrow> relay" where
  "pump_message C m h = (case m of Carries e \<Rightarrow> fan_out C e h | _ \<Rightarrow> h)"

text \<open>The connection broke: sleep \<open>backoff\<close> seconds, and twice as long the next time.\<close>

definition pump_broke :: "relay \<Rightarrow> relay" where
  "pump_broke h = h\<lparr>rl_connected := False, rl_backoff := min (rl_backoff h * 2) 10\<rparr>"

text \<open>\<open>watch_request\<close> keeps 128 characters of the id; \<open>watch_all\<close> passes \<open>None\<close>.\<close>

definition connect :: "nat \<Rightarrow> string option \<Rightarrow> relay \<Rightarrow> relay" where
  "connect i rid h = (let rid' = map_option (take 128) rid in
     h\<lparr>rl_subscribers := (rl_subscribers h)(i \<mapsto> \<lparr>sb_queue = [], sb_request_id = rid', sb_dropped = 0\<rparr>),
       rl_clients := (rl_clients h)(i \<mapsto> \<lparr>cl_phase = Greeting, cl_sent = [Hello rid' (rl_connected h)],
         cl_joined = length (rl_log h), cl_snapped = length (rl_log h), cl_lost = 0\<rparr>)\<rparr>)"

definition disconnect :: "nat \<Rightarrow> relay \<Rightarrow> relay" where
  "disconnect i h = h\<lparr>rl_subscribers := (rl_subscribers h)(i := None), rl_clients := (rl_clients h)(i := None)\<rparr>"

definition set_client :: "nat \<Rightarrow> client \<Rightarrow> relay \<Rightarrow> relay" where
  "set_client i c h = h\<lparr>rl_clients := (rl_clients h)(i \<mapsto> c)\<rparr>"

definition set_subscriber :: "nat \<Rightarrow> subscriber \<Rightarrow> relay \<Rightarrow> relay" where
  "set_subscriber i s h = h\<lparr>rl_subscribers := (rl_subscribers h)(i \<mapsto> s)\<rparr>"

text \<open>The coroutine of client \<open>i\<close> runs to its next await; \<open>None\<close> when it cannot.\<close>

definition resume :: "nat \<Rightarrow> relay \<Rightarrow> relay option" where
  "resume i h = (case (rl_clients h i, rl_subscribers h i) of
     (Some c, Some s) \<Rightarrow> (case cl_phase c of
         Greeting \<Rightarrow> Some (set_client i (c\<lparr>cl_phase := Replaying (replay (sb_request_id s) h), cl_snapped := length (rl_log h)\<rparr>) h)
       | Replaying (e # es) \<Rightarrow> Some (set_client i (c\<lparr>cl_phase := Replaying es, cl_sent := cl_sent c @ [StageMsg True e]\<rparr>) h)
       | Replaying [] \<Rightarrow> Some (set_client i (c\<lparr>cl_phase := Waiting\<rparr>) h)
       | Waiting \<Rightarrow> (case sb_queue s of [] \<Rightarrow> None
           | e # q \<Rightarrow> Some (set_client i (c\<lparr>cl_phase := Delivering, cl_sent := cl_sent c @ [StageMsg False e]\<rparr>)
               (set_subscriber i (s\<lparr>sb_queue := q\<rparr>) h)))
       | Delivering \<Rightarrow> Some (if sb_dropped s \<noteq> 0
           then set_client i (c\<lparr>cl_phase := Reporting, cl_sent := cl_sent c @ [DroppedMsg (sb_dropped s)]\<rparr>) h
           else set_client i (c\<lparr>cl_phase := Waiting\<rparr>) h)
       | Reporting \<Rightarrow> Some (set_client i (c\<lparr>cl_phase := Waiting\<rparr>) (set_subscriber i (s\<lparr>sb_dropped := 0\<rparr>) h)))
   | _ \<Rightarrow> None)"

text \<open>A client that is gone is noticed by the send that fails, so not while the coroutine waits for an event.\<close>

definition sending :: "nat \<Rightarrow> relay \<Rightarrow> bool" where
  "sending i h \<longleftrightarrow> (case rl_clients h i of None \<Rightarrow> False | Some c \<Rightarrow> cl_phase c \<noteq> Waiting)"

datatype action = Subscribed | Broke | Message channel_message | Connect nat "string option" | Resume nat | Gone nat

fun perform :: "relay_config \<Rightarrow> action \<Rightarrow> relay \<Rightarrow> relay option" where
  "perform C Subscribed h = Some (pump_subscribed h)"
| "perform C Broke h = Some (pump_broke h)"
| "perform C (Message m) h = (if rl_connected h then Some (pump_message C m h) else None)"
| "perform C (Connect i rid) h = (if rl_subscribers h i = None \<and> rl_clients h i = None then Some (connect i rid h) else None)"
| "perform C (Resume i) h = resume i h"
| "perform C (Gone i) h = (if sending i h then Some (disconnect i h) else None)"

inductive relay_run :: "relay_config \<Rightarrow> action list \<Rightarrow> relay \<Rightarrow> relay \<Rightarrow> bool" for C where
  no_action: "relay_run C [] h h"
| next_action: "relay_run C as h h' \<Longrightarrow> perform C a h' = Some h'' \<Longrightarrow> relay_run C (as @ [a]) h h''"

section \<open>What a client is sent\<close>

definition live_part :: "ws_message \<Rightarrow> stage_event option" where
  "live_part m = (case m of StageMsg False e \<Rightarrow> Some e | _ \<Rightarrow> None)"

definition replayed_part :: "ws_message \<Rightarrow> stage_event option" where
  "replayed_part m = (case m of StageMsg True e \<Rightarrow> Some e | _ \<Rightarrow> None)"

definition lives :: "ws_message list \<Rightarrow> stage_event list" where "lives ms = List.map_filter live_part ms"
definition replays :: "ws_message list \<Rightarrow> stage_event list" where "replays ms = List.map_filter replayed_part ms"

lemma parts_snoc [simp]:
  "lives [] = []" "replays [] = []"
  "lives (ms @ [StageMsg b e]) = (if b then lives ms else lives ms @ [e])" "replays (ms @ [StageMsg b e]) = (if b then replays ms @ [e] else replays ms)"
  "lives (ms @ [DroppedMsg n]) = lives ms" "replays (ms @ [DroppedMsg n]) = replays ms" "lives [Hello r b] = []" "replays [Hello r b] = []"
  by (auto simp: lives_def replays_def live_part_def replayed_part_def List.map_filter_def)

fun pending :: "phase \<Rightarrow> stage_event list" where
  "pending (Replaying es) = es"
| "pending _ = []"

text \<open>
  The events of a client: its live stream and its queue are a subsequence of the events it wants
  since it was added, the missing ones are the ones its queue refused, and the replay is what the
  buffer held when it was taken.
\<close>

definition client_ok :: "relay_config \<Rightarrow> stage_event list \<Rightarrow> subscriber \<Rightarrow> client \<Rightarrow> bool" where
  "client_ok C hist s c \<longleftrightarrow> (let W = wants (sb_request_id s); mine = filter W (drop (cl_joined c) hist) in
     cl_joined c \<le> cl_snapped c \<and> cl_snapped c \<le> length hist \<and>
     subseq (lives (cl_sent c) @ sb_queue s) mine \<and>
     length (lives (cl_sent c)) + length (sb_queue s) + cl_lost c = length mine \<and>
     (0 < rc_client_queue_size C \<longrightarrow> int (length (sb_queue s)) \<le> rc_client_queue_size C) \<and>
     replays (cl_sent c) @ pending (cl_phase c) =
       (if cl_phase c = Greeting then [] else filter W (trim_recent C (take (cl_snapped c) hist))))"

definition relay_ok :: "relay_config \<Rightarrow> relay \<Rightarrow> bool" where
  "relay_ok C h \<longleftrightarrow> rl_recent h = trim_recent C (rl_log h) \<and> rl_events_seen h = length (rl_log h) \<and>
     1 / 2 \<le> rl_backoff h \<and> rl_backoff h \<le> 10 \<and>
     (\<forall>i. case (rl_subscribers h i, rl_clients h i) of (None, None) \<Rightarrow> True
        | (Some s, Some c) \<Rightarrow> client_ok C (rl_log h) s c | _ \<Rightarrow> False)"

lemma trim_step: "trim_recent C (trim_recent C es @ [e]) = trim_recent C (es @ [e])"
proof (cases "int (length es) > rc_replay_buffer_size C")
  case True
  define k where "k = nat (int (length es) - rc_replay_buffer_size C)"
  have t: "trim_recent C es = drop k es" using True by (simp add: trim_recent_def k_def)
  show ?thesis
  proof (cases "0 \<le> rc_replay_buffer_size C")
    case nonneg: True
    have k: "k \<le> length es" "int (length (drop k es)) = rc_replay_buffer_size C" using True nonneg by (auto simp: k_def)
    have "trim_recent C (es @ [e]) = drop (Suc k) (es @ [e])" 
    proof -
      have n: "int (length (es @ [e])) - rc_replay_buffer_size C = int (Suc k)" using True by (simp add: k_def)
      moreover have "rc_replay_buffer_size C < int (length (es @ [e]))" using True by simp
      ultimately show ?thesis unfolding trim_recent_def n nat_int by (simp only: if_True)
    qed
    moreover have "trim_recent C (drop k es @ [e]) = drop 1 (drop k es @ [e])" using k(2) by (auto simp: trim_recent_def)
    moreover have "drop 1 (drop k es @ [e]) = drop (Suc k) (es @ [e])"
    proof -
      have "drop k es @ [e] = drop k (es @ [e])" using k(1) by simp
      then have "drop 1 (drop k es @ [e]) = drop 1 (drop k (es @ [e]))" by (rule arg_cong)
      also have "\<dots> = drop (1 + k) (es @ [e])" by (rule drop_drop)
      finally show ?thesis by simp
    qed
    ultimately show ?thesis by (simp add: t)
  next
    case False
    then have "length es \<le> k" using True by (simp add: k_def)
    then show ?thesis using False by (auto simp: t trim_recent_def)
  qed
qed (simp add: trim_recent_def)

lemma subseq_snoc: "subseq (a @ b) c \<Longrightarrow> subseq (a @ b @ [e]) (c @ [e])"
  using subseq_append [of "a @ b" "[e]" c] by simp

lemma client_new: "client_ok C hist \<lparr>sb_queue = [], sb_request_id = rid, sb_dropped = 0\<rparr>
    \<lparr>cl_phase = Greeting, cl_sent = [Hello rid b], cl_joined = length hist, cl_snapped = length hist, cl_lost = 0\<rparr>"
  by (simp add: client_ok_def Let_def)

lemma client_fan:
  assumes "client_ok C hist s c"
  shows "client_ok C (hist @ [e]) (offer C e s)
    (if wants (sb_request_id s) e \<and> full C s then c\<lparr>cl_lost := Suc (cl_lost c)\<rparr> else c)"
  using assms
  by (auto simp: client_ok_def Let_def offer_def full_def intro: subseq_snoc subseq_rev_drop_many)

text \<open>One step of the coroutine.\<close>

lemma client_replay:
  "client_ok C hist s c \<Longrightarrow> cl_phase c = Greeting \<Longrightarrow> r = filter (wants (sb_request_id s)) (trim_recent C hist) \<Longrightarrow>
   client_ok C hist s (c\<lparr>cl_phase := Replaying r, cl_snapped := length hist\<rparr>)"
  "client_ok C hist s c \<Longrightarrow> cl_phase c = Replaying (e # es) \<Longrightarrow>
   client_ok C hist s (c\<lparr>cl_phase := Replaying es, cl_sent := cl_sent c @ [StageMsg True e]\<rparr>)"
  "client_ok C hist s c \<Longrightarrow> cl_phase c = Replaying [] \<Longrightarrow> client_ok C hist s (c\<lparr>cl_phase := Waiting\<rparr>)"
  by (simp_all add: client_ok_def Let_def)

lemma client_live:
  "client_ok C hist s c \<Longrightarrow> cl_phase c = Waiting \<Longrightarrow> sb_queue s = e # q \<Longrightarrow>
   client_ok C hist (s\<lparr>sb_queue := q\<rparr>) (c\<lparr>cl_phase := Delivering, cl_sent := cl_sent c @ [StageMsg False e]\<rparr>)"
  "client_ok C hist s c \<Longrightarrow> cl_phase c \<in> {Delivering, Reporting} \<Longrightarrow> client_ok C hist s (c\<lparr>cl_phase := Waiting\<rparr>)"
  "client_ok C hist s c \<Longrightarrow> cl_phase c = Delivering \<Longrightarrow>
   client_ok C hist s (c\<lparr>cl_phase := Reporting, cl_sent := cl_sent c @ [DroppedMsg n]\<rparr>)"
  "client_ok C hist s c \<Longrightarrow> client_ok C hist (s\<lparr>sb_dropped := n\<rparr>) c"
  by (auto simp: client_ok_def Let_def)

section \<open>The invariant\<close>

text \<open>The entry of one client in the two tables.\<close>

definition entry_ok :: "relay_config \<Rightarrow> stage_event list \<Rightarrow> subscriber option \<Rightarrow> client option \<Rightarrow> bool" where
  "entry_ok C hist s c \<longleftrightarrow> (case (s, c) of (None, None) \<Rightarrow> True | (Some s, Some c) \<Rightarrow> client_ok C hist s c | _ \<Rightarrow> False)"

lemma relay_ok_entries: "relay_ok C h \<longleftrightarrow> rl_recent h = trim_recent C (rl_log h) \<and> rl_events_seen h = length (rl_log h) \<and>
    1 / 2 \<le> rl_backoff h \<and> rl_backoff h \<le> 10 \<and> (\<forall>i. entry_ok C (rl_log h) (rl_subscribers h i) (rl_clients h i))"
  by (simp add: relay_ok_def entry_ok_def)

lemma entry_fan:
  "entry_ok C hist (subs i) (cls i) \<Longrightarrow> entry_ok C (hist @ [e]) (map_option (offer C e) (subs i)) (count_lost C e subs cls i)"
  using client_fan [of C hist "the (subs i)" "the (cls i)" e]
  by (cases "subs i"; cases "cls i") (auto simp: entry_ok_def count_lost_def)

lemma init_relay_ok: "0 \<le> rc_replay_buffer_size C \<Longrightarrow> relay_ok C init_relay"
  by (simp add: relay_ok_entries init_relay_def entry_ok_def trim_recent_def)

lemma set_ok:
  assumes "relay_ok C h" "client_ok C (rl_log h) s c"
  shows "relay_ok C (set_client i c (set_subscriber i s h))" "rl_subscribers h i = Some s \<Longrightarrow> relay_ok C (set_client i c h)"
  using assms by (auto simp: relay_ok_entries set_client_def set_subscriber_def entry_ok_def)

lemma set_log [simp]: "rl_log (set_client i c h) = rl_log h" "rl_log (set_subscriber i s h) = rl_log h"
  by (simp_all add: set_client_def set_subscriber_def)

lemma resume_ok:
  assumes "relay_ok C h" "resume i h = Some h'"
  shows "relay_ok C h' \<and> rl_log h' = rl_log h"
proof -
  from assms(2) obtain c s where c: "rl_clients h i = Some c" and s: "rl_subscribers h i = Some s"
    by (auto simp: resume_def split: option.splits)
  from assms(1) have e: "entry_ok C (rl_log h) (rl_subscribers h j) (rl_clients h j)" "rl_recent h = trim_recent C (rl_log h)" for j
    by (simp_all add: relay_ok_entries)
  from e(1) [of i] c s have ok: "client_ok C (rl_log h) s c" by (simp add: entry_ok_def)
  have r: "replay rid h = filter (wants rid) (trim_recent C (rl_log h))" for rid
    using e(2) by (cases rid) (auto simp: replay_def wants_def)
  note same = set_ok(2) [OF assms(1) _ s] and both = set_ok(1) [OF assms(1)]
  show ?thesis
  proof (cases "cl_phase c")
    case (Replaying es)
    then show ?thesis using assms(2) c s same client_replay(2,3) [OF ok]
      by (cases es) (auto simp: resume_def)
  next
    case Waiting
    with assms(2) c s both client_live(1) [OF ok] show ?thesis by (auto simp: resume_def split: list.splits)
  next
    case Delivering
    with assms(2) c s same [OF client_live(2) [OF ok]] same [OF client_live(3) [OF ok]] show ?thesis
      by (auto simp: resume_def split: if_splits)
  next
    case Reporting
    with assms(2) c s both client_live(2) [OF client_live(4) [OF ok]] show ?thesis by (auto simp: resume_def)
  qed (use assms(2) c s r same client_replay(1) [OF ok] in \<open>auto simp: resume_def\<close>)
qed

lemma perform_ok:
  assumes "relay_ok C h" "perform C a h = Some h'"
  shows "relay_ok C h'"
proof (cases a)
  case (Message m)
  show ?thesis
  proof (cases m)
    case (Carries e)
    have "entry_ok C (rl_log h @ [e]) (map_option (offer C e) (rl_subscribers h i)) (count_lost C e (rl_subscribers h) (rl_clients h) i)" for i
      by (rule entry_fan) (use assms(1) in \<open>simp add: relay_ok_entries\<close>)
    with Message Carries assms show ?thesis
      by (auto simp: pump_message_def fan_out_def relay_ok_entries trim_step split: if_splits)
  qed (use assms Message in \<open>auto simp: pump_message_def split: if_splits\<close>)
next
  case (Connect i rid)
  with assms show ?thesis
    by (auto simp: relay_ok_entries connect_def Let_def split: if_splits) (simp add: entry_ok_def client_new)
next
  case (Resume i)
  with assms resume_ok [of C h i h'] show ?thesis by simp
next
  case (Gone i)
  with assms show ?thesis
    by (auto simp: relay_ok_entries disconnect_def split: if_splits) (simp add: entry_ok_def)
qed (use assms in \<open>auto simp: relay_ok_entries pump_subscribed_def pump_broke_def\<close>)

lemma relay_invariant: "relay_run C as h h' \<Longrightarrow> relay_ok C h \<Longrightarrow> relay_ok C h'"
  by (induction rule: relay_run.induct) (auto intro: perform_ok)

lemma client_invariant:
  assumes "relay_run C as init_relay h" "0 \<le> rc_replay_buffer_size C" "rl_clients h i = Some c"
  obtains s where "rl_subscribers h i = Some s" "client_ok C (rl_log h) s c"
proof -
  have "relay_ok C h" using relay_invariant [OF assms(1)] init_relay_ok [OF assms(2)] .
  then have "entry_ok C (rl_log h) (rl_subscribers h i) (rl_clients h i)" by (simp add: relay_ok_entries)
  with assms(3) that show ?thesis by (auto simp: entry_ok_def split: option.splits)
qed

lemma parts_in: "StageMsg b e \<in> set ms \<Longrightarrow> e \<in> set (if b then replays ms else lives ms)"
  by (auto simp: replays_def lives_def replayed_part_def live_part_def List.map_filter_def image_iff intro!: bexI [of _ "StageMsg b e"])

text \<open>A client is never sent an event it did not ask for.\<close>

lemma sent_wanted:
  assumes "client_ok C hist s c" "StageMsg b e \<in> set (cl_sent c)"
  shows "wants (sb_request_id s) e"
proof (cases b)
  case True
  then have "e \<in> set (replays (cl_sent c) @ pending (cl_phase c))" using parts_in [OF assms(2)] by simp
  moreover from assms(1) have "replays (cl_sent c) @ pending (cl_phase c) =
      (if cl_phase c = Greeting then [] else filter (wants (sb_request_id s)) (trim_recent C (take (cl_snapped c) hist)))"
    by (simp add: client_ok_def Let_def)
  ultimately have "e \<in> set (if cl_phase c = Greeting then [] else filter (wants (sb_request_id s)) (trim_recent C (take (cl_snapped c) hist)))"
    by (simp only:)
  then show ?thesis by (simp split: if_splits)
next
  case False
  then have "e \<in> set (lives (cl_sent c) @ sb_queue s)" using parts_in [OF assms(2)] by simp
  moreover have m: "subseq (lives (cl_sent c) @ sb_queue s) (filter (wants (sb_request_id s)) (drop (cl_joined c) hist))"
    using assms(1) by (simp add: client_ok_def Let_def)
  ultimately obtain y where "y \<in> set (filter (wants (sb_request_id s)) (drop (cl_joined c) hist))" "e = y"
    using list_emb_set [OF m] by blast
  then show ?thesis by simp
qed

section \<open>Draining, and a client that has left\<close>

text \<open>Left alone, a waiting client takes at most three turns for each queued event, and ends with all of it sent.\<close>

definition turns :: "nat \<Rightarrow> nat \<Rightarrow> action list" where "turns n i = replicate n (Resume i)"

lemma run_append: "relay_run C as h h' \<Longrightarrow> relay_run C bs h' h'' \<Longrightarrow> relay_run C (as @ bs) h h''"
  by (rotate_tac 1, induction rule: relay_run.induct)
    (auto simp flip: append_assoc intro: relay_run.intros)

lemma run_one: "perform C a h = Some h' \<Longrightarrow> relay_run C [a] h h'"
proof -
  assume "perform C a h = Some h'"
  then have "relay_run C ([] @ [a]) h h'" by (rule next_action [OF no_action])
  then show ?thesis by simp
qed

definition at_rest :: "nat \<Rightarrow> relay \<Rightarrow> subscriber \<Rightarrow> client \<Rightarrow> bool" where
  "at_rest i h s c \<longleftrightarrow> rl_subscribers h i = Some s \<and> rl_clients h i = Some c \<and> cl_phase c = Waiting"

lemma set_lookup [simp]:
  "rl_clients (set_client i c h) = (rl_clients h)(i \<mapsto> c)" "rl_subscribers (set_client i c h) = rl_subscribers h"
  "rl_clients (set_subscriber i s h) = rl_clients h" "rl_subscribers (set_subscriber i s h) = (rl_subscribers h)(i \<mapsto> s)"
  by (simp_all add: set_client_def set_subscriber_def)

lemma deliver_one:
  assumes "at_rest i h s c" "sb_queue s = e # q"
  shows "\<exists>n h' s' c'. n \<le> 3 \<and> relay_run C (turns n i) h h' \<and> at_rest i h' s' c' \<and> sb_queue s' = q \<and>
    lives (cl_sent c') = lives (cl_sent c) @ [e]"
proof -
  define s1 where "s1 = s\<lparr>sb_queue := q\<rparr>"
  define c1 where "c1 = c\<lparr>cl_phase := Delivering, cl_sent := cl_sent c @ [StageMsg False e]\<rparr>"
  define h1 where "h1 = set_client i c1 (set_subscriber i s1 h)"
  have 1: "perform C (Resume i) h = Some h1" using assms by (simp add: resume_def at_rest_def h1_def c1_def s1_def)
  have c1: "cl_phase c1 = Delivering" "lives (cl_sent c1) = lives (cl_sent c) @ [e]" by (simp_all add: c1_def)
  have s1: "sb_queue s1 = q" "sb_dropped s1 = sb_dropped s" by (simp_all add: s1_def)
  show ?thesis
  proof (cases "sb_dropped s = 0")
    case True
    define h2 where "h2 = set_client i (c1\<lparr>cl_phase := Waiting\<rparr>) h1"
    have 2: "perform C (Resume i) h1 = Some h2" using True c1 s1 by (simp add: resume_def h1_def h2_def)
    have "relay_run C (turns 2 i) h h2" using run_append [OF run_one [OF 1] run_one [OF 2]] by (simp add: turns_def numeral_2_eq_2)
    moreover have "at_rest i h2 s1 (c1\<lparr>cl_phase := Waiting\<rparr>)" by (simp add: at_rest_def h2_def h1_def)
    ultimately show ?thesis using c1(2) s1(1)
      by (intro exI [of _ 2] exI [of _ h2] exI [of _ s1] exI [of _ "c1\<lparr>cl_phase := Waiting\<rparr>"]) simp
  next
    case False
    define c2 where "c2 = c1\<lparr>cl_phase := Reporting, cl_sent := cl_sent c1 @ [DroppedMsg (sb_dropped s)]\<rparr>"
    define h2 where "h2 = set_client i c2 h1"
    define h3 where "h3 = set_client i (c2\<lparr>cl_phase := Waiting\<rparr>) (set_subscriber i (s1\<lparr>sb_dropped := 0\<rparr>) h2)"
    have c2: "cl_phase c2 = Reporting" "lives (cl_sent c2) = lives (cl_sent c) @ [e]" using c1(2) by (simp_all add: c2_def)
    have 2: "perform C (Resume i) h1 = Some h2" using False c1(1) s1 by (simp add: resume_def h1_def h2_def c2_def)
    have 3: "perform C (Resume i) h2 = Some h3" using c2(1) by (simp add: resume_def h1_def h2_def h3_def)
    have "relay_run C (turns 3 i) h h3"
      using run_append [OF run_one [OF 1] run_append [OF run_one [OF 2] run_one [OF 3]]] by (simp add: turns_def numeral_3_eq_3)
    moreover have "at_rest i h3 (s1\<lparr>sb_dropped := 0\<rparr>) (c2\<lparr>cl_phase := Waiting\<rparr>)" by (simp add: at_rest_def h3_def)
    ultimately show ?thesis using c2(2) s1(1)
      by (intro exI [of _ 3] exI [of _ h3] exI [of _ "s1\<lparr>sb_dropped := 0\<rparr>"] exI [of _ "c2\<lparr>cl_phase := Waiting\<rparr>"]) simp
  qed
qed

lemma drains:
  assumes "at_rest i h s c"
  shows "\<exists>n h' s' c'. n \<le> 3 * length (sb_queue s) \<and> relay_run C (turns n i) h h' \<and> at_rest i h' s' c' \<and> sb_queue s' = [] \<and>
    lives (cl_sent c') = lives (cl_sent c) @ sb_queue s"
  using assms
proof (induction "sb_queue s" arbitrary: h s c)
  case Nil
  show ?case
    by (intro exI [of _ 0] exI conjI, simp, simp add: turns_def, rule no_action, rule Nil.prems) (simp_all flip: Nil.hyps)
next
  case (Cons e q)
  from deliver_one [OF Cons.prems Cons.hyps(2) [symmetric], of C] obtain n h1 s1 c1 where
    1: "n \<le> 3" "relay_run C (turns n i) h h1" "at_rest i h1 s1 c1" "sb_queue s1 = q" "lives (cl_sent c1) = lives (cl_sent c) @ [e]" by blast
  from Cons.hyps(1) [OF 1(4) [symmetric] 1(3)] obtain m h2 s2 c2 where
    2: "m \<le> 3 * length q" "relay_run C (turns m i) h1 h2" "at_rest i h2 s2 c2" "sb_queue s2 = []" "lives (cl_sent c2) = lives (cl_sent c1) @ q"
    using 1(4) by auto
  have "relay_run C (turns (n + m) i) h h2" using run_append [OF 1(2) 2(2)] by (simp add: turns_def replicate_add)
  moreover have "n + m \<le> 3 * length (sb_queue s)" using 1(1) 2(1) Cons.hyps(2) by (simp flip: Cons.hyps(2))
  moreover have "lives (cl_sent c2) = lives (cl_sent c) @ sb_queue s" using 1(5) 2(5) by (simp flip: Cons.hyps(2))
  ultimately show ?case using 2(3,4) by blast
qed

text \<open>
  A client that waits for an event is in no send, so that it has left goes unnoticed: as long as no
  event it wants arrives, no run of the relay removes it.
\<close>

definition calm :: "string option \<Rightarrow> action \<Rightarrow> bool" where
  "calm rid a \<longleftrightarrow> (\<forall>e. a = Message (Carries e) \<longrightarrow> \<not> wants rid e)"

lemma idle_step:
  assumes "at_rest i h s c" "sb_queue s = []" "calm (sb_request_id s) a" "perform C a h = Some h'"
  shows "at_rest i h' s c"
proof (cases a)
  case (Message m)
  with assms show ?thesis
    by (cases m) (auto simp: at_rest_def pump_message_def fan_out_def offer_def count_lost_def calm_def split: if_splits)
next
  case (Resume j)
  with assms show ?thesis
    by (cases "j = i")
      (auto simp: at_rest_def resume_def set_client_def set_subscriber_def split: option.splits phase.splits list.splits if_splits)
qed (use assms in \<open>auto simp: at_rest_def pump_subscribed_def pump_broke_def connect_def disconnect_def sending_def Let_def split: if_splits\<close>)

lemma idle_client_stays:
  "relay_run C as h h' \<Longrightarrow> at_rest i h s c \<Longrightarrow> sb_queue s = [] \<Longrightarrow> \<forall>a \<in> set as. calm (sb_request_id s) a \<Longrightarrow> at_rest i h' s c"
  by (induction rule: relay_run.induct) (auto intro: idle_step)

end
