(* ===== verification/Scenes.thy ===== *)
theory Scenes
  imports Scenario Outcomes Checkpoint Control Relay
begin

text \<open>
  Further runs of the demonstration deployment, each from a state with one stored row or one
  stored answer: a submission that is confirmed, one whose reply is lost, the two background
  sweeps, a replay and a reused key.
\<close>

definition demo_row :: "payment_state \<Rightarrow> int option \<Rightarrow> txn_row" where
  "demo_row st ex = (row_of demo_txn ''ALLOW'' [''POLICY_SATISFIED''] st (assess demo_txn demo_context demo_analysis) ''v1'' 1000)
     \<lparr>tr_token_jti := Some ''pat_u4'', tr_token_expires_at := ex\<rparr>"

definition demo_with :: "payment_state \<Rightarrow> int option \<Rightarrow> world" where
  "demo_with st ex = demo_world\<lparr>db := demo_db\<lparr>txns := [demo_row st ex]\<rparr>\<rparr>"

definition demo_token :: issued_token where
  "demo_token = \<lparr>it_token = ''pat_u4'', it_jti = ''pat_u4'', it_expires_at = 1300\<rparr>"

lemma demo_row_simps [simp]: "tr_pa_id (demo_row st ex) = ''pa_u0''" "tr_state (demo_row st ex) = st" "tr_token_uses (demo_row st ex) = 0"
  "tr_token_expires_at (demo_row st ex) = ex" "tr_created_at (demo_row st ex) = 1000"
  by (simp_all add: demo_row_def row_of_def)

lemma demo_with_simps [simp]: "now (demo_with st ex) = 1000" "ops (demo_with st ex) = 0" "uuids (demo_with st ex) = 0"
  "store (demo_with st ex) = empty_store" "txns (db (demo_with st ex)) = [demo_row st ex]" "audit_log (db (demo_with st ex)) = []"
  "provider (demo_with st ex) = init_provider"
  by (simp_all add: demo_with_def)

lemma demo_with_ok: "txns_ok (txns (db (demo_with st ex)))"
  by (simp add: insertable_def)

lemma demo_token_simps [simp]: "it_token demo_token = ''pat_u4''" by (simp add: demo_token_def)

lemma demo_submitted:
  "\<exists>ref w. submit demo_env demo_txn demo_token (demo_with AUTHORIZED (Some 1300)) = (Inr (outcome CONFIRMED ref ''''), w) \<and>
     pv_call_count (provider w) = 1"
  unfolding demo_env_def
  by (simp add: runs demo_steps del: str_nat.simps cong: run_congs)

lemma demo_unanswered:
  "\<exists>w. submit (demo_at (\<lambda>_ st. st) (\<lambda>_. LostReply)) demo_txn demo_token (demo_with AUTHORIZED (Some 1300)) =
     (Inr (outcome UNKNOWN None ''provider timeout; reconciling''), w)"
  by (simp add: runs demo_steps del: str_nat.simps cong: run_congs)

lemma demo_after_lost:
  "\<exists>w. after_call demo_env demo_txn (Inl ''timed out'') (demo_with SUBMITTED (Some 1300)) =
     (Inr (outcome UNKNOWN None ''provider timeout; reconciling''), w)"
  unfolding demo_env_def
  by (simp add: runs demo_steps del: str_nat.simps cong: run_congs)

lemma demo_faithful: "opa_faithful (demo_at f g)"
  by (simp add: opa_faithful_def)

section \<open>The background sweeps\<close>

lemma demo_expires:
  "\<exists>w. expire_stale_authorizations demo_env (demo_with AUTHORIZED (Some 900)) = (Inr 1, w)"
  unfolding demo_env_def
  by (simp add: runs expire_stale_authorizations_def stale_at_def demo_steps del: str_nat.simps cong: run_congs)

section \<open>A stored answer\<close>

definition demo_answer :: decision_response where
  "demo_answer = response ''pa_old'' ALLOW [''POLICY_SATISFIED''] CONFIRMED (assess demo_txn demo_context demo_analysis) ''v1''"

text \<open>The state after an earlier request under the same key whose payload hashed to \<open>h\<close>.\<close>

definition demo_remembered :: "string \<Rightarrow> world" where
  "demo_remembered h = demo_world\<lparr>store := empty_store\<lparr>kv := [idem_key ''u'' ''order-01'' \<mapsto> (SIdem h demo_answer, Some 90000)]\<rparr>\<rparr>"

lemma demo_stored: "stored_for demo_env demo_txn (demo_remembered h) = Some (SIdem h demo_answer)"
  by (simp add: stored_for_def demo_remembered_def demo_env_def st_look_def)

lemma demo_refused: "rego_result (policy_input demo_env demo_txn demo_identity demo_context demo_analysis (io_finding idem_conflict) no_approval) =
    OpaResult \<lparr>or_decision = ''BLOCK'', or_reason_codes = [''DUPLICATE_IDEMPOTENCY_KEY''], or_deny_reasons = [''DUPLICATE_IDEMPOTENCY_KEY''], or_approval_reasons = [],
      or_policy_version = ''v1'', or_weighted_score = 20\<rparr>"
  by code_simp

lemma demo_reused:
  "\<exists>r w. run_pipeline demo_env demo_txn demo_identity True (demo_remembered ''other'') = (Inr r, w) \<and> rsp_decision r = BLOCK"
  unfolding demo_env_def demo_remembered_def
  by (simp add: runs demo_steps demo_refused [unfolded idem_conflict_def no_duplicate_def, simplified] idem_conflict_def no_duplicate_def del: str_nat.simps cong: run_congs)

section \<open>A request that waits for approval\<close>

definition demo_waiting :: world where
  "demo_waiting = demo_world\<lparr>db := demo_db\<lparr>txns := [(demo_row CREATED None)\<lparr>tr_pa_id := ''pa_first'', tr_decision := ''REQUIRE_APPROVAL''\<rparr>]\<rparr>\<rparr>"

section \<open>Small settings for single components\<close>

text \<open>A hash function with digests of the right length.\<close>

definition demo_hash_env :: env where
  "demo_hash_env = demo_base\<lparr>e_H := (\<lambda>s. take 64 (s @ GENESIS_HASH))\<rparr>"

lemma demo_hash_len: "sha_len (e_H demo_hash_env)"
  by (auto simp: sha_len_def demo_hash_env_def GENESIS_HASH_def min_def)

lemma genesis_not_short: "[c] \<noteq> GENESIS_HASH" "GENESIS_HASH \<noteq> [c]"
proof -
  have "length GENESIS_HASH \<noteq> length [c]" by (simp add: GENESIS_HASH_def)
  then show "[c] \<noteq> GENESIS_HASH" "GENESIS_HASH \<noteq> [c]" by metis+
qed

definition demo_forged :: audit_row where
  "demo_forged = (new_row demo_hash_env (event ''t'') ''evt_1'' 0 [])\<lparr>ae_prev_hash := ''f''\<rparr>"

text \<open>An agent with one request in the window and a limit of one.\<close>

definition demo_limited :: env where
  "demo_limited = demo_base\<lparr>e_cfg := demo_cfg\<lparr>cfg_rate_limit_enabled := True, cfg_rate_limit_agent := 1\<rparr>\<rparr>"

definition demo_busy :: world where
  "demo_busy = demo_world\<lparr>store := empty_store\<lparr>zsets := (\<lambda>_. [])(rl_agent_key ''a'' := [(''m1'', 990)])\<rparr>\<rparr>"

text \<open>A deployment that has signed one approval.\<close>

definition demo_approval :: claims where
  "demo_approval = approval_claims demo_base 1000 900 ''apr_u0'' ''ar_1'' ''u'' ''m'' \<lparr>coeff = 10, dexp = 0\<rparr> ''USD'' ''h''"

lemma demo_signature': "demo_sign key (approval_claims E n ttl j q u m am cu ca) = j"
  by (simp add: demo_sign_def claim_str_def claim_def approval_claims_def)

definition demo_approving :: env where
  "demo_approving = demo_base\<lparr>e_jwt_decode := (\<lambda>key req aud iss t tok. if tok = ''apr_u0'' \<and> jwt_accepts req aud iss t demo_approval
     then Inr demo_approval else Inl (JwtInvalid ''signature''))\<rparr>"

lemma demo_approving_simps: "approval_claims demo_approving 1000 900 ''apr_u0'' ''ar_1'' ''u'' ''m'' \<lparr>coeff = 10, dexp = 0\<rparr> ''USD'' ''h'' = demo_approval"
  "e_jwt_encode demo_approving = demo_sign" "e_uuid demo_approving 0 = ''u0''"
  "e_jwt_decode demo_approving key req aud iss t tok = (if tok = ''apr_u0'' \<and> jwt_accepts req aud iss t demo_approval
     then Inr demo_approval else Inl (JwtInvalid ''signature''))" "demo_sign key demo_approval = ''apr_u0''"
  by (simp_all add: demo_approval_def approval_claims_def demo_approving_def) (simp_all add: demo_base_def demo_sign_def claim_str_def claim_def demo_numbers del: str_nat.simps)

lemma demo_head: "head_hash [new_row demo_hash_env (event ''t'') ''evt_1'' 0 []] \<noteq> GENESIS_HASH"
proof -
  have d: "hd (canonical_dumps f (body_json r)) = CHR ''{''" "canonical_dumps f (body_json r) \<noteq> []" for f r
    by (simp_all add: canonical_dumps_def body_json_def Let_def)
  have "hd (head_hash [new_row demo_hash_env (event ''t'') ''evt_1'' 0 []]) = CHR ''{''"
    using d by (simp add: head_hash_end by_seq_def new_row_def Let_def compute_hash_def hashed_text_def demo_hash_env_def hd_append)
  moreover have "hd GENESIS_HASH = CHR ''0''" by (simp add: GENESIS_HASH_def)
  ultimately show ?thesis by auto
qed

section \<open>A watcher of one request\<close>

definition demo_event :: stage_event where
  "demo_event = \<lparr>ev_seq = 1, ev_request_id = ''req-1'', ev_pa_id = '''', ev_stage = IDENTITY, ev_status = STARTED, ev_latency_ms = None,
     ev_elapsed_ms = 0, ev_detail = []\<rparr>"

definition demo_watch :: "action list" where
  "demo_watch = [Subscribed, Connect 0 (Some ''req-1''), Resume 0, Resume 0, Message (Carries demo_event),
     Message (Carries (demo_event\<lparr>ev_request_id := ''req-2''\<rparr>)), Resume 0]"

lemma run_all: "relay_run C as h h' \<longleftrightarrow> fold (\<lambda>a r. Option.bind r (perform C a)) as (Some h) = Some h'"
proof
  show "relay_run C as h h' \<Longrightarrow> fold (\<lambda>a r. Option.bind r (perform C a)) as (Some h) = Some h'"
    by (induction rule: relay_run.induct) simp_all
  show "fold (\<lambda>a r. Option.bind r (perform C a)) as (Some h) = Some h' \<Longrightarrow> relay_run C as h h'"
  proof (induction as arbitrary: h' rule: rev_induct)
    case (snoc a as)
    then show ?case by (cases "fold (\<lambda>a r. Option.bind r (perform C a)) as (Some h)") (auto intro: relay_run.intros)
  qed (auto intro: relay_run.intros)
qed

lemmas watch_runs = run_all demo_watch_def pump_subscribed_def connect_def resume_def replay_def fan_out_def pump_message_def offer_def wants_def
  full_def count_lost_def trim_recent_def init_relay_def default_relay_config_def demo_event_def set_client_def set_subscriber_def at_rest_def Let_def

lemma demo_watched:
  "\<exists>h c. relay_run default_relay_config demo_watch init_relay h \<and> rl_clients h 0 = Some c \<and> lives (cl_sent c) = [demo_event] \<and> cl_lost c = 0"
  by (simp add: watch_runs) (simp add: lives_def live_part_def List.map_filter_def)

lemma demo_rests:
  "\<exists>h s c. relay_run default_relay_config (demo_watch @ [Resume 0]) init_relay h \<and> at_rest 0 h s c"
  by (simp add: watch_runs)

section \<open>The administrator's desk\<close>

definition demo_key :: "string option" where "demo_key = Some ''admin-key''"

lemma demo_served: "admin_body_ok req \<Longrightarrow> serve_admin demo_env demo_key None req w = admin_route demo_env ''unknown'' req w"
proof -
  assume ok: "admin_body_ok req"
  have "ascii ''admin-key''" by code_simp
  then have "require_admin demo_env demo_key None w = (Inr ''unknown'', w)"
    by (simp add: require_admin_def compare_digest_def demo_key_def nonempty_def demo_env_def demo_at_def demo_base_def)
  with ok show ?thesis by (simp add: serve_admin_def bindE_def)
qed

lemma demo_private: "e_delegation_private (demo_at f g) = Some ''del-private''" "e_link_code (demo_at f g) = (\<lambda>n. str_nat n)"
  by (simp_all add: demo_at_def demo_base_def)

lemmas desk_defs = mapE_def revoke_delegation_def store_sadd_def store_srem_def record_admin_action_def set_revoked_def
  issue_token_def sign_delegation_token_def issue_code_def replace_code_def draw_code_def redeem_code_def bind_account_def

lemmas desk_runs = desk_defs [THEN fun_cong] data_runs control_runs demo_private

lemma demo_revoked:
  "\<exists>r w. serve_admin demo_env demo_key None (RevokeDelegation ''d'') demo_world = (Inr r, w)"
  by (simp add: demo_served) (simp add: desk_runs demo_env_def demo_db_def)

definition demo_order :: token_in where
  "demo_order = \<lparr>to_agent_id = ''a'', to_user_id = ''u'', to_delegation_id = ''d'', to_scopes = None, to_ttl_seconds = 3600\<rparr>"

lemma demo_order_simps [simp]: "to_agent_id demo_order = ''a''" "to_user_id demo_order = ''u''" "to_delegation_id demo_order = ''d''"
  "to_scopes demo_order = None" "to_ttl_seconds demo_order = 3600"
  by (simp_all add: demo_order_def)

lemma demo_minted:
  "\<exists>w. serve_admin demo_env demo_key None (IssueToken demo_order) demo_world = (Inr (Token ''jti_1000_d''), w)"
proof -
  have "demo_sign ''del-private'' (delegation_claims demo_env 1000 ''a'' ''u'' ''d'' None 3600) = ''jti_1000_d''" by code_simp
  then show ?thesis by (simp add: demo_served) (simp add: desk_runs demo_env_def)
qed

lemma demo_jwt: "jwt_returns demo_env ''del-private'' ''del-public'' (delegation_claims demo_env 1000 ''a'' ''u'' ''d'' None 3600)"
proof -
  have "demo_sign ''del-private'' (delegation_claims demo_env 1000 ''a'' ''u'' ''d'' None 3600) = ''jti_1000_d''"
    "delegation_claims demo_env 1000 ''a'' ''u'' ''d'' None 3600 = demo_delegation"
    "List.find (\<lambda>c. demo_sign ''del-public'' c = ''jti_1000_d'') demo_signed = Some demo_delegation"
    by code_simp+
  then show ?thesis by (simp add: jwt_returns_def demo_env_def demo_decode_def)
qed

text \<open>A world where a code was issued to \<open>u\<close>, and the run that redeems it.\<close>

definition demo_issued :: world where
  "demo_issued = demo_world\<lparr>db := demo_db\<lparr>tg_codes := [\<lparr>tc_code = ''LINK-0'', tc_user_id = ''u'', tc_created_at = 900, tc_used_at = None\<rparr>]\<rparr>\<rparr>"

lemma demo_redeemed:
  "\<exists>w. redeem_code demo_env '' link-0'' ''12345 '' demo_issued = (Inr (''u'', ''12*45''), w)"
proof -
  have "upper (strip '' link-0'') = ''LINK-0''" "strip ''12345 '' = ''12345''" "mask_id ''12345'' = ''12*45''" by code_simp+
  then show ?thesis
    by (simp add: desk_runs demo_issued_def demo_env_def find_code_def CODE_TTL_def)
qed

end
