(* ===== verification/Shopper.thy ===== *)
theory Shopper
  imports Storefront Control Pipeline
begin

text \<open>
  The hands of the simulated shopping agent: \<open>agent_simulator/transcript.py\<close>, \<open>sentinel.py\<close> and the
  tools of \<open>storefront.py\<close>. The simulator talks HTTP to the services, here to their models over one
  \<open>world\<close>; every request may be lost before or after it was served. What the crew of language models
  does is a parameter: a list of tool calls with arbitrary arguments, and how it ends.
\<close>

section \<open>State and parameters\<close>

datatype step_kind = GRAPH_TRANSITION | AGENT_STEP | TOOL_CALL | TOOL_RESULT | GATEWAY_DECISION | REVIEW | ERROR_STEP | NOTE

text \<open>The body of a gateway answer, with the status: \<open>gr_decision\<close> is \<open>None\<close> when there is no such key.\<close>

record gateway_reply =
  gr_http_status :: nat
  gr_decision :: "string option"
  gr_reason_codes :: "string list"
  gr_response :: "decision_response option"
  gr_idempotency_key :: string
  gr_correlation_id :: "string option"

datatype step_detail = Fields "(string \<times> json) list" | Body gateway_reply

record step =
  tp_index :: nat
  tp_at :: real
  tp_kind :: step_kind
  tp_actor :: string
  tp_name :: string
  tp_summary :: string
  tp_detail :: step_detail
  tp_latency_ms :: "int option"
  tp_simulated :: bool

datatype sim_exn = SimulatorError string string | HttpxError string string | PyError string string

record line_args =
  la_sku :: string
  la_name :: string
  la_quantity :: int
  la_unit_price :: string

record payment_args =
  pg_merchant_id :: string
  pg_amount :: string
  pg_currency :: string
  pg_items :: "line_args list"
  pg_purpose :: string
  pg_merchant_content :: string
  pg_source_type :: source_type
  pg_source_url :: string
  pg_merchant_verified :: bool
  pg_approval_token :: "string option"

datatype tool_call = SearchCall string | FetchCall string | PayCall payment_args | Thought string string

datatype crew_end = CrewText string | CrewFails sim_exn

record sim_settings =
  ss_user_id :: string
  ss_agent_id :: string
  ss_delegation_id :: string
  ss_admin_api_key :: string
  ss_groq_api_key :: string
  ss_llm_mode :: string

record sim_env =
  se_services :: env
  se_settings :: sim_settings
  se_pages :: "string \<rightharpoonup> string"
  se_net :: "nat \<Rightarrow> net_fault"
  se_uuid :: "nat \<Rightarrow> string"
  se_crew :: "nat \<Rightarrow> tool_call list \<times> crew_end"

text \<open>\<open>ShopperState\<close> of \<open>graph.py\<close>, a dict whose keys appear as the nodes return them.\<close>

record shopper_state =
  sk_instruction :: string
  sk_budget :: string
  sk_adversarial :: bool
  sk_requested_quantity :: nat
  sk_chosen_sku :: "string option"
  sk_page_url :: "string option"
  sk_page_content :: "string option"
  sk_merchant_id :: "string option"
  sk_merchant_verified :: "bool option"
  sk_source_type :: "source_type option"
  sk_cart :: "line_args list option"
  sk_total :: "string option"
  sk_currency :: "string option"
  sk_review_verdict :: "string option"
  sk_decision :: "string option"
  sk_reason_codes :: "string list option"
  sk_gateway_response :: "gateway_reply option"
  sk_approval_request_id :: "string option"
  sk_approval_token :: "string option"
  sk_status :: string

text \<open>
  \<open>Run\<close> of \<open>service.py\<close>: what belongs to one run, with its client's cached token and the state its
  graph's checkpointer holds.
\<close>

record run =
  rn_run_id :: string
  rn_scenario :: string
  rn_steps :: "step list"
  rn_token :: "string option"
  rn_adversarial :: bool
  rn_correlation_id :: string
  rn_thread_id :: string
  rn_checkpoint :: shopper_state
  rn_state :: shopper_state
  rn_status :: string
  rn_calls_before :: "nat option"
  rn_calls_after :: "nat option"

text \<open>
  The process: the transcript and the client's token of the run it works on, the registry of runs in
  the order of the dict, the run counter, and counters of what leaves the process.
\<close>

record sim =
  sm_world :: world
  sm_steps :: "step list"
  sm_token :: "string option"
  sm_runs :: "(string \<times> run) list"
  sm_run_counter :: nat
  sm_requests :: nat
  sm_uuids :: nat
  sm_crews :: nat

type_synonym 'a sact = "(sim, sim_exn, 'a) prog"

definition offline :: "sim_env \<Rightarrow> bool" where
  "offline S \<longleftrightarrow> lower (strip (ss_llm_mode (se_settings S))) = ''offline''"

section \<open>The transcript\<close>

text \<open>A step of an offline run is marked simulated unless the caller says otherwise.\<close>

definition add_step :: "sim_env \<Rightarrow> step_kind \<Rightarrow> string \<Rightarrow> string \<Rightarrow> string \<Rightarrow> step_detail \<Rightarrow> int option \<Rightarrow> bool option \<Rightarrow> unit sact" where
  "add_step S kind actor name summary detail latency simulated = modifyE (\<lambda>s. s\<lparr>sm_steps := sm_steps s @
     [\<lparr>tp_index = length (sm_steps s), tp_at = now (sm_world s), tp_kind = kind, tp_actor = actor, tp_name = name,
       tp_summary = summary, tp_detail = detail, tp_latency_ms = latency,
       tp_simulated = (case simulated of None \<Rightarrow> offline S | Some b \<Rightarrow> b)\<rparr>]\<rparr>)"

definition tool_calls :: "string option \<Rightarrow> step list \<Rightarrow> step list" where
  "tool_calls name steps = filter (\<lambda>s. tp_kind s = TOOL_CALL \<and> (name = None \<or> name = Some (tp_name s))) steps"

definition fresh_uuid :: "sim_env \<Rightarrow> string sact" where
  "fresh_uuid S = (\<lambda>s. (Inr (se_uuid S (sm_uuids s)), s\<lparr>sm_uuids := Suc (sm_uuids s)\<rparr>))"

section \<open>HTTP\<close>

text \<open>A request to a service: lost on the way, served and its answer lost, or answered.\<close>

definition request :: "sim_env \<Rightarrow> 'a act \<Rightarrow> (exn + 'a) sact" where
  "request S serve = (\<lambda>s. let s1 = s\<lparr>sm_requests := Suc (sm_requests s)\<rparr> in case se_net S (sm_requests s) of
       LostRequest \<Rightarrow> (Inl (HttpxError ''ConnectError'' ''''), s1)
     | LostReply \<Rightarrow> (Inl (HttpxError ''ReadTimeout'' ''''), s1\<lparr>sm_world := snd (serve (sm_world s))\<rparr>)
     | Delivered d \<Rightarrow> (case serve (sm_world s) of (r, w) \<Rightarrow> (Inr r, s1\<lparr>sm_world := w\<lparr>now := now w + max 0 d\<rparr>\<rparr>)))"

definition raise_for_status :: "(exn + 'a) sact \<Rightarrow> 'a sact" where
  "raise_for_status m = bindE m (\<lambda>r. case r of Inr x \<Rightarrow> ret x | Inl e \<Rightarrow> raise (HttpxError ''HTTPStatusError'' ''''))"

definition admin_call :: "sim_env \<Rightarrow> admin_request \<Rightarrow> admin_reply sact" where
  "admin_call S req = raise_for_status (request S
     (serve_admin (se_services S) (Some (ss_admin_api_key (se_settings S))) (Some ''agent-simulator'') req))"

section \<open>The client\<close>

definition seed_agent :: "sim_settings \<Rightarrow> agent_in" where
  "seed_agent c = \<lparr>ai_agent_id = ss_agent_id c, ai_owner_user_id = ss_user_id c, ai_display_name = ''CrewAI Office Supplies Shopper'',
     ai_allowed_scopes = [''payments:authorize''], ai_allowed_categories = [''retail'', ''grocery''], ai_active = True\<rparr>"

definition seed_merchants :: "merchant_in list" where
  "seed_merchants =
     [\<lparr>mi_merchant_id = ''merch_beanery'', mi_display_name = ''The Beanery'', mi_category = ''grocery'', mi_verified = True, mi_risk_score = 8 / 100\<rparr>,
      \<lparr>mi_merchant_id = ''merch_paperworks'', mi_display_name = ''Paperworks Supply'', mi_category = ''retail'', mi_verified = True, mi_risk_score = 12 / 100\<rparr>,
      \<lparr>mi_merchant_id = ''merch_giftcards_xyz'', mi_display_name = ''GiftCards XYZ'', mi_category = ''retail'', mi_verified = False, mi_risk_score = 85 / 100\<rparr>]"

definition seed_policy :: "sim_settings \<Rightarrow> policy_in" where
  "seed_policy c = \<lparr>pl_delegation_id = ss_delegation_id c, pl_user_id = ss_user_id c, pl_agent_id = ss_agent_id c,
     pl_policy_version = ''v1.4.2'', pl_per_transaction_limit = \<lparr>coeff = 1500000, dexp = -2\<rparr>, pl_daily_limit = \<lparr>coeff = 4000000, dexp = -2\<rparr>,
     pl_currency = ''INR'', pl_allowed_merchants = [], pl_blocked_merchants = [], pl_require_verified = True,
     pl_approval_threshold = \<lparr>coeff = 800000, dexp = -2\<rparr>, pl_max_per_hour = 20\<rparr>"

definition seed :: "sim_env \<Rightarrow> unit sact" where
  "seed S = (let c = se_settings S in
     thenE (admin_call S (UpsertAgent (seed_agent c)))
     (thenE (forE seed_merchants (\<lambda>m. thenE (admin_call S (UpsertMerchant m)) (ret ())))
     (thenE (admin_call S (UpsertPolicy (seed_policy c))) (ret ()))))"

definition token_request :: "sim_settings \<Rightarrow> token_in" where
  "token_request c = \<lparr>to_agent_id = ss_agent_id c, to_user_id = ss_user_id c, to_delegation_id = ss_delegation_id c,
     to_scopes = Some [''payments:authorize''], to_ttl_seconds = 3600\<rparr>"

definition client_token :: "sim_env \<Rightarrow> bool \<Rightarrow> string sact" where
  "client_token S refresh = bindE (asks sm_token) (\<lambda>cached.
     if nonempty cached \<and> \<not> refresh then ret (the cached)
     else bindE (admin_call S (IssueToken (token_request (se_settings S)))) (\<lambda>r. case r of
         Token t \<Rightarrow> thenE (modifyE (\<lambda>s. s\<lparr>sm_token := Some t\<rparr>)) (ret t)
       | _ \<Rightarrow> raise (PyError ''KeyError'' ''token'')))"

text \<open>\<open>Decimal(text)\<close> of the amounts, written out again; \<open>None\<close> is \<open>InvalidOperation\<close>.\<close>

definition item_of :: "line_args \<Rightarrow> cart_item option" where
  "item_of l = map_option (\<lambda>d. \<lparr>sku = la_sku l, item_name = la_name l, quantity = la_quantity l, unit_price = d\<rparr>) (parse_decimal (la_unit_price l))"

definition intent_of :: "sim_settings \<Rightarrow> string \<Rightarrow> payment_args \<Rightarrow> payment_intent option" where
  "intent_of c key a = (case (parse_decimal (pg_amount a), those (map item_of (pg_items a))) of
     (Some amount, Some items) \<Rightarrow> Some \<lparr>pi_idempotency_key = key, pi_agent_id = ss_agent_id c, pi_user_id = ss_user_id c,
        pi_delegation_id = ss_delegation_id c, pi_merchant_id = pg_merchant_id a, pi_merchant_verified = pg_merchant_verified a,
        pi_amount = amount, pi_currency = upper (pg_currency a), pi_items = items, pi_purpose = pg_purpose a,
        pi_merchant_content = \<lparr>mc_source_type = pg_source_type a, mc_source_url = pg_source_url a, mc_text = pg_merchant_content a\<rparr>,
        pi_tool_arguments = [(''framework'', JStr ''crewai''), (''tool'', JStr ''propose_payment_intent'')],
        pi_approval_token = (if nonempty (pg_approval_token a) then pg_approval_token a else None)\<rparr>
   | _ \<Rightarrow> None)"

text \<open>
  \<open>POST /v1/payment-intents\<close>: a body that does not validate is answered 422 without a decision; an
  exception that escapes the route is answered by the gateway's handler (\<open>gateway/main.py\<close>).
\<close>

definition no_body :: "nat \<Rightarrow> string \<Rightarrow> string option \<Rightarrow> gateway_reply" where
  "no_body s key corr = \<lparr>gr_http_status = s, gr_decision = None, gr_reason_codes = [], gr_response = None,
     gr_idempotency_key = key, gr_correlation_id = corr\<rparr>"

definition post_intent :: "env \<Rightarrow> payment_intent \<Rightarrow> string option \<Rightarrow> string option \<Rightarrow> gateway_reply act" where
  "post_intent E p h corr = (let key = pi_idempotency_key p in
     if \<not> intent_ok (e_frepr E) p then ret (no_body 422 key corr)
     else catchE (bindE (create_payment_intent E p h corr True) (\<lambda>r.
         ret \<lparr>gr_http_status = 200, gr_decision = Some (decision_str (rsp_decision r)), gr_reason_codes = rsp_reason_codes r,
           gr_response = Some r, gr_idempotency_key = key, gr_correlation_id = corr\<rparr>))
       (\<lambda>e. ret (case e of HttpError s _ \<Rightarrow> no_body s key corr
          | _ \<Rightarrow> (no_body 500 key corr)\<lparr>gr_decision := Some ''BLOCK'', gr_reason_codes := [''INTERNAL_ERROR_FAIL_CLOSED'']\<rparr>)))"

definition client_submit :: "sim_env \<Rightarrow> payment_args \<Rightarrow> string option \<Rightarrow> string option \<Rightarrow> gateway_reply sact" where
  "client_submit S a key corr =
     bindE (if nonempty key then ret (the key) else bindE (fresh_uuid S) (\<lambda>u. ret (''crew-'' @ take 16 u))) (\<lambda>k.
       case intent_of (se_settings S) k a of
         None \<Rightarrow> raise (PyError ''InvalidOperation'' '''')
       | Some p \<Rightarrow> bindE (client_token S False) (\<lambda>t.
           bindE (request S (post_intent (se_services S) p (Some (''Bearer '' @ t))
              (if nonempty corr then Some (take 128 (the corr)) else None))) (\<lambda>r. case r of
                Inr b \<Rightarrow> ret (b\<lparr>gr_correlation_id := corr\<rparr>)
              | Inl _ \<Rightarrow> raise (PyError ''JSONDecodeError'' ''''))))"

definition client_grant :: "sim_env \<Rightarrow> string \<Rightarrow> (string \<times> json) sact" where
  "client_grant S i = raise_for_status (request S (Pipeline.grant_approval (se_services S) i))"

definition provider_call_count :: "sim_env \<Rightarrow> nat sact" where
  "provider_call_count S = raise_for_status (request S (asks (\<lambda>w. pv_call_count (provider w))))"

section \<open>The tools\<close>

fun source_str :: "source_type \<Rightarrow> string" where
  "source_str OFFICIAL_API = ''official_api''"
| "source_str VERIFIED_CATALOG = ''verified_catalog''"
| "source_str SCRAPED_PAGE = ''scraped_page''"
| "source_str EMAIL = ''email''"
| "source_str USER_UPLOAD = ''user_upload''"
| "source_str SOURCE_UNKNOWN = ''unknown''"

definition source_json :: "source_type \<Rightarrow> json" where "source_json s = JStr (source_str s)"

definition product_json :: "product \<Rightarrow> json" where
  "product_json p = JObj [(''sku'', JStr (pd_sku p)), (''name'', JStr (pd_name p)), (''unit_price'', JStr (pd_unit_price p)),
     (''merchant_id'', JStr (pd_merchant_id p)), (''merchant_verified'', JBool (pd_merchant_verified p)),
     (''category'', JStr (pd_category p)), (''page_url'', JStr (pd_page_url p)), (''source_type'', source_json (pd_source_type p))]"

text \<open>The texts the two storefront tools return go to the language model only.\<close>

definition product_search :: "sim_env \<Rightarrow> bool \<Rightarrow> string \<Rightarrow> unit sact" where
  "product_search S adversarial query = (let results = search_catalog query adversarial in
     add_step S TOOL_CALL ''shopper'' ''product_search'' (''searched for '' @ repr_str query @ '', '' @ str_nat (length results) @ '' results'')
       (Fields [(''query'', JStr query), (''results'', JList (map product_json results))]) None None)"

definition fetch_merchant_page :: "sim_env \<Rightarrow> string \<Rightarrow> string sact" where
  "fetch_merchant_page S url = thenE
     (add_step S TOOL_CALL ''shopper'' ''fetch_merchant_page'' (''fetching '' @ url) (Fields [(''url'', JStr url)]) None None)
     (case se_pages S url of
        None \<Rightarrow> thenE (add_step S TOOL_RESULT ''storefront'' ''fetch_merchant_page'' (''404 for '' @ url) (Fields [(''url'', JStr url)]) None None)
          (ret (''404: no page at '' @ url))
      | Some page \<Rightarrow> thenE (add_step S TOOL_RESULT ''storefront'' ''fetch_merchant_page''
            (''fetched '' @ str_nat (length page) @ '' chars from '' @ url)
            (Fields [(''url'', JStr url), (''content'', JStr page), (''content_sha256'', JStr (e_H (se_services S) page)),
               (''is_known_injection_payload'', JBool (Some (e_H (se_services S) page) =
                   map_option (e_H (se_services S)) (se_pages S (pd_page_url colombian))))]) None None)
          (ret page))"

definition line_ok :: "line_args \<Rightarrow> bool" where
  "line_ok l \<longleftrightarrow> len_between 1 128 (la_sku l) \<and> len_between 1 512 (la_name l) \<and> 0 < la_quantity l \<and> la_quantity l \<le> 1000"

definition payment_args_ok :: "payment_args \<Rightarrow> bool" where
  "payment_args_ok a \<longleftrightarrow> length (pg_currency a) = 3 \<and> pg_items a \<noteq> [] \<and> list_all line_ok (pg_items a) \<and> length (pg_purpose a) \<le> 2000"

definition line_json :: "line_args \<Rightarrow> json" where
  "line_json l = JObj [(''sku'', JStr (la_sku l)), (''name'', JStr (la_name l)), (''quantity'', JInt (la_quantity l)), (''unit_price'', JStr (la_unit_price l))]"

text \<open>The two characters outside ASCII of the texts; they reach the language model and the transcript only.\<close>

definition em_dash :: string where "em_dash = ''--''"
definition middle_dot :: string where "middle_dot = ''|''"

definition tool_answer :: "gateway_reply \<Rightarrow> string" where
  "tool_answer b = (let reasons = join '', '' (gr_reason_codes b) in
     if gr_decision b = Some ''ALLOW'' then
       ''ALLOW. The payment was authorized and executed. state='' @ (case gr_response b of None \<Rightarrow> ''None'' | Some r \<Rightarrow> state_str (rsp_state r)) @
       '' reference='' @ (case Option.bind (gr_response b) rsp_provider_reference of None \<Rightarrow> ''None'' | Some x \<Rightarrow> x) @
       ''. Your work is done; report the outcome.''
     else if gr_decision b = Some ''REQUIRE_APPROVAL'' then
       ''REQUIRE_APPROVAL. A human must approve this before it can proceed. Reasons: '' @ reasons @
       ''. Do not retry; stop and report that approval is pending.''
     else ''BLOCK. The payment was refused by policy and no money moved. Reasons: '' @ reasons @
       ''. This is final '' @ em_dash @ '' do not modify the request and do not try again. Report these reason codes and stop.'')"

definition propose_payment_intent :: "sim_env \<Rightarrow> string option \<Rightarrow> string option \<Rightarrow> payment_args \<Rightarrow> string sact" where
  "propose_payment_intent S key corr a = (if \<not> payment_args_ok a then raise (PyError ''ValidationError'' '''') else
     thenE (add_step S TOOL_CALL ''shopper'' ''propose_payment_intent''
        (''submitting '' @ pg_amount a @ '' '' @ pg_currency a @ '' to '' @ pg_merchant_id a)
        (Fields [(''merchant_id'', JStr (pg_merchant_id a)), (''amount'', JStr (pg_amount a)), (''currency'', JStr (pg_currency a)),
           (''items'', JList (map line_json (pg_items a))), (''purpose'', JStr (pg_purpose a)),
           (''merchant_content_chars'', JInt (int (length (pg_merchant_content a)))),
           (''merchant_source_type'', source_json (pg_source_type a)), (''correlation_id'', jopt JStr corr)]) None (Some False))
     (bindE (asks (\<lambda>s. now (sm_world s))) (\<lambda>started.
      bindE (catchE (client_submit S a key corr) (\<lambda>e. case e of
          HttpxError _ m \<Rightarrow> thenE (add_step S ERROR_STEP ''sentinel'' ''gateway_unreachable'' (''gateway did not answer: '' @ m) (Fields []) None (Some False))
             (raise (SimulatorError ''GATEWAY_UNREACHABLE'' (''Sentinel gateway did not answer: '' @ m)))
        | _ \<Rightarrow> raise e)) (\<lambda>b.
      bindE (asks (\<lambda>s. now (sm_world s))) (\<lambda>ended.
      thenE (add_step S GATEWAY_DECISION ''sentinel'' (case gr_decision b of None \<Rightarrow> ''UNKNOWN'' | Some d \<Rightarrow> d)
          ((case gr_decision b of None \<Rightarrow> ''None'' | Some d \<Rightarrow> d) @ '' '' @ middle_dot @ '' '' @
           (if gr_reason_codes b = [] then ''no reason codes'' else join '', '' (gr_reason_codes b)))
          (Body b) (Some \<lfloor>(ended - started) * 1000\<rfloor>) (Some False))
        (ret (tool_answer b)))))))"

end
