(* ===== verification/Shopping.thy ===== *)
theory Shopping
  imports Shopper "HOL-Library.AList"
begin

text \<open>
  The run of the simulated agent: the crew (\<open>crew.py\<close>, \<open>llm.py\<close>), the nodes and edges of the graph
  (\<open>graph.py\<close>), the registry of runs (\<open>service.py\<close>) and the routes in front of it (\<open>main.py\<close>).
  LangGraph is what \<open>graph.py\<close> uses of it: nodes run one after the other along the edges, each on the
  state the one before returned; the graph stops before a node it is compiled to interrupt before, and
  resumes there. Calls of the service are taken one at a time.
\<close>

section \<open>The crew\<close>

record deps =
  dp_adversarial :: bool
  dp_idempotency_key :: "string option"
  dp_correlation_id :: "string option"

fun exn_type :: "sim_exn \<Rightarrow> string" where
  "exn_type (SimulatorError c m) = ''SimulatorError''"
| "exn_type (HttpxError t m) = t"
| "exn_type (PyError t m) = t"

fun exn_text :: "sim_exn \<Rightarrow> string" where
  "exn_text (SimulatorError c m) = m"
| "exn_text (HttpxError t m) = m"
| "exn_text (PyError t m) = m"

definition wrap_llm_errors :: "sim_exn \<Rightarrow> sim_exn" where
  "wrap_llm_errors e = SimulatorError ''AGENT_LLM_FAILED'' (''The agent's LLM call failed ('' @ exn_type e @ ''): '' @ exn_text e @
     ''. No transcript is returned for a run that did not happen.'')"

definition build_crew_llm :: "sim_env \<Rightarrow> unit sact" where
  "build_crew_llm S = (if offline S then raise (SimulatorError ''LLM_NOT_AVAILABLE_OFFLINE''
        ''offline mode does not build an LLM; the deterministic path is used instead'')
     else if ss_groq_api_key (se_settings S) = '''' then raise (SimulatorError ''AGENT_LLM_KEY_MISSING''
        (''No AGENT_GROQ_API_KEY (or GROQ_API_KEY) is set, so the crew cannot run. This is a hard error on purpose: '' @
        ''the simulator will not return an invented transcript. Set a key, or run with AGENT_LLM_MODE=offline for the '' @
        ''clearly-labelled deterministic path.''))
     else ret ())"

text \<open>\<open>text[:280].replace(newline, space).strip()\<close>.\<close>

definition brief :: "string \<Rightarrow> string" where
  "brief t = strip (map (\<lambda>c. if c = CHR 10 then CHR '' '' else c) (take 280 t))"

text \<open>
  One thing the crew does. The shopper holds the two storefront tools and the payment tool, the
  reviewer none; what an exception of a tool makes the crew do next is part of its script.
\<close>

fun crew_call :: "sim_env \<Rightarrow> deps \<Rightarrow> tool_call \<Rightarrow> unit sact" where
  "crew_call S D (SearchCall q) = product_search S (dp_adversarial D) q"
| "crew_call S D (FetchCall url) = thenE (fetch_merchant_page S url) (ret ())"
| "crew_call S D (PayCall a) = thenE (propose_payment_intent S (dp_idempotency_key D) (dp_correlation_id D) a) (ret ())"
| "crew_call S D (Thought name t) = add_step S AGENT_STEP ''crew'' name (if brief t = '''' then name else brief t) (Fields []) None None"

definition finish_crew :: "sim_env \<Rightarrow> crew_end \<Rightarrow> string sact" where
  "finish_crew S e = (case e of CrewFails x \<Rightarrow> raise x
     | CrewText t \<Rightarrow> thenE (add_step S NOTE ''crew'' ''crew_output'' (brief t) (Fields [(''output'', JStr t)]) None None) (ret t))"

definition next_script :: "sim_env \<Rightarrow> (tool_call list \<times> crew_end) sact" where
  "next_script S = (\<lambda>s. (Inr (se_crew S (sm_crews s)), s\<lparr>sm_crews := Suc (sm_crews s)\<rparr>))"

definition run_crew :: "sim_env \<Rightarrow> deps \<Rightarrow> string sact" where
  "run_crew S D = bindE (next_script S) (\<lambda>(calls, ending).
     thenE (forE calls (\<lambda>c. thenE (tryE (crew_call S D c)) (ret ()))) (finish_crew S ending))"

text \<open>Building the crew is inside the \<open>try\<close> of the nodes; a \<open>SimulatorError\<close> passes, all else is wrapped.\<close>

definition crew_step :: "sim_env \<Rightarrow> deps \<Rightarrow> string sact" where
  "crew_step S D = catchE (thenE (build_crew_llm S) (run_crew S D))
     (\<lambda>e. raise (case e of SimulatorError _ _ \<Rightarrow> e | _ \<Rightarrow> wrap_llm_errors e))"

section \<open>The nodes\<close>

datatype node = Search | Build_cart | Propose_payment | Handle_gateway_response | Blocked | Await_approval
  | Submit_approved_payment | Completed

definition graph_note :: "sim_env \<Rightarrow> string \<Rightarrow> string \<Rightarrow> (string \<times> json) list \<Rightarrow> unit sact" where
  "graph_note S node summary detail = add_step S GRAPH_TRANSITION ''langgraph'' node summary (Fields detail) None None"

text \<open>\<open>state[k]\<close>.\<close>

definition need :: "string \<Rightarrow> 'a option \<Rightarrow> 'a sact" where
  "need k x = (case x of None \<Rightarrow> raise (PyError ''KeyError'' k) | Some y \<Rightarrow> ret y)"

definition detail_get :: "string \<Rightarrow> step_detail \<Rightarrow> json option" where
  "detail_get k d = (case d of Fields fs \<Rightarrow> map_of fs k | Body _ \<Rightarrow> None)"

definition already_fetched :: "product \<Rightarrow> step list \<Rightarrow> bool" where
  "already_fetched p steps \<longleftrightarrow> list_ex (\<lambda>s. tp_name s = ''fetch_merchant_page'' \<and>
     detail_get ''url'' (tp_detail s) = Some (JStr (pd_page_url p))) steps"

definition page_of :: "sim_env \<Rightarrow> string \<Rightarrow> string" where
  "page_of S url = (case se_pages S url of None \<Rightarrow> '''' | Some t \<Rightarrow> t)"

definition search_node :: "sim_env \<Rightarrow> deps \<Rightarrow> shopper_state \<Rightarrow> shopper_state sact" where
  "search_node S D st = thenE (graph_note S ''search'' ''researching candidates'' [])
     (thenE (if offline S then product_search S (dp_adversarial D) (sk_instruction st) else thenE (crew_step S D) (ret ()))
     (case search_catalog (sk_instruction st) (dp_adversarial D) of
        [] \<Rightarrow> raise (PyError ''IndexError'' ''list index out of range'')
      | product # _ \<Rightarrow> bindE (asks sm_steps) (\<lambda>steps.
          thenE (if already_fetched product steps then ret () else thenE (fetch_merchant_page S (pd_page_url product)) (ret ()))
          (let page = page_of S (pd_page_url product) in
           thenE (graph_note S ''search'' (''selected '' @ pd_sku product @ '' from '' @ pd_merchant_id product)
               [(''sku'', JStr (pd_sku product)), (''page_url'', JStr (pd_page_url product)), (''page_chars'', JInt (int (length page)))])
             (ret (st\<lparr>sk_chosen_sku := Some (pd_sku product), sk_page_url := Some (pd_page_url product), sk_page_content := Some page,
                sk_merchant_id := Some (pd_merchant_id product), sk_merchant_verified := Some (pd_merchant_verified product),
                sk_source_type := Some (pd_source_type product)\<rparr>))))))"

text \<open>\<open>f"{x:.2f}"\<close> of a number that is not negative.\<close>

definition fixed_2 :: "real \<Rightarrow> string" where
  "fixed_2 x = (let n = nat (round_half_even (x * 100)) in str_nat (n div 100) @ ''.'' @ pad0 2 (str_nat (n mod 100)))"

definition price_of :: "product \<Rightarrow> real" where
  "price_of p = (case parse_decimal (pd_unit_price p) of None \<Rightarrow> 0 | Some d \<Rightarrow> dec_val d)"

definition cart_line :: "product \<Rightarrow> nat \<Rightarrow> line_args" where
  "cart_line p q = \<lparr>la_sku = pd_sku p, la_name = pd_name p, la_quantity = int q, la_unit_price = pd_unit_price p\<rparr>"

definition chosen_product :: "shopper_state \<Rightarrow> product sact" where
  "chosen_product st = bindE (need ''chosen_sku'' (sk_chosen_sku st)) (\<lambda>k. need k (catalog_get k))"

definition build_cart :: "sim_env \<Rightarrow> deps \<Rightarrow> shopper_state \<Rightarrow> shopper_state sact" where
  "build_cart S D st = thenE (graph_note S ''build_cart'' ''building and reviewing the cart'' [])
     (bindE (chosen_product st) (\<lambda>product.
        let quantity = (if sk_requested_quantity st = 0 then 1 else sk_requested_quantity st) in
        bindE (if offline S then ret ''APPROVE (deterministic offline reviewer: cart matches the request)'' else crew_step S D) (\<lambda>verdict.
        thenE (add_step S REVIEW ''reviewer'' ''cart_review'' (brief verdict) (Fields [(''verdict'', JStr verdict)]) None None)
          (ret (st\<lparr>sk_cart := Some [cart_line product quantity], sk_total := Some (fixed_2 (price_of product * real quantity)),
             sk_currency := Some ''INR'', sk_review_verdict := Some verdict\<rparr>)))))"

definition or_else :: "'a \<Rightarrow> 'a option \<Rightarrow> 'a" where "or_else d x = (case x of None \<Rightarrow> d | Some y \<Rightarrow> y)"

definition payment_of :: "shopper_state \<Rightarrow> string option \<Rightarrow> payment_args sact" where
  "payment_of st token = bindE (need ''merchant_id'' (sk_merchant_id st)) (\<lambda>m. bindE (need ''total'' (sk_total st)) (\<lambda>total.
     bindE (need ''cart'' (sk_cart st)) (\<lambda>cart. ret \<lparr>pg_merchant_id = m, pg_amount = total, pg_currency = or_else ''INR'' (sk_currency st),
       pg_items = cart, pg_purpose = take 2000 (sk_instruction st), pg_merchant_content = or_else '''' (sk_page_content st),
       pg_source_type = or_else SOURCE_UNKNOWN (sk_source_type st), pg_source_url = or_else '''' (sk_page_url st),
       pg_merchant_verified = or_else False (sk_merchant_verified st), pg_approval_token = token\<rparr>)))"

fun body_of :: "step_detail \<Rightarrow> gateway_reply option" where
  "body_of (Body b) = Some b"
| "body_of (Fields fs) = None"

text \<open>The last gateway decision of the transcript.\<close>

definition last_decision :: "step list \<Rightarrow> gateway_reply option" where
  "last_decision steps = Option.bind (List.find (\<lambda>s. tp_kind s = GATEWAY_DECISION) (rev steps)) (\<lambda>s. body_of (tp_detail s))"

definition record_decision :: "gateway_reply option \<Rightarrow> shopper_state \<Rightarrow> shopper_state" where
  "record_decision b st = st\<lparr>sk_decision := Some (or_else ''ERROR'' (Option.bind b gr_decision)),
     sk_reason_codes := Some (case b of None \<Rightarrow> [] | Some r \<Rightarrow> gr_reason_codes r), sk_gateway_response := b\<rparr>"

definition propose_payment :: "sim_env \<Rightarrow> deps \<Rightarrow> shopper_state \<Rightarrow> shopper_state sact" where
  "propose_payment S D st = thenE (graph_note S ''propose_payment'' ''calling the only money-moving tool'' [])
     (bindE (payment_of st None) (\<lambda>a.
      thenE (propose_payment_intent S (dp_idempotency_key D) (dp_correlation_id D) a)
        (bindE (asks sm_steps) (\<lambda>steps. ret (record_decision (last_decision steps) st)))))"

definition codes_of :: "shopper_state \<Rightarrow> json" where
  "codes_of st = JList (map JStr (or_else [] (sk_reason_codes st)))"

definition handle_gateway_response :: "sim_env \<Rightarrow> shopper_state \<Rightarrow> shopper_state sact" where
  "handle_gateway_response S st = thenE (graph_note S ''handle_gateway_response'' (''gateway said '' @ or_else ''ERROR'' (sk_decision st))
     [(''reason_codes'', codes_of st)]) (ret st)"

definition blocked :: "sim_env \<Rightarrow> shopper_state \<Rightarrow> shopper_state sact" where
  "blocked S st = thenE (graph_note S ''blocked'' ''terminating; a BLOCK is final'' [(''reason_codes'', codes_of st)])
     (thenE (add_step S NOTE ''langgraph'' ''no_retry'' (''Run terminated. The graph has no edge from blocked back to payment, so there is '' @
          ''no path that could resubmit a modified request to get a different answer.'') (Fields [(''reason_codes'', codes_of st)]) None None)
        (ret (st\<lparr>sk_status := ''blocked''\<rparr>)))"

definition approval_id_of :: "string \<Rightarrow> string" where
  "approval_id_of pa = (if prefix ''pa_'' pa then ''ar_'' @ drop 3 pa else '''')"

definition await_approval :: "sim_env \<Rightarrow> shopper_state \<Rightarrow> shopper_state sact" where
  "await_approval S st = (let pa = (case Option.bind (sk_gateway_response st) gr_response of None \<Rightarrow> '''' | Some r \<Rightarrow> rsp_payment_authorization_id r);
       a = approval_id_of pa in
     thenE (graph_note S ''await_approval'' ''paused for a human; not polling, not looping'' [(''approval_request_id'', JStr a)])
       (ret (st\<lparr>sk_status := ''awaiting_approval'', sk_approval_request_id := Some a\<rparr>)))"

definition submit_approved_payment :: "sim_env \<Rightarrow> deps \<Rightarrow> shopper_state \<Rightarrow> shopper_state sact" where
  "submit_approved_payment S D st = thenE (graph_note S ''submit_approved_payment'' ''resubmitting with the human's approval token'' [])
     (thenE (chosen_product st)
     (bindE (payment_of st (if nonempty (sk_approval_token st) then sk_approval_token st else None)) (\<lambda>a.
      bindE (fresh_uuid S) (\<lambda>u.
      thenE (propose_payment_intent S (Some (''crew-approved-'' @ take 12 u)) (dp_correlation_id D) a)
        (bindE (asks sm_steps) (\<lambda>steps. let b = last_decision steps in
          ret ((record_decision b st)\<lparr>sk_status := (if Option.bind b gr_decision = Some ''ALLOW'' then ''completed'' else ''blocked'')\<rparr>)))))))"

definition completed :: "sim_env \<Rightarrow> shopper_state \<Rightarrow> shopper_state sact" where
  "completed S st = thenE (graph_note S ''completed'' ''payment authorized and settled'' []) (ret (st\<lparr>sk_status := ''completed''\<rparr>))"

section \<open>The graph\<close>

fun run_node :: "sim_env \<Rightarrow> deps \<Rightarrow> node \<Rightarrow> shopper_state \<Rightarrow> shopper_state sact" where
  "run_node S D Search st = search_node S D st"
| "run_node S D Build_cart st = build_cart S D st"
| "run_node S D Propose_payment st = propose_payment S D st"
| "run_node S D Handle_gateway_response st = handle_gateway_response S st"
| "run_node S D Blocked st = blocked S st"
| "run_node S D Await_approval st = await_approval S st"
| "run_node S D Submit_approved_payment st = submit_approved_payment S D st"
| "run_node S D Completed st = completed S st"

definition route_on_decision :: "shopper_state \<Rightarrow> node" where
  "route_on_decision st = (let decision = or_else ''ERROR'' (sk_decision st) in
     if decision = ''ALLOW'' then Completed else if decision = ''REQUIRE_APPROVAL'' then Await_approval else Blocked)"

text \<open>The edges; \<open>None\<close> is \<open>END\<close>.\<close>

fun next_node :: "node \<Rightarrow> shopper_state \<Rightarrow> node option" where
  "next_node Search st = Some Build_cart"
| "next_node Build_cart st = Some Propose_payment"
| "next_node Propose_payment st = Some Handle_gateway_response"
| "next_node Handle_gateway_response st = Some (route_on_decision st)"
| "next_node Blocked st = None"
| "next_node Completed st = None"
| "next_node Await_approval st = Some Submit_approved_payment"
| "next_node Submit_approved_payment st = None"

definition interrupt_before :: "node \<Rightarrow> bool" where "interrupt_before n \<longleftrightarrow> n = Submit_approved_payment"

fun nodes_left :: "node \<Rightarrow> nat" where
  "nodes_left Search = 6"
| "nodes_left Build_cart = 5"
| "nodes_left Propose_payment = 4"
| "nodes_left Handle_gateway_response = 3"
| "nodes_left Await_approval = 2"
| "nodes_left Submit_approved_payment = 1"
| "nodes_left Blocked = 1"
| "nodes_left Completed = 1"

lemma edges_descend: "next_node n st = Some m \<Longrightarrow> nodes_left m < nodes_left n"
  by (cases n) (auto simp: route_on_decision_def Let_def split: if_splits)

function invoke_from :: "sim_env \<Rightarrow> deps \<Rightarrow> node \<Rightarrow> shopper_state \<Rightarrow> shopper_state sact" where
  "invoke_from S D n st = bindE (run_node S D n st) (\<lambda>st'. case next_node n st' of
       None \<Rightarrow> ret st'
     | Some m \<Rightarrow> if interrupt_before m then ret st' else invoke_from S D m st')"
  by auto
termination by (relation "measure (\<lambda>(S, D, n, st). nodes_left n)") (auto simp: edges_descend)
declare invoke_from.simps [simp del]

end
