(* ===== verification/Runs.thy ===== *)
theory Runs
  imports Shopping
begin

text \<open>
  The service around the graph: \<open>service.py\<close> and the routes of \<open>main.py\<close>.
\<close>

section \<open>The registry of runs\<close>

definition get_run :: "string \<Rightarrow> run option sact" where
  "get_run i = asks (\<lambda>s. map_of (sm_runs s) i)"

definition store_run :: "run \<Rightarrow> unit sact" where
  "store_run r = modifyE (\<lambda>s. s\<lparr>sm_runs := AList.update (rn_run_id r) r (sm_runs s)\<rparr>)"

text \<open>\<open>values[-limit:]\<close>, newest first.\<close>

definition last_runs :: "int \<Rightarrow> 'a list \<Rightarrow> 'a list" where
  "last_runs limit xs = rev (if limit > 0 then drop (length xs - nat limit) xs else drop (nat (- limit)) xs)"

definition list_runs :: "int \<Rightarrow> (string \<times> string \<times> string \<times> string option \<times> string list) list sact" where
  "list_runs limit = asks (\<lambda>s. map (\<lambda>(_, r). (rn_run_id r, rn_scenario r, rn_status r, sk_decision (rn_state r),
     or_else [] (sk_reason_codes (rn_state r)))) (last_runs limit (sm_runs s)))"

text \<open>A run is a mutable object: what a call does to its transcript, its token and its graph stays on every exit.\<close>

definition change_run :: "string \<Rightarrow> (sim \<Rightarrow> run \<Rightarrow> run) \<Rightarrow> unit sact" where
  "change_run i f = modifyE (\<lambda>s. s\<lparr>sm_runs := map (\<lambda>(k, r). (k, if k = i then f s r else r)) (sm_runs s)\<rparr>)"

definition open_run :: "run \<Rightarrow> unit sact" where
  "open_run r = modifyE (\<lambda>s. s\<lparr>sm_steps := rn_steps r, sm_token := rn_token r\<rparr>)"

definition save_run :: "string \<Rightarrow> unit sact" where
  "save_run i = change_run i (\<lambda>s r. r\<lparr>rn_steps := sm_steps s, rn_token := sm_token s\<rparr>)"

section \<open>Starting a run\<close>

definition DEMO_QUANTITIES :: "nat list" where "DEMO_QUANTITIES = [2, 3, 1, 4]"

definition next_quantity :: "nat option \<Rightarrow> nat sact" where
  "next_quantity q = (if q \<noteq> None \<and> q \<noteq> Some 0 then ret (the q)
     else (\<lambda>s. (Inr (DEMO_QUANTITIES ! (sm_run_counter s mod 4)), s\<lparr>sm_run_counter := Suc (sm_run_counter s)\<rparr>)))"

definition initial_state :: "string \<Rightarrow> string \<Rightarrow> bool \<Rightarrow> nat \<Rightarrow> shopper_state" where
  "initial_state instruction budget adversarial q = \<lparr>sk_instruction = instruction, sk_budget = budget, sk_adversarial = adversarial,
     sk_requested_quantity = q, sk_chosen_sku = None, sk_page_url = None, sk_page_content = None, sk_merchant_id = None,
     sk_merchant_verified = None, sk_source_type = None, sk_cart = None, sk_total = None, sk_currency = None,
     sk_review_verdict = None, sk_decision = None, sk_reason_codes = None, sk_gateway_response = None,
     sk_approval_request_id = None, sk_approval_token = None, sk_status = ''running''\<rparr>"

definition OFFLINE_WARNING :: string where
  "OFFLINE_WARNING = ''This run used AGENT_LLM_MODE=offline: the agent's reasoning is a deterministic script, not a language model. '' @
     ''Every scripted step is marked simulated=true. The Sentinel calls are real '' @ em_dash @ '' the decision, reason codes '' @
     ''and audit hashes in this transcript came from the live gateway.''"

definition seed_or_fail :: "sim_env \<Rightarrow> unit sact" where
  "seed_or_fail S = catchE (seed S) (\<lambda>e. raise (SimulatorError ''GATEWAY_SEED_FAILED''
     (''Could not reach the Sentinel gateway to register the demo agent: '' @ exn_text e)))"

text \<open>\<open>try: client.provider_call_count()\<close>; every exception is swallowed.\<close>

definition try_count :: "sim_env \<Rightarrow> nat option sact" where
  "try_count S = bindE (tryE (provider_call_count S)) (\<lambda>r. ret (case r of Inl _ \<Rightarrow> None | Inr n \<Rightarrow> Some n))"

text \<open>The run once the demo agent is registered.\<close>

definition drive_run :: "sim_env \<Rightarrow> string \<Rightarrow> string \<Rightarrow> string \<Rightarrow> bool \<Rightarrow> nat option \<Rightarrow> string \<Rightarrow> string \<Rightarrow> run sact" where
  "drive_run S scenario instruction budget adversarial wanted cid rid =
     thenE (if offline S then add_step S NOTE ''simulator'' ''offline_mode'' OFFLINE_WARNING (Fields []) None None else ret ())
     (bindE (fresh_uuid S) (\<lambda>thread.
      bindE (try_count S) (\<lambda>before.
      bindE (next_quantity wanted) (\<lambda>q.
      bindE (invoke_from S \<lparr>dp_adversarial = adversarial, dp_idempotency_key = None, dp_correlation_id = Some cid\<rparr> Search
               (initial_state instruction budget adversarial q)) (\<lambda>st.
      bindE (try_count S) (\<lambda>after.
      bindE (asks (\<lambda>s. \<lparr>rn_run_id = rid, rn_scenario = scenario, rn_steps = sm_steps s, rn_token = sm_token s,
          rn_adversarial = adversarial, rn_correlation_id = cid, rn_thread_id = ''thread_'' @ take 12 thread,
          rn_checkpoint = st, rn_state = st,
          rn_status = (if sk_decision st = Some ''REQUIRE_APPROVAL'' then ''awaiting_approval''
             else if sk_status st = '''' then ''running'' else sk_status st),
          rn_calls_before = before, rn_calls_after = after\<rparr>)) (\<lambda>run.
      thenE (store_run run) (ret run))))))))"

definition start_run :: "sim_env \<Rightarrow> string \<Rightarrow> string \<Rightarrow> string \<Rightarrow> bool \<Rightarrow> nat option \<Rightarrow> string option \<Rightarrow> run sact" where
  "start_run S scenario instruction budget adversarial wanted correlation =
     bindE (if nonempty correlation then ret (the correlation) else bindE (fresh_uuid S) (\<lambda>u. ret (''crew_'' @ take 16 u))) (\<lambda>given.
     bindE (fresh_uuid S) (\<lambda>u.
     thenE (modifyE (\<lambda>s. s\<lparr>sm_steps := [], sm_token := None\<rparr>))
     (thenE (seed_or_fail S)
       (drive_run S scenario instruction budget adversarial wanted (take 128 given) (''run_'' @ take 16 u)))))"

section \<open>The external signal\<close>

text \<open>
  The graph is resumed at the node it was interrupted before, with the token in its state.
\<close>

definition resume_run :: "sim_env \<Rightarrow> run \<Rightarrow> string \<Rightarrow> unit sact" where
  "resume_run S run approval = bindE (client_grant S approval) (\<lambda>(token, bound_to).
     thenE (add_step S NOTE ''human'' ''approval_granted'' (''human approved '' @ approval) (Fields [(''bound_to'', bound_to)]) None (Some False))
     (let st0 = (rn_checkpoint run)\<lparr>sk_approval_token := Some token\<rparr> in
      thenE (change_run (rn_run_id run) (\<lambda>_ r. r\<lparr>rn_checkpoint := st0\<rparr>))
      (bindE (invoke_from S \<lparr>dp_adversarial = rn_adversarial run, dp_idempotency_key = None,
                dp_correlation_id = Some (rn_correlation_id run)\<rparr> Submit_approved_payment st0) (\<lambda>st.
       thenE (change_run (rn_run_id run) (\<lambda>_ r. r\<lparr>rn_checkpoint := st, rn_state := st,
           rn_status := (if sk_status st = '''' then ''completed'' else sk_status st)\<rparr>))
       (bindE (try_count S) (\<lambda>n. case n of None \<Rightarrow> ret ()
          | Some k \<Rightarrow> change_run (rn_run_id run) (\<lambda>_ r. r\<lparr>rn_calls_after := Some k\<rparr>)))))))"

definition approve_and_resume :: "sim_env \<Rightarrow> string \<Rightarrow> run sact" where
  "approve_and_resume S i = bindE (get_run i) (\<lambda>r. case r of
       None \<Rightarrow> raise (SimulatorError ''UNKNOWN_RUN'' (''no run '' @ i))
     | Some run \<Rightarrow>
         if rn_status run \<noteq> ''awaiting_approval'' then
           raise (SimulatorError ''RUN_NOT_AWAITING_APPROVAL'' (''run '' @ i @ '' is '' @ rn_status run @ '', not awaiting approval''))
         else if \<not> nonempty (sk_approval_request_id (rn_state run)) then
           raise (SimulatorError ''NO_APPROVAL_REQUEST'' ''the gateway did not return an approval id'')
         else thenE (open_run run)
           (thenE (finallyE (resume_run S run (the (sk_approval_request_id (rn_state run)))) (save_run i))
             (bindE (get_run i) (need ''run''))))"

definition reset_demo_state :: "sim_env \<Rightarrow> (admin_reply \<times> string) sact" where
  "reset_demo_state S = bindE (admin_call S DevReset) (\<lambda>reply.
     bindE (catchE
       (thenE (request S (modifyE (\<lambda>w. w\<lparr>provider := provider_reset (provider w)\<rparr>)))
         (thenE (request S (modifyE (\<lambda>w. w\<lparr>provider := set_behaviour SUCCESS None (provider w)\<rparr>))) (ret ''reset'')))
       (\<lambda>e. case e of HttpxError _ m \<Rightarrow> ret (''unavailable: '' @ m) | _ \<Rightarrow> raise e)) (\<lambda>p.
     thenE (modifyE (\<lambda>s. s\<lparr>sm_runs := []\<rparr>)) (ret (reply, p))))"

section \<open>What the service answers\<close>

record run_summary =
  su_run_id :: string
  su_scenario :: string
  su_mode :: string
  su_simulated_reasoning :: bool
  su_status :: string
  su_request_id :: "string option"
  su_decision :: "string option"
  su_reason_codes :: "string list"
  su_approval_request_id :: "string option"
  su_sentinel :: "decision_response option"
  su_calls_before :: "nat option"
  su_calls_after :: "nat option"
  su_calls_delta :: "int option"
  su_steps :: "step list"
  su_warning :: "string option"

definition nonempty_only :: "string option \<Rightarrow> string option" where
  "nonempty_only x = (if nonempty x then x else None)"

definition summary_of :: "sim_env \<Rightarrow> run \<Rightarrow> run_summary" where
  "summary_of S r = \<lparr>su_run_id = rn_run_id r, su_scenario = rn_scenario r,
     su_mode = (if offline S then ''offline-deterministic'' else ''live''), su_simulated_reasoning = offline S,
     su_status = rn_status r, su_request_id = nonempty_only (Some (rn_correlation_id r)), su_decision = sk_decision (rn_state r),
     su_reason_codes = or_else [] (sk_reason_codes (rn_state r)),
     su_approval_request_id = nonempty_only (sk_approval_request_id (rn_state r)),
     su_sentinel = Option.bind (sk_gateway_response (rn_state r)) gr_response,
     su_calls_before = rn_calls_before r, su_calls_after = rn_calls_after r,
     su_calls_delta = (case (rn_calls_before r, rn_calls_after r) of (Some a, Some b) \<Rightarrow> Some (int b - int a) | _ \<Rightarrow> None),
     su_steps = rn_steps r, su_warning = (if offline S then Some OFFLINE_WARNING else None)\<rparr>"

record sim_request =
  sr_instruction :: string
  sr_budget :: string
  sr_quantity :: "int option"
  sr_correlation_id :: "string option"

text \<open>Outside the limits the framework answers 422 and calls nothing.\<close>

definition sim_request_ok :: "sim_request \<Rightarrow> bool" where
  "sim_request_ok b \<longleftrightarrow> length (sr_instruction b) \<le> 2000 \<and> (case sr_quantity b of None \<Rightarrow> True | Some q \<Rightarrow> 1 \<le> q \<and> q \<le> 50) \<and>
     (case sr_correlation_id b of None \<Rightarrow> True | Some c \<Rightarrow> length c \<le> 128)"

definition simulate :: "sim_env \<Rightarrow> string \<Rightarrow> bool \<Rightarrow> nat option \<Rightarrow> sim_request \<Rightarrow> run_summary sact" where
  "simulate S scenario adversarial q b = bindE (start_run S scenario (sr_instruction b) (sr_budget b) adversarial q (sr_correlation_id b))
     (\<lambda>run. ret (summary_of S run))"

definition clean_purchase :: "sim_env \<Rightarrow> sim_request \<Rightarrow> run_summary sact" where
  "clean_purchase S b = simulate S ''clean-purchase'' False (map_option nat (sr_quantity b)) b"

definition approval_flow :: "sim_env \<Rightarrow> sim_request \<Rightarrow> run_summary sact" where
  "approval_flow S b = simulate S ''approval-flow'' False (Some (case sr_quantity b of None \<Rightarrow> 8 | Some q \<Rightarrow> if q = 0 then 8 else nat q)) b"

text \<open>With the payload's digest, its length, and whether a step of the transcript carries that digest.\<close>

definition poisoned_page :: "sim_env \<Rightarrow> string" where "poisoned_page S = page_of S (pd_page_url colombian)"

definition adversarial_route :: "sim_env \<Rightarrow> sim_request \<Rightarrow> (run_summary \<times> string \<times> nat \<times> bool) sact" where
  "adversarial_route S b = bindE (simulate S ''adversarial'' True (map_option nat (sr_quantity b)) b) (\<lambda>summary.
     let digest = e_H (se_services S) (poisoned_page S) in
     ret (summary, digest, length (poisoned_page S),
       list_ex (\<lambda>s. detail_get ''content_sha256'' (tp_detail s) = Some (JStr digest)) (su_steps summary)))"

definition approve_route :: "sim_env \<Rightarrow> string \<Rightarrow> run_summary sact" where
  "approve_route S i = bindE (approve_and_resume S i) (\<lambda>run. ret (summary_of S run))"

definition run_detail :: "sim_env \<Rightarrow> string \<Rightarrow> run_summary option sact" where
  "run_detail S i = bindE (get_run i) (\<lambda>r. ret (map_option (summary_of S) r))"

definition error_status :: "sim_exn \<Rightarrow> nat" where
  "error_status e = (case e of SimulatorError _ _ \<Rightarrow> 502 | _ \<Rightarrow> 500)"

end
