(* ===== verification/Containment.thy ===== *)
theory Containment
  imports Runs Outcomes
begin

text \<open>
  What the simulated agent can do to the money. The crew of language models is an arbitrary script of
  tool calls, the network loses what it likes; still every change of the provider goes through the
  gateway, with an intent for this agent that the registry permits. The frame argument is the locale
  \<open>evolution\<close> again, one level up: a relation between worlds (\<open>kept\<close>) and its lift to the simulator's state.
\<close>

section \<open>What the agent is made of\<close>

text \<open>An intent that carries the ids of the configured agent.\<close>

definition own :: "sim_env \<Rightarrow> payment_intent \<Rightarrow> bool" where
  "own S p \<longleftrightarrow> pi_agent_id p = ss_agent_id (se_settings S) \<and> pi_user_id p = ss_user_id (se_settings S) \<and>
     pi_delegation_id p = ss_delegation_id (se_settings S)"

lemma own_intent: "intent_of (se_settings S) k a = Some p \<Longrightarrow> own S p"
  by (auto simp: intent_of_def own_def split: option.splits)

text \<open>
  A relation that the client's requests keep: minting a token and posting an intent of this agent.
\<close>

locale client_relation = evolution R for R :: "sim \<Rightarrow> sim \<Rightarrow> bool" +
  fixes S :: sim_env
  assumes R_uuid: "evolves R (fresh_uuid S)"
    and R_token: "evolves R (modifyE (sm_token_update f) :: unit sact)"
    and R_mint: "evolves R (request S (serve_admin (se_services S) k i (IssueToken b)))"
    and R_post: "own S p \<Longrightarrow> evolves R (request S (post_intent (se_services S) p h c))"
begin

lemma ev_status: "evolves R m \<Longrightarrow> evolves R (raise_for_status m)"
  unfolding raise_for_status_def by (auto intro!: ev_rules split: sum.splits)

lemma ev_token: "evolves R (client_token S r)"
  unfolding client_token_def admin_call_def
  by (intro ev_rules ev_status R_mint) (auto intro!: ev_rules R_token split: admin_reply.split)

lemma ev_submitted: "evolves R (client_submit S a key corr)"
  unfolding client_submit_def by (intro ev_rules R_uuid ev_token R_post) (rule own_intent)

end

text \<open>And that the steps of the agent keep, those of the graph apart: then the crew keeps it, whatever it does.\<close>

locale agent_relation = client_relation +
  assumes R_script: "evolves R (next_script S)"
    and R_step: "k \<noteq> GRAPH_TRANSITION \<Longrightarrow> evolves R (add_step S k a n m d l b)"
begin

lemma ev_pay: "evolves R (propose_payment_intent S key corr a)"
proof -
  have "evolves R (case e of HttpxError t m \<Rightarrow> thenE (add_step S ERROR_STEP a1 n1 (x1 m) d1 l1 b1) (raise (y m)) | _ \<Rightarrow> raise e)"
    for e a1 n1 x1 d1 l1 b1 y
    by (cases e) (auto intro!: ev_rules R_step)
  then show ?thesis unfolding propose_payment_intent_def by (intro ev_rules R_step ev_submitted) simp_all
qed

lemma ev_tools: "evolves R (product_search S a q)" "evolves R (fetch_merchant_page S url)"
  unfolding product_search_def fetch_merchant_page_def Let_def by (intro ev_rules R_step; simp)+

lemma ev_crew: "evolves R (crew_step S D)"
proof -
  have "evolves R (crew_call S D c)" for c
    by (cases c) (auto intro!: ev_rules R_step ev_tools ev_pay)
  moreover have "evolves R (finish_crew S e)" for e
    unfolding finish_crew_def by (auto intro!: ev_rules R_step split: crew_end.split)
  moreover have "evolves R (build_crew_llm S)" unfolding build_crew_llm_def by (intro ev_rules)
  ultimately show ?thesis unfolding crew_step_def run_crew_def
    by (auto intro!: ev_rules R_script split: prod.split)
qed

lemma ev_args: "evolves R (payment_of st t)" "evolves R (need k x)" "evolves R (chosen_product st)"
  unfolding payment_of_def chosen_product_def need_def by (intro ev_rules)+

end

section \<open>The relation on the services' world\<close>

text \<open>What submitting payments and minting tokens leave of the database.\<close>

definition agent_db :: "env \<Rightarrow> database \<Rightarrow> database \<Rightarrow> bool" where
  "agent_db E d d' \<longleftrightarrow> agents d' = agents d \<and> policies d' = policies d \<and> merchants d' = merchants d \<and> log_extends E d d' \<and>
     (txns_ok (txns d) \<longrightarrow> txns_ok (txns d') \<and> rows_evolve (txns d) (txns d'))"

interpretation agent: db_relation "agent_db E" for E
  by unfold_locales (auto simp: agent_db_def log_extends_refl rows_evolve_refl intro: log_extends_trans rows_evolve_trans)

lemma ledger_agent: "ledger_step E d d' \<Longrightarrow> agent_db E d d'"
  by (simp add: ledger_step_def same_registry_def agent_db_def)

lemma agent_registry: "agent_db E d d' \<Longrightarrow> permitted d' p = permitted d p"
  by (simp add: agent_db_def permitted_def)

text \<open>
  Some intent of this agent was permitted by the registry as it is in \<open>w\<close>, and within the daily budget
  in a world that came of \<open>w\<close>, where its delegation was not in the revocation set.
\<close>

definition paid :: "sim_env \<Rightarrow> world \<Rightarrow> bool" where
  "paid S w \<longleftrightarrow> (\<exists>p (v :: world) t. own S p \<and> permitted (db w) p \<and> agent_db (se_services S) (db w) (db v) \<and> now v \<le> t \<and>
     within_budget (db v) p t \<and> \<not> st_sismember REVOCATION_SET (pi_delegation_id p) (store v))"

definition kept :: "sim_env \<Rightarrow> world \<Rightarrow> world \<Rightarrow> bool" where
  "kept S w w' \<longleftrightarrow> agent_db (se_services S) (db w) (db w') \<and> 
     (opa_faithful (se_services S) \<and> provider w' \<noteq> provider w \<longrightarrow> paid S w)"

lemma paid_back: "agent_db (se_services S) (db w) (db v) \<Longrightarrow> paid S v \<Longrightarrow> paid S w"
  unfolding paid_def using agent_registry agent.P_trans by blast

interpretation kept: evolution "kept S" for S
proof
  show "kept S w w" for w by (simp add: kept_def agent.P_refl)
  show "kept S u w" if "kept S u v" "kept S v w" for u v w
    using that agent.P_trans [of "se_services S" "db u" "db v" "db w"] paid_back [of S u v] by (metis kept_def)
qed

lemma kept_quiet:
  assumes "evolves (on_db (agent_db (se_services S))) m" "evolves (keeps provider) m"
  shows "evolves (kept S) m"
  using assms by (auto simp: evolves_def on_db_def keeps_def kept_def)

lemma kept_post:
  assumes "own S p"
  shows "evolves (kept S) (post_intent (se_services S) p h c)"
proof (rule evolvesI)
  fix w
  let ?w = "snd (create_payment_intent (se_services S) p h c True w)"
  have "snd (post_intent (se_services S) p h c w) = (if intent_ok (e_frepr (se_services S)) p then ?w else w)"
    by (auto simp: post_intent_def Let_def catchE_def bindE_def split: prod.splits sum.splits)
  moreover have "kept S w ?w"
    using evolvesD [OF ev_create, of "se_services S" w p h c True] charge_permitted [of "se_services S" p h c True w] assms
    unfolding kept_def paid_def on_db_def using ledger_agent agent.P_refl by blast
  ultimately show "kept S w (snd (post_intent (se_services S) p h c w))" by (simp add: kept.evo_refl)
qed

lemma agent_issue: "evolves (on_db (agent_db E)) (issue_token E admin b)"
proof -
  have "agent_db E d (d\<lparr>admin_log := l\<rparr>)" for d l
    using agent.P_refl [of E d] by (simp add: agent_db_def log_extends_def)
  then show ?thesis unfolding issue_token_def record_admin_action_def sign_delegation_token_def
    by (auto intro!: agent.ev_rules agent.db_session agent.db_modify_rule split: option.splits)
qed

lemma kept_token: "evolves (kept S) (serve_admin (se_services S) k i (IssueToken b))"
proof (rule kept_quiet)
  have "evolves (on_db (agent_db E)) (admin_route E a (IssueToken b))" for E a
    by (simp add: mapE_def) (intro agent.ev_rules agent_issue)
  then show "evolves (on_db (agent_db (se_services S))) (serve_admin (se_services S) k i (IssueToken b))"
    unfolding evolves_def by (metis agent.evo_refl prod.sel(2) serve_admin_cases)
qed (rule keeps_admin; simp)

lemma kept_grant: "evolves (kept S) (Pipeline.grant_approval (se_services S) i)"
proof (rule kept_quiet)
  have "evolves (on_db (ledger_step E)) (Pipeline.grant_approval E i)" for E
    unfolding Pipeline.grant_approval_def Let_def
    by (intro ledger.ev_rules ev_stages ledger.db_keeps keeps_grant keeps_load_request) simp_all
  then show "evolves (on_db (agent_db (se_services S))) (Pipeline.grant_approval (se_services S) i)"
    by (auto simp: evolves_def on_db_def intro: ledger_agent)
  show "evolves (keeps provider) (Pipeline.grant_approval (se_services S) i)"
    unfolding Pipeline.grant_approval_def Let_def
    by (intro frame.ev_rules keeps_grant keeps_load_request keeps_record_event_safe) simp_all
qed

section \<open>The relation on the simulator\<close>

definition contained :: "sim_env \<Rightarrow> sim \<Rightarrow> sim \<Rightarrow> bool" where
  "contained S s s' \<longleftrightarrow> kept S (sm_world s) (sm_world s')"

interpretation contained: evolution "contained S" for S
  by unfold_locales (auto simp: contained_def intro: kept.evo_refl kept.evo_trans)

lemma contained_local: "(\<And>s. sm_world (snd (m s)) = sm_world s) \<Longrightarrow> evolves (contained S) m"
  by (simp add: evolves_def contained_def kept.evo_refl)

lemma contained_request:
  assumes "evolves (kept S) m"
  shows "evolves (contained S) (request S m)"
proof (rule evolvesI)
  fix s :: sim
  have "kept S (sm_world s) (snd (m (sm_world s)))" by (rule evolvesD [OF assms])
  moreover have "kept S w (v\<lparr>now := t\<rparr>)" if "kept S w v" for w v t using that by (simp add: kept_def)
  ultimately show "contained S s (snd (request S m s))"
    by (auto simp: request_def Let_def contained_def kept.evo_refl split: net_fault.splits prod.splits)
qed

lemma contained_steps:
  "evolves (contained S) (add_step S k a n m d l b)" "evolves (contained S) (fresh_uuid S)" "evolves (contained S) (next_script S)"
  "evolves (contained S) (graph_note S a m fs)" "evolves (contained S) (change_run i f)" "evolves (contained S) (open_run r)"
  "evolves (contained S) (save_run i)" "evolves (contained S) (need x y)" "evolves (contained S) (chosen_product st)"
  "evolves (contained S) (store_run r)" "evolves (contained S) (next_quantity q)" "evolves (contained S) (build_crew_llm S)"
  by (rule contained_local; simp add: add_step_def fresh_uuid_def next_script_def graph_note_def change_run_def open_run_def save_run_def
      need_def chosen_product_def bindE_def store_run_def next_quantity_def build_crew_llm_def split: option.splits)+

lemma contained_request_kept [intro]: "own S p \<Longrightarrow> evolves (contained S) (request S (post_intent (se_services S) p h c))"
  by (intro contained_request kept_post)

interpretation contained: agent_relation "contained S" S for S
  by unfold_locales (auto intro: contained_steps contained_request kept_token contained_local)

lemma contained_count: "evolves (contained S) (provider_call_count S)" "evolves (contained S) (try_count S)"
  unfolding try_count_def provider_call_count_def
  by (intro contained.ev_rules contained.ev_status contained_request kept.ev_rules)+

lemma contained_node: "evolves (contained S) (run_node S D n st)"
proof -
  note r = contained.ev_rules contained_steps contained.ev_tools contained.ev_pay contained.ev_crew contained.ev_args
  show ?thesis
    by (cases n) (auto simp: search_node_def build_cart_def propose_payment_def handle_gateway_response_def blocked_def await_approval_def
        submit_approved_payment_def completed_def Let_def intro!: r split: list.split)
qed

lemma contained_invoke: "evolves (contained S) (invoke_from S D n st)"
proof (induction S D n st rule: invoke_from.induct)
  case (1 S D n st)
  show ?case by (subst invoke_from.simps) (intro contained.ev_rules contained_node 1)
qed

lemma contained_approve: "evolves (contained S) (approve_and_resume S i)"
proof -
  have "evolves (contained S) (client_grant S a)" for a
    unfolding client_grant_def by (intro contained.ev_status contained_request kept_grant)
  then have "evolves (contained S) (resume_run S r a)" for r a
    unfolding resume_run_def Let_def
    by (auto intro!: contained.ev_rules contained_steps contained_count contained_invoke split: prod.split)
  then show ?thesis unfolding approve_and_resume_def get_run_def by (intro contained.ev_rules contained_steps)
qed

section \<open>What seeding sets up\<close>

lemma admin_action_only:
  assumes "record_admin_action E admin a t p w = (Inr u, w')"
  obtains l where "db w' = (db w)\<lparr>admin_log := l\<rparr>"
proof -
  from assms have "db w' = (db w)\<lparr>admin_log := admin_log (db w')\<rparr>"
    by (auto simp: record_admin_action_def catchE_def session_scope_def bindE_def db_modify_def Let_def split: prod.splits sum.splits if_splits)
  with that show thesis .
qed

lemma modify_commits: "session_scope E (db_modify f) w = (Inr u, w') \<Longrightarrow> db w' = f (db w)"
  by (simp add: session_commit db_modify_def) (auto simp: tick_def)

lemma upsert_sets:
  assumes "thenE (session_scope E (db_modify f)) (thenE (record_admin_action E admin a t p) (ret x)) w = (Inr r, w')"
  shows "\<exists>l. db w' = (f (db w))\<lparr>admin_log := l\<rparr>"
  using assms by (auto elim!: thenE_InrE admin_action_only dest!: modify_commits)

lemma upsert_policy_sets:
  assumes "upsert_policy E admin b w = (Inr r, w')"
  shows "\<exists>l. db w' = (db w)\<lparr>policies := (policies (db w))(pl_delegation_id b \<mapsto> policy_row_of b), admin_log := l\<rparr>"
proof -
  have "store_srem E REVOCATION_SET d w1 = (Inr v, w2) \<Longrightarrow> db w2 = db w1" for d w1 v w2
    by (auto simp: store_srem_def store_call_def Let_def split: if_splits)
  with assms show ?thesis unfolding upsert_policy_def by (auto elim!: thenE_InrE admin_action_only dest!: modify_commits)
qed

lemma admin_call_InrE:
  assumes "admin_call S req s = (Inr r, s')"
  obtains admin w where "admin_route (se_services S) admin req (sm_world s) = (Inr r, w)" "db (sm_world s') = db w"
  using assms
  by (auto simp: admin_call_def raise_for_status_def request_def bindE_def Let_def elim!: serve_admin_InrE
      split: prod.splits sum.splits net_fault.splits)

lemma seed_sets:
  assumes "seed S s = (Inr u, s')"
  shows "policies (db (sm_world s')) (ss_delegation_id (se_settings S)) = Some (policy_row_of (seed_policy (se_settings S))) \<and>
    merchants (db (sm_world s')) ''merch_giftcards_xyz'' = Some (merchant_row_of (seed_merchants ! 2)) \<and>
    txns (db (sm_world s')) = txns (db (sm_world s))"
proof -
  from assms obtain r1 s1 r2 s2 r3 s3 r4 s4 r5 s5 where
    a: "admin_call S (UpsertAgent (seed_agent (se_settings S))) s = (Inr r1, s1)"
    and m: "admin_call S (UpsertMerchant (seed_merchants ! 0)) s1 = (Inr r2, s2)" "admin_call S (UpsertMerchant (seed_merchants ! 1)) s2 = (Inr r3, s3)"
      "admin_call S (UpsertMerchant (seed_merchants ! 2)) s3 = (Inr r4, s4)"
    and p: "admin_call S (UpsertPolicy (seed_policy (se_settings S))) s4 = (Inr r5, s5)" and s': "s' = s5"
    by (auto simp: seed_def Let_def seed_merchants_def elim!: thenE_InrE)
  have g: "mi_merchant_id (seed_merchants ! 2) = ''merch_giftcards_xyz''" by (simp add: seed_merchants_def)
  from a have "txns (db (sm_world s1)) = txns (db (sm_world s))"
    by (auto elim!: admin_call_InrE bindE_InrE simp: mapE_def upsert_agent_def dest!: upsert_sets)
  moreover from m(1) have "txns (db (sm_world s2)) = txns (db (sm_world s1))"
    by (auto elim!: admin_call_InrE bindE_InrE simp: mapE_def upsert_merchant_def dest!: upsert_sets)
  moreover from m(2) have "txns (db (sm_world s3)) = txns (db (sm_world s2))"
    by (auto elim!: admin_call_InrE bindE_InrE simp: mapE_def upsert_merchant_def dest!: upsert_sets)
  moreover from m(3) g have "txns (db (sm_world s4)) = txns (db (sm_world s3))"
    "merchants (db (sm_world s4)) ''merch_giftcards_xyz'' = Some (merchant_row_of (seed_merchants ! 2))"
    by (auto elim!: admin_call_InrE bindE_InrE simp: mapE_def upsert_merchant_def dest!: upsert_sets)
  moreover from p have "txns (db (sm_world s5)) = txns (db (sm_world s4))" "merchants (db (sm_world s5)) = merchants (db (sm_world s4))"
    "policies (db (sm_world s5)) (ss_delegation_id (se_settings S)) = Some (policy_row_of (seed_policy (se_settings S)))"
    by (auto elim!: admin_call_InrE bindE_InrE simp: mapE_def seed_policy_def dest!: upsert_policy_sets)
  ultimately show ?thesis using s' by simp
qed

text \<open>Seeding asks the control plane only.\<close>

definition sim_keeps :: "(world \<Rightarrow> 'b) \<Rightarrow> sim \<Rightarrow> sim \<Rightarrow> bool" where
  "sim_keeps g s s' \<longleftrightarrow> g (sm_world s') = g (sm_world s)"

interpretation sim_frame: evolution "sim_keeps g" for g :: "world \<Rightarrow> 'b"
  by unfold_locales (simp_all add: sim_keeps_def)

lemma sim_keeps_admin:
  assumes "ignores_store g" "ignores_db g"
  shows "evolves (sim_keeps g) (admin_call S req)"
proof -
  have "g (snd (serve_admin E k i req w)) = g w" for E k i w using evolvesD [OF keeps_admin [OF assms]] by (simp add: keeps_def)
  moreover have "g (w\<lparr>now := t\<rparr>) = g w" for w t using assms by (simp add: ignores_defs)
  ultimately show ?thesis
    by (auto simp: evolves_def admin_call_def raise_for_status_def bindE_def request_def sim_keeps_def Let_def
        split: prod.splits sum.splits net_fault.splits) (metis prod.sel(2))+
qed

lemma sim_keeps_seed:
  assumes "ignores_store g" "ignores_db g"
  shows "evolves (sim_keeps g) (seed S)"
  unfolding seed_def Let_def by (intro sim_frame.ev_rules sim_keeps_admin [OF assms])

section \<open>A whole run\<close>

text \<open>What a payment of a run is bounded by, in the words of \<open>seed\<close>.\<close>

definition within_seed :: "sim_env \<Rightarrow> database \<Rightarrow> bool" where
  "within_seed S d \<longleftrightarrow> (\<exists>p (v :: world) t. own S p \<and> pi_currency p = ''INR'' \<and> to_minor_units (pi_amount p) \<le> 1500000 \<and>
     pi_merchant_id p \<noteq> ''merch_giftcards_xyz'' \<and> (txns_ok (txns d) \<longrightarrow> rows_evolve (txns d) (txns (db v))) \<and> now v \<le> t \<and>
     spent_since (pi_user_id p) (t - 86400) (txns (db v)) + to_minor_units (pi_amount p) \<le> 4000000)"

lemma paid_within_seed:
  assumes "policies (db w) (ss_delegation_id (se_settings S)) = Some (policy_row_of (seed_policy (se_settings S)))"
    "merchants (db w) ''merch_giftcards_xyz'' = Some (merchant_row_of (seed_merchants ! 2))" "txns (db w) = txns d" "paid S w"
  shows "within_seed S d"
proof -
  have n: "to_minor_units (numeric_12_2 \<lparr>coeff = 1500000, dexp = -2\<rparr>) = 1500000" "to_minor_units (numeric_12_2 \<lparr>coeff = 4000000, dexp = -2\<rparr>) = 4000000"
    by code_simp+
  have u: "\<not> mr_verified (merchant_row_of (seed_merchants ! 2))" by (simp add: seed_merchants_def merchant_row_of_def)
  from assms(4) obtain p and v :: world and t where p: "own S p" "permitted (db w) p" "agent_db (se_services S) (db w) (db v)" "now v \<le> t" "within_budget (db v) p t"
    unfolding paid_def by blast
  have "policies (db v) = policies (db w)" "txns_ok (txns d) \<longrightarrow> rows_evolve (txns d) (txns (db v))"
    using p(3) assms(3) by (simp_all add: agent_db_def)
  with p assms(1,2) n u show ?thesis
    unfolding within_seed_def by (intro exI [of _ p] exI [of _ v] exI [of _ t])
      (auto simp: own_def permitted_def within_budget_def policy_row_of_def seed_policy_def)
qed

lemma contained_drive: "evolves (contained S) (drive_run S sc ins b adv q cid rid)"
  unfolding drive_run_def by (intro contained.ev_rules contained_steps contained_count contained_invoke)

lemma run_within_seed:
  assumes "opa_faithful (se_services S)"
    and ch: "provider (sm_world (snd (start_run S sc ins b adv q corr s))) \<noteq> provider (sm_world s)"
  shows "within_seed S (db (sm_world s))"
proof -
  let ?g = "\<lambda>s. provider (sm_world s)"
  have seed: "?g (snd (seed S s)) = ?g s" for s
    using evolvesD [OF sim_keeps_seed [of provider S], of s] by (simp add: sim_keeps_def)
  obtain s1 where s1: "sm_world s1 = sm_world s" and r1: "\<exists>cid rid. snd (start_run S sc ins b adv q corr s) =
      snd (thenE (seed_or_fail S) (drive_run S sc ins b adv q cid rid) s1)"
    by (rule that [of "(if nonempty corr then s else s\<lparr>sm_uuids := Suc (sm_uuids s)\<rparr>)\<lparr>sm_uuids := Suc (if nonempty corr then sm_uuids s else Suc (sm_uuids s)),
          sm_steps := [], sm_token := None\<rparr>"])
      (auto simp: start_run_def bindE_def thenE_def fresh_uuid_def)
  obtain cid rid where r: "snd (start_run S sc ins b adv q corr s) = snd (thenE (seed_or_fail S) (drive_run S sc ins b adv q cid rid) s1)"
    using r1 by blast
  obtain u s2 where s2: "seed S s1 = (Inr u, s2)" and d: "?g (snd (drive_run S sc ins b adv q cid rid s2)) \<noteq> ?g s2"
  proof (cases "seed S s1")
    case (Pair x s2)
    with ch r s1 seed [of s1] that [of _ s2] show thesis
      by (cases x) (auto simp: seed_or_fail_def catchE_def thenE_def bindE_def)
  qed
  with assms(1) evolvesD [OF contained_drive, of S s2 sc ins b adv q cid rid] have "paid S (sm_world s2)"
    by (simp add: contained_def kept_def)
  with seed_sets [OF s2] s1 show ?thesis by (intro paid_within_seed) simp_all
qed

end
