(* ===== verification/Trails.thy ===== *)
theory Trails
  imports Containment
begin

text \<open>
  The way a run takes through the graph, read off its transcript: which nodes ran, in which order, how
  the run ends, and how often it submitted a payment.
\<close>

section \<open>Steps of a kind\<close>

definition trail :: "(step_kind \<Rightarrow> string \<Rightarrow> bool) \<Rightarrow> step list \<Rightarrow> string list" where
  "trail Q steps = map tp_name (filter (\<lambda>x. Q (tp_kind x) (tp_name x)) steps)"

definition transitions :: "step_kind \<Rightarrow> string \<Rightarrow> bool" where
  "transitions k n \<longleftrightarrow> k = GRAPH_TRANSITION"

definition payments :: "step_kind \<Rightarrow> string \<Rightarrow> bool" where
  "payments k n \<longleftrightarrow> k = TOOL_CALL \<and> n = ''propose_payment_intent''"

lemma payments_are_calls: "length (trail payments steps) = length (tool_calls (Some ''propose_payment_intent'') steps)"
  by (auto simp: trail_def tool_calls_def payments_def intro!: arg_cong [of _ _ length] filter_cong)

lemma trail_step: "trail Q (sm_steps (snd (add_step S k a n m d l b s))) = trail Q (sm_steps s) @ (if Q k n then [n] else [])"
  by (simp add: trail_def add_step_def)

definition same_trail :: "(step_kind \<Rightarrow> string \<Rightarrow> bool) \<Rightarrow> sim \<Rightarrow> sim \<Rightarrow> bool" where
  "same_trail Q s s' \<longleftrightarrow> trail Q (sm_steps s') = trail Q (sm_steps s)"

interpretation same_trail: evolution "same_trail Q" for Q
  by unfold_locales (simp_all add: same_trail_def)

lemma same_steps: "(\<And>s. sm_steps (snd (m s)) = sm_steps s) \<Longrightarrow> evolves (same_trail Q) m"
  by (simp add: evolves_def same_trail_def)

lemma same_request: "evolves (same_trail Q) (request S m)"
  by (rule same_steps) (auto simp: request_def Let_def split: net_fault.splits prod.splits)

interpretation same_trail: client_relation "same_trail Q" S for Q S
  by unfold_locales (auto intro: same_request same_steps simp: fresh_uuid_def)

interpretation same_way: agent_relation "same_trail transitions" S for S
  by unfold_locales (auto simp: next_script_def transitions_def same_trail_def evolves_def trail_step intro: same_steps)

section \<open>What a program adds\<close>

text \<open>When it returns, \<open>m\<close> has added exactly these steps.\<close>

definition adds :: "(step_kind \<Rightarrow> string \<Rightarrow> bool) \<Rightarrow> string list \<Rightarrow> 'a sact \<Rightarrow> bool" where
  "adds Q ns m \<longleftrightarrow> (\<forall>s x s'. m s = (Inr x, s') \<longrightarrow> trail Q (sm_steps s') = trail Q (sm_steps s) @ ns)"

lemma addsD: "adds Q ns m \<Longrightarrow> m s = (Inr x, s') \<Longrightarrow> trail Q (sm_steps s') = trail Q (sm_steps s) @ ns"
  by (simp add: adds_def)

lemma adds_quiet: "evolves (same_trail Q) m \<Longrightarrow> adds Q [] m"
  unfolding adds_def by (metis append_Nil2 evolvesE same_trail_def)

lemma adds_raise: "adds Q ns (raise e)" by (simp add: adds_def)

lemma adds_step: "ns = (if Q k n then [n] else []) \<Longrightarrow> adds Q ns (add_step S k a n m d l b)"
  by (simp add: adds_def trail_def add_step_def)

lemma adds_bind:
  assumes "adds Q ms m" "\<And>x. adds Q ns (f x)"
  shows "adds Q (ms @ ns) (bindE m f)"
  unfolding adds_def
proof (intro allI impI)
  fix s x s'
  assume "bindE m f s = (Inr x, s')"
  then obtain y u where "m s = (Inr y, u)" "f y u = (Inr x, s')" by (rule bindE_InrE)
  then show "trail Q (sm_steps s') = trail Q (sm_steps s) @ ms @ ns" using addsD assms by (metis append.assoc)
qed

lemma adds_then: "adds Q ms m \<Longrightarrow> adds Q ns n \<Longrightarrow> adds Q (ms @ ns) (thenE m n)"
  unfolding thenE_def by (rule adds_bind)

lemma adds_catch:
  assumes "adds Q ns m" "\<And>e s. isl (fst (h e s))"
  shows "adds Q ns (catchE m h)"
proof -
  have "m s = (Inr x, s')" if c: "catchE m h s = (Inr x, s')" for s x s'
  proof (cases "m s")
    case (Pair r t)
    show ?thesis
    proof (cases r)
      case (Inl e)
      with Pair c assms(2) [of e t] show ?thesis by (simp add: catchE_def)
    next
      case (Inr y)
      with Pair c show ?thesis by (simp add: catchE_def)
    qed
  qed
  with assms(1) show ?thesis by (simp add: adds_def)
qed

text \<open>The same after a quiet first part, and before a quiet second one.\<close>

lemma adds_after: "evolves (same_trail Q) m \<Longrightarrow> (\<And>x. adds Q ns (f x)) \<Longrightarrow> adds Q ns (bindE m f)"
  using adds_bind [OF adds_quiet] by fastforce

lemma adds_after_then: "evolves (same_trail Q) m \<Longrightarrow> adds Q ns n \<Longrightarrow> adds Q ns (thenE m n)"
  unfolding thenE_def by (rule adds_after)

lemma adds_before: "adds Q ns m \<Longrightarrow> (\<And>x. evolves (same_trail Q) (f x)) \<Longrightarrow> adds Q ns (bindE m f)"
  using adds_bind [of Q ns m "[]" f] adds_quiet by fastforce

lemma adds_before_then: "adds Q ns m \<Longrightarrow> evolves (same_trail Q) n \<Longrightarrow> adds Q ns (thenE m n)"
  unfolding thenE_def by (rule adds_before)

section \<open>The nodes\<close>

fun node_name :: "node \<Rightarrow> string" where
  "node_name Search = ''search''"
| "node_name Build_cart = ''build_cart''"
| "node_name Propose_payment = ''propose_payment''"
| "node_name Handle_gateway_response = ''handle_gateway_response''"
| "node_name Blocked = ''blocked''"
| "node_name Await_approval = ''await_approval''"
| "node_name Submit_approved_payment = ''submit_approved_payment''"
| "node_name Completed = ''completed''"

lemma adds_note: "adds transitions [n] (graph_note S n m fs)"
  unfolding graph_note_def by (rule adds_step) (simp add: transitions_def)

lemmas way_rules = same_trail.ev_rules same_way.ev_tools same_way.ev_pay same_way.ev_crew same_way.ev_args same_way.R_step same_trail.R_uuid

lemma search_adds: "adds transitions [''search'', ''search''] (search_node S D st)"
proof -
  have f: "evolves (same_trail transitions) (if c then ret () else thenE (fetch_merchant_page S u) (ret ()))"
    "evolves (same_trail transitions) (if c then product_search S a q else thenE (crew_step S D) (ret ()))" for c u a q
    by (intro way_rules)+
  have "adds transitions [''search''] (case search_catalog (sk_instruction st) (dp_adversarial D) of
        [] \<Rightarrow> raise (PyError ''IndexError'' ''list index out of range'')
      | product # _ \<Rightarrow> bindE (asks sm_steps) (\<lambda>steps.
          thenE (if already_fetched product steps then ret () else thenE (fetch_merchant_page S (pd_page_url product)) (ret ()))
            (thenE (graph_note S ''search'' (''selected '' @ pd_sku product @ '' from '' @ pd_merchant_id product) (k product))
               (ret (g product)))))" for k g
    by (auto simp: adds_raise split: list.split)
      (intro adds_after [OF same_trail.ev_asks] adds_after_then [OF f(1)] adds_before_then [OF adds_note] same_trail.ev_ret)
  then have "adds transitions ([''search''] @ [''search'']) (search_node S D st)"
    unfolding search_node_def Let_def by (intro adds_then [OF adds_note adds_after_then [OF f(2)]])
  then show ?thesis by simp
qed

lemma node_adds: "adds transitions (if n = Search then [''search'', ''search''] else [node_name n]) (run_node S D n st)"
  by (cases n) (auto simp: search_adds build_cart_def propose_payment_def handle_gateway_response_def blocked_def await_approval_def
      submit_approved_payment_def completed_def Let_def intro!: adds_before_then adds_note way_rules)

section \<open>The way through the graph\<close>

text \<open>What each node does to the decision and the status.\<close>

lemma propose_decides: "propose_payment S D st s = (Inr st', s') \<Longrightarrow> sk_decision st' \<noteq> None"
  by (auto simp: propose_payment_def record_decision_def elim!: thenE_InrE bindE_InrE)

lemma later_nodes:
  "handle_gateway_response S st s = (Inr st', s') \<Longrightarrow> st' = st"
  "blocked S st s = (Inr st', s') \<Longrightarrow> st' = st\<lparr>sk_status := ''blocked''\<rparr>"
  "completed S st s = (Inr st', s') \<Longrightarrow> st' = st\<lparr>sk_status := ''completed''\<rparr>"
  "await_approval S st s = (Inr st', s') \<Longrightarrow> sk_decision st' = sk_decision st \<and> sk_status st' = ''awaiting_approval''"
  by (auto simp: handle_gateway_response_def blocked_def completed_def await_approval_def Let_def elim!: thenE_InrE)

lemma invoke_step:
  assumes "invoke_from S D n st s = (Inr st', s')"
  obtains st1 s1 where "run_node S D n st s = (Inr st1, s1)"
    "case next_node n st1 of None \<Rightarrow> st' = st1 \<and> s' = s1
     | Some m \<Rightarrow> if interrupt_before m then st' = st1 \<and> s' = s1 else invoke_from S D m st1 s1 = (Inr st', s')"
  using assms by (subst (asm) invoke_from.simps) (auto elim!: bindE_InrE split: option.splits if_splits)

text \<open>How a run ends on a decision: the last node, and the status.\<close>

definition ending :: "string \<Rightarrow> string \<times> string" where
  "ending d = (if d = ''ALLOW'' then (''completed'', ''completed'')
     else if d = ''REQUIRE_APPROVAL'' then (''await_approval'', ''awaiting_approval'') else (''blocked'', ''blocked''))"

definition way_to :: "string \<Rightarrow> string list" where
  "way_to d = [''search'', ''search'', ''build_cart'', ''propose_payment'', ''handle_gateway_response'', fst (ending d)]"

text \<open>The five nodes a run that returns has gone through.\<close>

lemma invoke_nodes:
  assumes "invoke_from S D Search st s = (Inr st', s')"
  obtains st1 s1 st2 s2 st3 s3 s4 d where "run_node S D Search st s = (Inr st1, s1)" "run_node S D Build_cart st1 s1 = (Inr st2, s2)"
    "run_node S D Propose_payment st2 s2 = (Inr st3, s3)" "run_node S D Handle_gateway_response st3 s3 = (Inr st3, s4)"
    "run_node S D (route_on_decision st3) st3 s4 = (Inr st', s')" "sk_decision st3 = Some d"
proof -
  from assms obtain st1 s1 where 1: "run_node S D Search st s = (Inr st1, s1)" "invoke_from S D Build_cart st1 s1 = (Inr st', s')"
    by (auto elim!: invoke_step simp: interrupt_before_def)
  from 1(2) obtain st2 s2 where 2: "run_node S D Build_cart st1 s1 = (Inr st2, s2)" "invoke_from S D Propose_payment st2 s2 = (Inr st', s')"
    by (auto elim!: invoke_step simp: interrupt_before_def)
  from 2(2) obtain st3 s3 where 3: "run_node S D Propose_payment st2 s2 = (Inr st3, s3)" "invoke_from S D Handle_gateway_response st3 s3 = (Inr st', s')"
    by (auto elim!: invoke_step simp: interrupt_before_def)
  from 3(2) obtain st4 s4 where 4: "run_node S D Handle_gateway_response st3 s3 = (Inr st4, s4)"
    "invoke_from S D (route_on_decision st4) st4 s4 = (Inr st', s')"
    by (auto elim!: invoke_step simp: interrupt_before_def route_on_decision_def Let_def split: if_splits)
  have e: "st4 = st3" using 4(1) by (auto dest: later_nodes)
  obtain d where "sk_decision st3 = Some d" using propose_decides 3(1) by fastforce
  moreover have "run_node S D (route_on_decision st4) st4 s4 = (Inr st', s')"
    using 4(2) by (auto elim!: invoke_step simp: interrupt_before_def route_on_decision_def Let_def split: if_splits)
  ultimately show thesis using that 1(1) 2(1) 3(1) 4(1) e by blast
qed

lemma invoke_way:
  assumes "invoke_from S D Search st s = (Inr st', s')"
  shows "\<exists>d. sk_decision st' = Some d \<and> sk_status st' = snd (ending d) \<and>
    trail transitions (sm_steps s') = trail transitions (sm_steps s) @ way_to d"
  using assms
proof (rule invoke_nodes)
  fix st1 s1 st2 s2 st3 s3 s4 d
  assume r: "run_node S D Search st s = (Inr st1, s1)" "run_node S D Build_cart st1 s1 = (Inr st2, s2)"
    "run_node S D Propose_payment st2 s2 = (Inr st3, s3)" "run_node S D Handle_gateway_response st3 s3 = (Inr st3, s4)"
    "run_node S D (route_on_decision st3) st3 s4 = (Inr st', s')" and d: "sk_decision st3 = Some d"
  have n: "node_name (route_on_decision st3) = fst (ending d)" "route_on_decision st3 \<noteq> Search"
    by (auto simp: route_on_decision_def d or_else_def Let_def ending_def)
  have "trail transitions (sm_steps s') = trail transitions (sm_steps s) @ way_to d"
    using r [THEN addsD [OF node_adds]] n by (simp add: way_to_def)
  moreover have "sk_decision st' = Some d \<and> sk_status st' = snd (ending d)"
    using r(5) d by (auto simp: route_on_decision_def or_else_def Let_def ending_def dest!: later_nodes split: if_splits)
  ultimately show ?thesis by blast
qed

section \<open>How often a run pays\<close>

lemma quiet_step: "\<not> Q k n \<Longrightarrow> evolves (same_trail Q) (add_step S k a n m d l b)"
  by (simp add: evolves_def same_trail_def trail_step)

lemma quiet_note: "evolves (same_trail payments) (graph_note S n m fs)"
  unfolding graph_note_def by (rule quiet_step) (simp add: payments_def)

lemma pay_adds: "adds payments [''propose_payment_intent''] (propose_payment_intent S key corr a)"
proof -
  have "evolves (same_trail payments) (case e of HttpxError t m \<Rightarrow> thenE (add_step S ERROR_STEP a1 n1 (x1 m) d1 l1 b1) (raise (y m)) | _ \<Rightarrow> raise e)"
    for e a1 n1 x1 d1 l1 b1 y
    by (cases e) (auto intro!: same_trail.ev_rules quiet_step simp: payments_def)
  then show ?thesis unfolding propose_payment_intent_def
    by (auto intro!: adds_raise adds_before_then adds_step same_trail.ev_rules same_trail.ev_submitted quiet_step simp: payments_def)
qed

lemma quiet_tools: "evolves (same_trail payments) (product_search S a q)" "evolves (same_trail payments) (fetch_merchant_page S url)"
  unfolding product_search_def fetch_merchant_page_def Let_def by (intro same_trail.ev_rules quiet_step; simp add: payments_def)+

lemma quiet_args: "evolves (same_trail Q) (payment_of st t)" "evolves (same_trail Q) (need k x)" "evolves (same_trail Q) (chosen_product st)"
  unfolding payment_of_def chosen_product_def need_def by (intro same_trail.ev_rules)+

lemmas quiet_rules = same_trail.ev_rules quiet_note quiet_tools quiet_args

lemma quiet_nodes:
  assumes "offline S" "n \<notin> {Propose_payment, Submit_approved_payment}"
  shows "evolves (same_trail payments) (run_node S D n st)"
  using assms by (cases n) (auto simp: search_node_def build_cart_def handle_gateway_response_def blocked_def await_approval_def completed_def
      Let_def payments_def intro!: quiet_rules quiet_step split: list.split)

lemma propose_adds: "adds payments [''propose_payment_intent''] (run_node S D Propose_payment st)"
  by (simp add: propose_payment_def) (intro adds_after_then [OF quiet_note] adds_after [OF quiet_args(1)] adds_before_then [OF pay_adds] quiet_rules)

lemma invoke_pays_once:
  assumes "offline S" "invoke_from S D Search st s = (Inr st', s')"
  shows "trail payments (sm_steps s') = trail payments (sm_steps s) @ [''propose_payment_intent'']"
  using assms(2)
proof (rule invoke_nodes)
  fix st1 s1 st2 s2 st3 s3 s4 d
  assume r: "run_node S D Search st s = (Inr st1, s1)" "run_node S D Build_cart st1 s1 = (Inr st2, s2)"
    "run_node S D Propose_payment st2 s2 = (Inr st3, s3)" "run_node S D Handle_gateway_response st3 s3 = (Inr st3, s4)"
    "run_node S D (route_on_decision st3) st3 s4 = (Inr st', s')"
  have "route_on_decision st3 \<notin> {Propose_payment, Submit_approved_payment}" by (simp add: route_on_decision_def Let_def)
  then show ?thesis
    using evolvesE [OF quiet_nodes r(1)] evolvesE [OF quiet_nodes r(2)] addsD [OF propose_adds r(3)] evolvesE [OF quiet_nodes r(4)]
      evolvesE [OF quiet_nodes r(5)] assms(1) by (simp add: same_trail_def)
qed

section \<open>A whole run\<close>

lemma quiet_count: "evolves (same_trail Q) (try_count S)"
  unfolding try_count_def provider_call_count_def
  by (intro same_trail.ev_rules same_trail.ev_status same_request)

lemma start_run_InrE:
  assumes "start_run S sc ins b adv q corr s = (Inr r, s')" "Q = transitions \<or> Q = payments"
  obtains D st0 s1 s2 where "trail Q (sm_steps s1) = []" "invoke_from S D Search st0 s1 = (Inr (rn_state r), s2)"
    "trail Q (rn_steps r) = trail Q (sm_steps s2)" "map_of (sm_runs s') (rn_run_id r) = Some r"
    "rn_status r = (if sk_decision (rn_state r) = Some ''REQUIRE_APPROVAL'' then ''awaiting_approval''
       else if sk_status (rn_state r) = '''' then ''running'' else sk_status (rn_state r))"
    "dp_adversarial D = adv" "sk_instruction st0 = ins"
proof -
  let ?q = "evolves (same_trail Q)"
  have a: "?q (admin_call S req)" for req
    unfolding admin_call_def by (intro same_trail.ev_status same_request)
  have sd: "?q (seed_or_fail S)" unfolding seed_or_fail_def seed_def Let_def by (intro same_trail.ev_rules a)
  have w: "?q (if offline S then add_step S NOTE a1 n m d l x else ret ())" for a1 n m d l x
    using assms(2) by (auto intro!: same_trail.ev_rules quiet_step simp: transitions_def payments_def)
  have nx: "?q (next_quantity q)" by (rule same_steps) (simp add: next_quantity_def)
  from assms(1) obtain cid rid s0 u t1 where t1: "seed_or_fail S (s0\<lparr>sm_steps := [], sm_token := None\<rparr>) = (Inr u, t1)"
    and dr: "drive_run S sc ins b adv q cid rid t1 = (Inr r, s')"
    unfolding start_run_def by (elim bindE_InrE thenE_InrE) auto
  from dr obtain u2 t2 th t3 before t4 qq t5 st t6 after t7 where
    2: "(if offline S then add_step S NOTE ''simulator'' ''offline_mode'' OFFLINE_WARNING (Fields []) None None else ret ()) t1 = (Inr u2, t2)"
    and 3: "fresh_uuid S t2 = (Inr th, t3)" and 4: "try_count S t3 = (Inr before, t4)" and 5: "next_quantity q t4 = (Inr qq, t5)"
    and 6: "invoke_from S \<lparr>dp_adversarial = adv, dp_idempotency_key = None, dp_correlation_id = Some cid\<rparr> Search (initial_state ins b adv qq) t5 = (Inr st, t6)"
    and 7: "try_count S t6 = (Inr after, t7)"
    and r: "r = \<lparr>rn_run_id = rid, rn_scenario = sc, rn_steps = sm_steps t7, rn_token = sm_token t7,
          rn_adversarial = adv, rn_correlation_id = cid, rn_thread_id = ''thread_'' @ take 12 th, rn_checkpoint = st, rn_state = st,
          rn_status = (if sk_decision st = Some ''REQUIRE_APPROVAL'' then ''awaiting_approval''
             else if sk_status st = '''' then ''running'' else sk_status st),
          rn_calls_before = before, rn_calls_after = after\<rparr>"
    and s': "s' = t7\<lparr>sm_runs := AList.update (rn_run_id r) r (sm_runs t7)\<rparr>"
    unfolding drive_run_def by (elim bindE_InrE thenE_InrE) (auto simp: store_run_def)
  have "trail Q (sm_steps t5) = []"
    using evolvesE [OF sd t1] evolvesE [OF w 2] evolvesE [OF same_trail.R_uuid 3, of Q] evolvesE [OF quiet_count 4, of Q] evolvesE [OF nx 5]
    by (simp add: same_trail_def trail_def)
  moreover have "trail Q (rn_steps r) = trail Q (sm_steps t6)" using evolvesE [OF quiet_count 7, of Q] r by (simp add: same_trail_def)
  moreover have "map_of (sm_runs s') (rn_run_id r) = Some r" by (simp add: s' update_conv')
  ultimately show thesis using that [of t5 _ _ t6] 6 r by (simp add: initial_state_def)
qed

text \<open>
  A run that returns has gone one way through the graph, ends as its decision says, and is filed; if it
  does not wait for an approval, approving it is refused and changes nothing.
\<close>

lemma run_way:
  assumes "start_run S sc ins b adv q corr s = (Inr r, s')"
  shows "\<exists>d. sk_decision (rn_state r) = Some d \<and> rn_status r = snd (ending d) \<and> trail transitions (rn_steps r) = way_to d \<and>
    (offline S \<longrightarrow> length (tool_calls (Some ''propose_payment_intent'') (rn_steps r)) = 1) \<and>
    (d \<noteq> ''REQUIRE_APPROVAL'' \<longrightarrow> (\<exists>m. approve_and_resume S (rn_run_id r) s' = (Inl (SimulatorError ''RUN_NOT_AWAITING_APPROVAL'' m), s')))"
proof -
  have pay: "offline S \<Longrightarrow> length (tool_calls (Some ''propose_payment_intent'') (rn_steps r)) = 1"
    using assms by (elim start_run_InrE [where Q = payments]) (auto simp: payments_are_calls [symmetric] dest!: invoke_pays_once)
  from assms show ?thesis
  proof (rule start_run_InrE [where Q = transitions])
    fix D st0 s1 s2
    assume t: "trail transitions (sm_steps s1) = []" and i: "invoke_from S D Search st0 s1 = (Inr (rn_state r), s2)"
      "trail transitions (rn_steps r) = trail transitions (sm_steps s2)"
      and m: "map_of (sm_runs s') (rn_run_id r) = Some r"
      and st: "rn_status r = (if sk_decision (rn_state r) = Some ''REQUIRE_APPROVAL'' then ''awaiting_approval''
       else if sk_status (rn_state r) = '''' then ''running'' else sk_status (rn_state r))"
    from invoke_way [OF i(1)] obtain d where d: "sk_decision (rn_state r) = Some d" "sk_status (rn_state r) = snd (ending d)"
      "trail transitions (sm_steps s2) = trail transitions (sm_steps s1) @ way_to d" by blast
    have e: "rn_status r = snd (ending d)" using st d by (simp add: ending_def)
    have "\<exists>x. approve_and_resume S (rn_run_id r) s' = (Inl (SimulatorError ''RUN_NOT_AWAITING_APPROVAL'' x), s')" if "d \<noteq> ''REQUIRE_APPROVAL''"
      using that e by (simp add: approve_and_resume_def get_run_def bindE_def m ending_def)
    with d e t i pay show ?thesis by simp
  qed simp
qed

section \<open>An honest run that cannot succeed\<close>

lemma colombian_run_fails: "isl (fst (start_run S sc ''Buy Colombian'' b False q corr s))"
proof -
  have "fst (start_run S sc ''Buy Colombian'' b False q corr s) \<noteq> Inr r" for r
  proof
    assume "fst (start_run S sc ''Buy Colombian'' b False q corr s) = Inr r"
    then have "start_run S sc ''Buy Colombian'' b False q corr s = (Inr r, snd (start_run S sc ''Buy Colombian'' b False q corr s))"
      by (metis prod.collapse)
    then show False
    proof (rule start_run_InrE [where Q = payments])
      fix D st0 s1 s2
      assume "invoke_from S D Search st0 s1 = (Inr (rn_state r), s2)" and d: "dp_adversarial D = False" "sk_instruction st0 = ''Buy Colombian''"
      then obtain st1 s3 where "search_node S D st0 s1 = (Inr st1, s3)" by (auto elim!: invoke_nodes)
      then show False unfolding search_node_def d colombian_crashes by (auto elim!: thenE_InrE)
    qed simp
  qed
  then show ?thesis unfolding isl_def by (metis sum.exhaust)
qed

section \<open>What the graph asks for\<close>

lemma two_digits: "n < 100 \<Longrightarrow> length (pad0 2 (str_nat n)) = 2"
proof -
  assume n: "n < 100"
  have "length (str_nat m) = 1" if "m < 10" for m using that by (simp add: str_nat.simps [of m])
  then have "length (str_nat n) \<in> {1, 2}" using n by (simp add: str_nat.simps [of n])
  then show ?thesis by (auto simp: pad0_def)
qed

lemma parse_fixed_2:
  assumes "x * 100 = real n"
  shows "parse_decimal (fixed_2 x) = Some \<lparr>coeff = int n, dexp = -2\<rparr>"
proof -
  let ?ip = "str_nat (n div 100)" and ?fp = "pad0 2 (str_nat (n mod 100))"
  have pad: "?fp = zeros (2 - length (str_nat (n mod 100))) @ str_nat (n mod 100)" by (simp add: pad0_def zeros_def)
  have fp: "list_all is_digit ?fp" "digits_nat ?fp = n mod 100"
    unfolding pad using str_nat_all_digits zeros_digits by (simp_all add: digits_nat_append digits_nat_zeros)
  have l: "length ?fp = 2" by (simp add: two_digits)
  have ip: "?ip \<noteq> []" "list_all is_digit ?ip" using str_nat_all_digits by auto
  have pl: "plain (?ip @ [])" using ip by (auto simp: plain_def list_all_iff)
  have e: "fixed_2 x = (if False then ''-'' else '''') @ ?ip @ (if True then CHR ''.'' # ?fp @ [] else [])"
    using round_half_even_int [of "int n"] by (simp add: fixed_2_def assms Let_def)
  have d: "digits_nat (?ip @ ?fp) = n" using fp l by (simp add: digits_nat_append)
  show ?thesis unfolding e using parse_decimal_parts [OF ip fp(1) refl, of True "[]" 0 False] pl d l by (simp add: parse_exp_def)
qed

lemma catalog_prices:
  assumes "p \<in> set CATALOG"
  obtains n where "parse_decimal (pd_unit_price p) = Some \<lparr>coeff = int n, dexp = -2\<rparr>" "price_of p = real n / 100"
proof -
  have "parse_decimal (pd_unit_price ethiopian) = Some \<lparr>coeff = 125000, dexp = -2\<rparr>"
    "parse_decimal (pd_unit_price paper) = Some \<lparr>coeff = 35000, dexp = -2\<rparr>"
    "parse_decimal (pd_unit_price colombian) = Some \<lparr>coeff = 240000, dexp = -2\<rparr>"
    by (simp_all add: parse_decimal_def strip_def lstrip_def rstrip_def is_space_def is_digit_def take_sign_def parse_exp_def digits_nat_def
        ethiopian_def paper_def colombian_def)
  with assms have "\<exists>k \<ge> 0. parse_decimal (pd_unit_price p) = Some \<lparr>coeff = k, dexp = -2\<rparr>"
    by (auto simp: CATALOG_def)
  then obtain k where k: "0 \<le> k" "parse_decimal (pd_unit_price p) = Some \<lparr>coeff = k, dexp = -2\<rparr>" by blast
  then show thesis by (intro that [of "nat k"]) (simp_all add: price_of_def dec_val_def)
qed

lemma search_picks:
  assumes "search_node S D st s = (Inr st1, s1)"
  obtains p where "p \<in> set CATALOG" "sk_chosen_sku st1 = Some (pd_sku p)" "sk_page_content st1 = Some (page_of S (pd_page_url p))"
    "sk_merchant_id st1 = Some (pd_merchant_id p)" "sk_source_type st1 = Some (pd_source_type p)"
    "dp_adversarial D \<longleftrightarrow> p = colombian"
proof -
  obtain p ps where p: "search_catalog (sk_instruction st) (dp_adversarial D) = p # ps"
    using assms by (cases "search_catalog (sk_instruction st) (dp_adversarial D)") (auto simp: search_node_def elim!: thenE_InrE)
  then have c: "p \<in> set CATALOG" using search_in_catalog [of p "sk_instruction st" "dp_adversarial D"] by simp
  have "dp_adversarial D \<longleftrightarrow> p = colombian"
    using p adversarial_search [of "sk_instruction st"] honest_search [of p "sk_instruction st"]
    by (cases "dp_adversarial D") (auto simp: colombian_def)
  with assms p c that show thesis by (auto simp: search_node_def Let_def elim!: thenE_InrE bindE_InrE)
qed

lemma cart_adds_up:
  assumes "build_cart S D st1 t = (Inr st2, t1)" "sk_chosen_sku st1 = Some (pd_sku p)" "p \<in> set CATALOG"
  obtains q where "0 < q" "st2 = st1\<lparr>sk_cart := Some [cart_line p q], sk_total := Some (fixed_2 (price_of p * real q)),
    sk_currency := Some ''INR'', sk_review_verdict := sk_review_verdict st2\<rparr>"
proof -
  from assms show thesis
    by (intro that [of "if sk_requested_quantity st1 = 0 then 1 else sk_requested_quantity st1"])
      (auto simp: build_cart_def chosen_product_def need_def catalog_facts Let_def elim!: thenE_InrE bindE_InrE)
qed

lemma intent_of_catalog:
  assumes "search_node S D st s = (Inr st1, s1)" "build_cart S D st1 t = (Inr st2, t1)" "payment_of st2 tok u = (Inr a, u1)"
    "intent_of (se_settings S) k a = Some x"
  obtains p q price where "p \<in> set CATALOG" "dp_adversarial D \<longleftrightarrow> p = colombian" "0 < q" "parse_decimal (pd_unit_price p) = Some price"
    "pi_items x = [\<lparr>sku = pd_sku p, item_name = pd_name p, quantity = int q, unit_price = price\<rparr>]"
    "dec_val (pi_amount x) = real q * dec_val price" "pi_currency x = ''INR''" "pi_merchant_id x = pd_merchant_id p"
    "mc_text (pi_merchant_content x) = page_of S (pd_page_url p)" "mc_source_type (pi_merchant_content x) = pd_source_type p"
proof -
  from assms(1) obtain p where p: "p \<in> set CATALOG" "sk_chosen_sku st1 = Some (pd_sku p)" "sk_page_content st1 = Some (page_of S (pd_page_url p))"
    "sk_merchant_id st1 = Some (pd_merchant_id p)" "sk_source_type st1 = Some (pd_source_type p)" "dp_adversarial D \<longleftrightarrow> p = colombian"
    by (rule search_picks)
  from assms(2) p(2,1) obtain q where q: "0 < q" "st2 = st1\<lparr>sk_cart := Some [cart_line p q], sk_total := Some (fixed_2 (price_of p * real q)),
    sk_currency := Some ''INR'', sk_review_verdict := sk_review_verdict st2\<rparr>" by (rule cart_adds_up)
  from p(1) obtain n where n: "parse_decimal (pd_unit_price p) = Some \<lparr>coeff = int n, dexp = -2\<rparr>" "price_of p = real n / 100"
    by (rule catalog_prices)
  have f: "sk_merchant_id st2 = sk_merchant_id st1" "sk_total st2 = Some (fixed_2 (price_of p * real q))" "sk_cart st2 = Some [cart_line p q]"
    "sk_currency st2 = Some ''INR''" "sk_page_content st2 = sk_page_content st1" "sk_source_type st2 = sk_source_type st1"
    by (subst q(2); simp)+
  have a: "pg_merchant_id a = pd_merchant_id p" "pg_amount a = fixed_2 (price_of p * real q)" "pg_items a = [cart_line p q]" "pg_currency a = ''INR''"
    "pg_merchant_content a = page_of S (pd_page_url p)" "pg_source_type a = pd_source_type p"
    using assms(3) f p by (auto simp: payment_of_def need_def or_else_def)
  have "parse_decimal (pg_amount a) = Some \<lparr>coeff = int (n * q), dexp = -2\<rparr>"
    unfolding a by (rule parse_fixed_2) (simp add: n)
  moreover have "item_of (cart_line p q) = Some \<lparr>sku = pd_sku p, item_name = pd_name p, quantity = int q, unit_price = \<lparr>coeff = int n, dexp = -2\<rparr>\<rparr>"
    by (simp add: item_of_def cart_line_def n)
  moreover have "upper ''INR'' = ''INR''" by code_simp
  ultimately show thesis using assms(4) a p q(1) n by (intro that [of p q "\<lparr>coeff = int n, dexp = -2\<rparr>"]) (auto simp: intent_of_def dec_val_def)
qed

end
