(* ===== verification/Bot.thy ===== *)
theory Bot
  imports Runs
begin

text \<open>
  The Telegram bot: \<open>telegram_bot/handlers.py\<close>, \<open>backend.py\<close>, \<open>api.py\<close> and the loops of \<open>main.py\<close> and
  \<open>webapp.py\<close>. It talks to Telegram, to the control plane and to the agent's service, here to their
  models; each of its calls may fail. Its messages hold characters outside ASCII, so a message is a
  constructor that carries the values inserted into it.
\<close>

section \<open>Messages\<close>

definition esc :: "string \<Rightarrow> string" where
  "esc s = concat (map (\<lambda>c. if c = CHR ''&'' then ''&amp;'' else if c = CHR ''<'' then ''&lt;'' else if c = CHR ''>'' then ''&gt;''
     else if c = CHR 34 then ''&quot;'' else if c = CHR 39 then ''&#x27;'' else [c]) s)"

text \<open>\<open>_money\<close>: with the symbol of a known currency in front, or the code behind.\<close>

datatype money_text = WithSymbol string string | WithCode string string

definition money_of :: "string \<Rightarrow> string \<Rightarrow> money_text" where
  "money_of amount currency = (if upper currency \<in> {''INR'', ''USD'', ''EUR'', ''GBP''} then WithSymbol (upper currency) (esc amount)
     else WithCode (esc amount) (esc currency))"

record cart_text =
  cx_lines :: "(string \<times> string \<times> money_text) list"
  cx_total :: money_text
  cx_merchant :: string
  cx_source :: "string option"

datatype bot_text = NotOpen | Welcome | HelpText | LinkedTo string | CouldNotLink string | NotLinked | StatusText string | Working
  | RunFailed string | NoCart | CartText cart_text | BlockText string "(bool \<times> nat) option" string | Attempted money_text string
  | ApprovalText string | PaidText string string string | Unexpected string string | Denied | Approving | ApprovalFailed string

type_synonym button = "string \<times> string" \<comment> \<open>text and callback data\<close>

section \<open>State\<close>

datatype telegram_answer = Accepted | Refused | Broken

record bot_settings =
  bs_bot_username :: string
  bs_admin_api_key :: string
  bs_allowlist :: "string list"
  bs_default_budget :: string
  bs_secret_path :: string

record bot_env =
  be_shop :: sim_env
  be_settings :: bot_settings
  be_net :: "nat \<Rightarrow> net_fault"
  be_telegram :: "nat \<Rightarrow> telegram_answer"

record outgoing =
  og_chat :: "int option"
  og_texts :: "bot_text list"
  og_buttons :: "button list"

record bot =
  bo_sim :: sim
  bo_sent :: "outgoing list"
  bo_calls :: nat
  bo_requests :: nat

type_synonym 'a bact = "(bot, sim_exn, 'a) prog"

section \<open>Calls\<close>

text \<open>\<open>_call\<close>: a refusal is logged and answered \<open>None\<close>; a broken connection raises.\<close>

definition telegram_call :: "bot_env \<Rightarrow> (bot \<Rightarrow> bot) \<Rightarrow> unit bact" where
  "telegram_call B f = (\<lambda>s. let s1 = s\<lparr>bo_calls := Suc (bo_calls s)\<rparr> in case be_telegram B (bo_calls s) of
       Accepted \<Rightarrow> (Inr (), f s1) | Refused \<Rightarrow> (Inr (), s1) | Broken \<Rightarrow> (Inl (HttpxError ''ConnectError'' ''''), s1))"

definition send_message :: "bot_env \<Rightarrow> int option \<Rightarrow> bot_text list \<Rightarrow> button list \<Rightarrow> unit bact" where
  "send_message B chat texts buttons = telegram_call B (\<lambda>s. s\<lparr>bo_sent := bo_sent s @ [\<lparr>og_chat = chat, og_texts = texts, og_buttons = buttons\<rparr>]\<rparr>)"

definition answer_callback_query :: "bot_env \<Rightarrow> unit bact" where
  "answer_callback_query B = telegram_call B (\<lambda>s. s)"

text \<open>A request to a service, which answers it by running \<open>serve\<close> on the simulator's process and world.\<close>

definition later_by :: "real \<Rightarrow> sim \<Rightarrow> sim" where
  "later_by d t = t\<lparr>sm_world := (sm_world t)\<lparr>now := now (sm_world t) + max 0 d\<rparr>\<rparr>"

definition service_call :: "bot_env \<Rightarrow> (sim \<Rightarrow> 'r \<times> sim) \<Rightarrow> 'r bact" where
  "service_call B serve = (\<lambda>s. let s1 = s\<lparr>bo_requests := Suc (bo_requests s)\<rparr> in case be_net B (bo_requests s) of
       LostRequest \<Rightarrow> (Inl (HttpxError ''ConnectError'' ''''), s1)
     | LostReply \<Rightarrow> (Inl (HttpxError ''ReadTimeout'' ''''), s1\<lparr>bo_sim := snd (serve (bo_sim s))\<rparr>)
     | Delivered d \<Rightarrow> (case serve (bo_sim s) of (r, t) \<Rightarrow> (Inr r, s1\<lparr>bo_sim := later_by d t\<rparr>)))"

definition control_call :: "bot_env \<Rightarrow> admin_request \<Rightarrow> (exn + admin_reply) bact" where
  "control_call B req = service_call B (\<lambda>t. case serve_admin (se_services (be_shop B)) (Some (bs_admin_api_key (be_settings B)))
       (Some ''telegram-bot'') req (sm_world t) of (r, w) \<Rightarrow> (r, t\<lparr>sm_world := w\<rparr>))"

section \<open>The backend\<close>

definition tid_text :: "int option \<Rightarrow> string" where
  "tid_text tid = (case tid of None \<Rightarrow> ''None'' | Some i \<Rightarrow> str_int i)"

definition whoami :: "bot_env \<Rightarrow> int option \<Rightarrow> string option bact" where
  "whoami B tid = bindE (control_call B (TelegramWhoami (tid_text tid))) (\<lambda>r.
     ret (case r of Inr (Account u) \<Rightarrow> u | _ \<Rightarrow> None))"

text \<open>An answer that is not 200 carries a JSON detail, but for a bare 500, whose text is not JSON. (The detail of a 422 is a
  list of the framework's, shown as it is.)\<close>

definition link_code :: "bot_env \<Rightarrow> string \<Rightarrow> int option \<Rightarrow> (bool \<times> string) bact" where
  "link_code B code tid = bindE (control_call B (TelegramLink (upper (strip code)) (tid_text tid))) (\<lambda>r. case r of
       Inr (Linked user masked) \<Rightarrow> ret (True, user)
     | Inr _ \<Rightarrow> ret (True, '''')
     | Inl (HttpError status detail) \<Rightarrow> ret (False, detail)
     | Inl _ \<Rightarrow> raise (PyError ''JSONDecodeError'' ''''))"

text \<open>The simulator's answer: 200, or an error status that \<open>raise_for_status\<close> raises.\<close>

definition agent_call :: "bot_env \<Rightarrow> 'a sact \<Rightarrow> 'a bact" where
  "agent_call B m = bindE (service_call B m) (\<lambda>r. case r of Inr x \<Rightarrow> ret x | Inl _ \<Rightarrow> raise (HttpxError ''HTTPStatusError'' ''''))"

type_synonym injection = "string \<times> nat \<times> bool"

definition run_body :: "string \<Rightarrow> string \<Rightarrow> sim_request" where
  "run_body instruction budget = \<lparr>sr_instruction = instruction, sr_budget = budget, sr_quantity = None, sr_correlation_id = None\<rparr>"

definition checked :: "sim_request \<Rightarrow> 'a sact \<Rightarrow> 'a sact" where
  "checked b m = (if sim_request_ok b then m else raise (PyError ''RequestValidationError'' ''''))"

definition run_agent :: "bot_env \<Rightarrow> bool \<Rightarrow> string \<Rightarrow> string \<Rightarrow> (run_summary \<times> injection option) bact" where
  "run_agent B adversarial instruction budget = (let b = run_body instruction budget in
     agent_call B (checked b (if adversarial then bindE (adversarial_route (be_shop B) b) (\<lambda>(summary, injection). ret (summary, Some injection))
       else bindE (clean_purchase (be_shop B) b) (\<lambda>summary. ret (summary, None)))))"

text \<open>A run id that is no single path segment names no route. (The bot's own buttons carry ids without escapes.)\<close>

definition segment :: "string \<Rightarrow> bool" where "segment i \<longleftrightarrow> i \<noteq> [] \<and> set i \<inter> set ''/?#'' = {}"

definition approve_run :: "bot_env \<Rightarrow> string \<Rightarrow> run_summary bact" where
  "approve_run B i = agent_call B (if segment i then approve_route (be_shop B) i else raise (PyError ''NotFound'' ''''))"

section \<open>Formatting\<close>

definition cart_from_summary :: "run_summary \<Rightarrow> step_detail option" where
  "cart_from_summary u = map_option tp_detail (List.find (\<lambda>x. tp_name x = ''propose_payment_intent'' \<and> tp_kind x = TOOL_CALL) (su_steps u))"

text \<open>\<open>if not cart\<close>: an empty one counts as none.\<close>

definition cart_of :: "run_summary \<Rightarrow> step_detail option" where
  "cart_of u = (if cart_from_summary u = Some (Fields []) then None else cart_from_summary u)"

text \<open>\<open>str(d.get(k))\<close>.\<close>

definition text_at :: "(real \<Rightarrow> string) \<Rightarrow> string \<Rightarrow> step_detail \<Rightarrow> string" where
  "text_at frepr k d = py_str frepr (case detail_get k d of None \<Rightarrow> JNull | Some j \<Rightarrow> j)"

definition currency_at :: "(real \<Rightarrow> string) \<Rightarrow> step_detail \<Rightarrow> string" where
  "currency_at frepr d = (case detail_get ''currency'' d of None \<Rightarrow> ''INR'' | Some j \<Rightarrow> py_str frepr j)"

definition cart_oneline :: "(real \<Rightarrow> string) \<Rightarrow> run_summary \<Rightarrow> bot_text list" where
  "cart_oneline frepr u = (case cart_of u of None \<Rightarrow> []
     | Some d \<Rightarrow> [Attempted (money_of (text_at frepr ''amount'' d) (currency_at frepr d)) (esc (text_at frepr ''merchant_id'' d))])"

definition item_text :: "(real \<Rightarrow> string) \<Rightarrow> string \<Rightarrow> json \<Rightarrow> string \<times> string \<times> money_text" where
  "item_text frepr ccy j = (let d = Fields (case j of JObj fs \<Rightarrow> fs | _ \<Rightarrow> []) in
     (esc (text_at frepr ''name'' d), esc (text_at frepr ''quantity'' d), money_of (text_at frepr ''unit_price'' d) ccy))"

definition format_cart :: "(real \<Rightarrow> string) \<Rightarrow> run_summary \<Rightarrow> bot_text" where
  "format_cart frepr u = (case cart_of u of None \<Rightarrow> NoCart
     | Some d \<Rightarrow> (let ccy = currency_at frepr d in CartText
         \<lparr>cx_lines = map (item_text frepr ccy) (case detail_get ''items'' d of Some (JList js) \<Rightarrow> js | _ \<Rightarrow> []),
          cx_total = money_of (text_at frepr ''amount'' d) ccy, cx_merchant = esc (text_at frepr ''merchant_id'' d),
          cx_source = (case detail_get ''merchant_source_type'' d of Some (JStr x) \<Rightarrow> if x = '''' then None else Some (esc x) | _ \<Rightarrow> None)\<rparr>))"

definition audit_short :: "run_summary \<Rightarrow> string" where
  "audit_short u = esc (take 16 (case Option.bind (su_sentinel u) rsp_audit_hash of None \<Rightarrow> '''' | Some h \<Rightarrow> h))"

definition format_decision :: "run_summary \<times> injection option \<Rightarrow> bot_text \<times> button list" where
  "format_decision = (\<lambda>(u, injection). let reasons = (if su_reason_codes u = [] then em_dash else join '', '' (su_reason_codes u)) in
     if su_decision u = Some ''BLOCK'' then
       (BlockText (esc reasons) (map_option (\<lambda>(digest, chars, reached). (reached, chars)) injection) (audit_short u), [])
     else if su_decision u = Some ''REQUIRE_APPROVAL'' then
       (ApprovalText (esc reasons), [(''Approve'', ''approve:'' @ su_run_id u), (''Deny'', ''deny:'' @ su_run_id u)])
     else if su_decision u = Some ''ALLOW'' then
       (PaidText (esc (case su_sentinel u of None \<Rightarrow> ''None'' | Some r \<Rightarrow> state_str (rsp_state r)))
          (esc (case Option.bind (su_sentinel u) rsp_provider_reference of None \<Rightarrow> em_dash | Some x \<Rightarrow> if x = '''' then em_dash else x))
          (audit_short u), [])
     else (Unexpected (esc (case su_decision u of None \<Rightarrow> ''None'' | Some d \<Rightarrow> d)) (esc reasons), []))"

section \<open>Handlers\<close>

record message =
  ms_chat :: int
  ms_from :: "int option"
  ms_text :: "string option"

record callback =
  ck_chat :: "int option"
  ck_data :: string

text \<open>The pattern of a link code, on a stripped text.\<close>

definition is_link :: "string \<Rightarrow> bool" where
  "is_link t \<longleftrightarrow> upper (take 5 t) = ''LINK-'' \<and> 4 \<le> length (drop 5 t) \<and>
     list_all (\<lambda>c. is_digit c \<or> upper_char c \<in> set ''ABCDEFGHIJKLMNOPQRSTUVWXYZ'') (drop 5 t)"

definition starts :: "string \<Rightarrow> string \<Rightarrow> bool" where "starts p t \<longleftrightarrow> prefix p t"

definition demo_instruction :: string where
  "demo_instruction = ''Restock the office kitchen with coffee. Keep it under 5000 rupees.''"

text \<open>The run a linked chat asks for; its failure is reported, never made up.\<close>

definition run_for_chat :: "bot_env \<Rightarrow> int option \<Rightarrow> string \<Rightarrow> unit bact" where
  "run_for_chat B chat t = (let adversarial = starts ''/attack'' t; send = send_message B chat; frepr = e_frepr (se_services (be_shop B)) in
     thenE (send [Working] [])
     (bindE (tryE (run_agent B adversarial (if adversarial then demo_instruction else t) (bs_default_budget (be_settings B)))) (\<lambda>r. case r of
         Inl e \<Rightarrow> send [RunFailed (esc (exn_text e))] []
       | Inr (u, injection) \<Rightarrow> (case format_decision (u, injection) of (out, buttons) \<Rightarrow>
           if su_decision u = Some ''BLOCK'' then send (out # cart_oneline frepr u) buttons
           else thenE (send [format_cart frepr u] []) (send [out] buttons)))))"

definition handle_message :: "bot_env \<Rightarrow> message \<Rightarrow> unit bact" where
  "handle_message B m = (let chat = Some (ms_chat m); tid = ms_from m; t = strip (case ms_text m of None \<Rightarrow> '''' | Some x \<Rightarrow> x);
       c = be_settings B; send = send_message B chat in
     if t = '''' then ret ()
     else if bs_allowlist c \<noteq> [] \<and> tid_text tid \<notin> set (bs_allowlist c) then send [NotOpen] []
     else if t = ''/start'' \<or> t = ''/start@'' @ bs_bot_username c then send [Welcome] []
     else if starts ''/help'' t then send [HelpText] []
     else if is_link t then bindE (link_code B t tid) (\<lambda>(ok, detail). send [if ok then LinkedTo (esc detail) else CouldNotLink (esc detail)] [])
     else bindE (whoami B tid) (\<lambda>user.
       if \<not> nonempty user then send [NotLinked] []
       else if starts ''/status'' t then send [StatusText (esc (the user))] []
       else run_for_chat B chat t))"

text \<open>\<open>data.partition(colon)\<close>.\<close>

definition callback_action :: "string \<Rightarrow> string \<times> string" where
  "callback_action d = (takeWhile (\<lambda>c. c \<noteq> CHR '':'') d, drop 1 (dropWhile (\<lambda>c. c \<noteq> CHR '':'') d))"

definition handle_callback :: "bot_env \<Rightarrow> callback \<Rightarrow> unit bact" where
  "handle_callback B q = (let send = send_message B (ck_chat q) in thenE (answer_callback_query B)
     (case callback_action (ck_data q) of (act, i) \<Rightarrow>
       if act = ''deny'' then send [Denied] []
       else if act = ''approve'' then thenE (send [Approving] [])
         (bindE (tryE (approve_run B i)) (\<lambda>r. case r of
             Inl e \<Rightarrow> send [ApprovalFailed (esc (exn_text e))] []
           | Inr u \<Rightarrow> send [fst (format_decision (u, None))] []))
       else ret ()))"

datatype update = Message message | Callback callback | OtherUpdate

fun handle_update :: "bot_env \<Rightarrow> update \<Rightarrow> unit bact" where
  "handle_update B (Message m) = handle_message B m"
| "handle_update B (Callback q) = handle_callback B q"
| "handle_update B OtherUpdate = ret ()"

section \<open>The loops\<close>

text \<open>One answer of \<open>getUpdates\<close>: the offset moves past each update, an exception of its handler is logged.\<close>

fun poll_batch :: "bot_env \<Rightarrow> int \<Rightarrow> (int \<times> update) list \<Rightarrow> int bact" where
  "poll_batch B offset [] = ret offset"
| "poll_batch B offset ((i, u) # us) = thenE (tryE (handle_update B u)) (poll_batch B (max offset (i + 1)) us)"

definition webhook :: "bot_env \<Rightarrow> string \<Rightarrow> update \<Rightarrow> nat bact" where
  "webhook B path u = (if path \<noteq> bs_secret_path (be_settings B) then ret 404 else thenE (tryE (handle_update B u)) (ret 200))"

end
