(* ===== verification/Chat.thy ===== *)
theory Chat
  imports Bot Trails
begin

text \<open>
  What a chat can do to the money: a message pays only for a chat that is allowed and linked, within
  the limits of the demo's policy; an approve button pays for anyone who has it.
\<close>

section \<open>What the bot's calls keep\<close>

definition bot_keeps :: "(sim \<Rightarrow> 'b) \<Rightarrow> bot \<Rightarrow> bot \<Rightarrow> bool" where
  "bot_keeps g s s' \<longleftrightarrow> g (bo_sim s') = g (bo_sim s)"

interpretation bot_frame: evolution "bot_keeps g" for g :: "sim \<Rightarrow> 'b"
  by unfold_locales (simp_all add: bot_keeps_def)

lemma bot_keeps_send: "evolves (bot_keeps g) (send_message B c ts bs)" "evolves (bot_keeps g) (answer_callback_query B)"
  by (auto simp: evolves_def bot_keeps_def send_message_def answer_callback_query_def telegram_call_def Let_def split: telegram_answer.split)

lemma bot_keeps_call:
  assumes "\<And>t. g (snd (serve t)) = g t" "\<And>d t. g (later_by d t) = g t"
  shows "evolves (bot_keeps g) (service_call B serve)"
  using assms by (auto simp: evolves_def bot_keeps_def service_call_def Let_def split: net_fault.split prod.split) (metis snd_conv)

definition money :: "sim \<Rightarrow> provider_state" where "money t = provider (sm_world t)"

lemma money_later [simp]: "money (later_by d t) = money t" by (simp add: money_def later_by_def)

lemma control_keeps_money: "evolves (bot_keeps money) (control_call B req)"
  unfolding control_call_def
proof (rule bot_keeps_call)
  show "money (snd (case serve_admin E k i req (sm_world t) of (r, w) \<Rightarrow> (r, t\<lparr>sm_world := w\<rparr>))) = money t" for t E k i
    using evolvesD [OF keeps_admin [of provider E k i req], of "sm_world t"]
    by (cases "serve_admin E k i req (sm_world t)") (simp add: money_def keeps_def)
qed simp

lemma whoami_keeps_money: "evolves (bot_keeps money) (whoami B tid)"
  unfolding whoami_def by (intro bot_frame.ev_rules control_keeps_money)

lemma link_keeps_money: "evolves (bot_keeps money) (link_code B c tid)"
  unfolding link_code_def by (auto intro!: bot_frame.ev_rules control_keeps_money split: sum.split admin_reply.split exn.split)

section \<open>Who is linked\<close>

definition chat_linked :: "database \<Rightarrow> string \<Rightarrow> bool" where
  "chat_linked d tid \<longleftrightarrow> (\<exists>l \<in> set (tg_links d). tl_telegram_id l = strip tid)"

lemma whoami_admin_keeps_db: "db (snd (serve_admin E k i (TelegramWhoami t) w)) = db w"
proof -
  have "evolves (keeps db) (admin_route E a (TelegramWhoami t))" for a
    by (simp add: mapE_def resolve_user_def)
      (intro frame.ev_rules, simp add: evolves_def keeps_def session_scope_def db_get_def Let_def)
  then show ?thesis using evolvesD [of "keeps db"]
    by (cases rule: serve_admin_cases [of E k i "TelegramWhoami t" w]) (fastforce simp: keeps_def)+
qed

lemma whoami_linked:
  assumes "whoami B tid s = (Inr user, s')"
  shows "db (sm_world (bo_sim s')) = db (sm_world (bo_sim s)) \<and> (nonempty user \<longrightarrow> chat_linked (db (sm_world (bo_sim s))) (tid_text tid))"
proof -
  let ?w = "sm_world (bo_sim s)"
  let ?r = "serve_admin (se_services (be_shop B)) (Some (bs_admin_api_key (be_settings B))) (Some ''telegram-bot'') (TelegramWhoami (tid_text tid)) ?w"
  from assms have d: "db (sm_world (bo_sim s')) = db (snd ?r)" and u: "user = (case fst ?r of Inr (Account u) \<Rightarrow> u | _ \<Rightarrow> None)"
    by (auto simp: whoami_def control_call_def service_call_def bindE_def Let_def later_by_def split: net_fault.splits prod.splits)
  have "chat_linked (db ?w) (tid_text tid)" if n: "nonempty user"
  proof -
    from n u obtain x w where "?r = (Inr (Account (Some x)), w)"
      by (cases ?r) (auto simp: nonempty_def split: sum.splits admin_reply.splits option.splits)
    then have "\<exists>v. resolve_user (se_services (be_shop B)) (tid_text tid) ?w = (Inr (Some x), v)"
      by (auto elim!: serve_admin_InrE bindE_InrE simp: mapE_def)
    then show ?thesis
      by (auto simp: resolve_user_def session_commit db_get_def chat_linked_def find_Some_iff)
  qed
  with d whoami_admin_keeps_db show ?thesis by simp
qed

section \<open>A run for a chat\<close>

lemma snd_bind_ret: "snd (bindE m (\<lambda>x. ret (f x)) s) = snd (m s)"
  by (auto simp: bindE_def split: prod.split sum.split)

lemma snd_bind_pair: "snd (bindE m (\<lambda>(x, y). ret (f x y)) s) = snd (m s)"
  using snd_bind_ret [of m "\<lambda>p. f (fst p) (snd p)" s] by (simp add: case_prod_unfold)

lemma service_changed:
  assumes "money (bo_sim (snd (service_call B serve s))) \<noteq> money (bo_sim s)"
  shows "money (snd (serve (bo_sim s))) \<noteq> money (bo_sim s)"
  using assms by (auto simp: service_call_def Let_def split: net_fault.splits prod.splits)

lemma agent_call_snd: "bo_sim (snd (agent_call B m s)) = bo_sim (snd (service_call B m s))"
  by (auto simp: agent_call_def bindE_def split: prod.split sum.split)

lemma run_agent_changed:
  assumes "money (bo_sim (snd (run_agent B adv ins b s))) \<noteq> money (bo_sim s)"
  shows "\<exists>sc q corr. money (snd (start_run (be_shop B) sc ins b adv q corr (bo_sim s))) \<noteq> money (bo_sim s)"
proof -
  let ?b = "run_body ins b"
  let ?m = "checked ?b (if adv then bindE (adversarial_route (be_shop B) ?b) (\<lambda>(summary, injection). ret (summary, Some injection))
       else bindE (clean_purchase (be_shop B) ?b) (\<lambda>summary. ret (summary, None)))"
  from assms have "money (snd (?m (bo_sim s))) \<noteq> money (bo_sim s)"
    by (intro service_changed [of B]) (simp add: run_agent_def Let_def agent_call_snd)
  moreover have "snd (?m t) = t \<or> (\<exists>sc q corr. snd (?m t) = snd (start_run (be_shop B) sc ins b adv q corr t))" for t
    by (auto simp: checked_def snd_bind_ret snd_bind_pair adversarial_route_def clean_purchase_def simulate_def run_body_def Let_def)
  ultimately show ?thesis by metis
qed

lemma run_for_chat_changed:
  assumes "opa_faithful (se_services (be_shop B))" "money (bo_sim (snd (run_for_chat B chat t s))) \<noteq> money (bo_sim s)"
  shows "within_seed (be_shop B) (db (sm_world (bo_sim s)))"
proof -
  let ?g = "\<lambda>s. money (bo_sim s)"
  let ?adv = "starts ''/attack'' t"
  have send: "bo_sim (snd (send_message B c ts bs s)) = bo_sim s" for c ts bs s
    using evolvesD [OF bot_keeps_send(1) [of "\<lambda>t. t" B c ts bs], of s] by (simp add: bot_keeps_def)
  from assms(2) obtain u s1 where 1: "send_message B chat [Working] [] s = (Inr u, s1)"
    and c: "?g (snd (bindE (tryE (run_agent B ?adv (if ?adv then demo_instruction else t) (bs_default_budget (be_settings B)))) (\<lambda>r. case r of
         Inl e \<Rightarrow> send_message B chat [RunFailed (esc (exn_text e))] []
       | Inr (u, injection) \<Rightarrow> (case format_decision (u, injection) of (out, buttons) \<Rightarrow>
           if su_decision u = Some ''BLOCK'' then send_message B chat (out # cart_oneline (e_frepr (se_services (be_shop B))) u) buttons
           else thenE (send_message B chat [format_cart (e_frepr (se_services (be_shop B))) u] []) (send_message B chat [out] buttons)))
         s1)) \<noteq> ?g s1"
    unfolding run_for_chat_def Let_def
    by (elim changed_in_then [where g = "?g", rotated]) (auto simp: send)
  have quiet: "bo_sim (snd ((case r of
         Inl e \<Rightarrow> send_message B chat [RunFailed (esc (exn_text e))] []
       | Inr (u, injection) \<Rightarrow> (case format_decision (u, injection) of (out, buttons) \<Rightarrow>
           if su_decision u = Some ''BLOCK'' then send_message B chat (out # cart_oneline (e_frepr (se_services (be_shop B))) u) buttons
           else thenE (send_message B chat [format_cart (e_frepr (se_services (be_shop B))) u] []) (send_message B chat [out] buttons))) v)) = bo_sim v" for r v
    using evolvesD [OF bot_frame.ev_then [OF bot_keeps_send(1) bot_keeps_send(1), of "\<lambda>t. t" B], of v]
    by (auto simp: send bot_keeps_def split: sum.split prod.split)
  have "?g (snd (run_agent B ?adv (if ?adv then demo_instruction else t) (bs_default_budget (be_settings B)) s1)) \<noteq> ?g s1"
    using c by (auto simp: bindE_def tryE_def quiet split: prod.splits)
  then obtain sc ins b adv q corr where "money (snd (start_run (be_shop B) sc ins b adv q corr (bo_sim s1))) \<noteq> money (bo_sim s1)"
    using run_agent_changed by blast
  moreover have "bo_sim s1 = bo_sim s" using send [of chat "[Working]" "[]" s] 1 by simp
  ultimately show ?thesis using run_within_seed [OF assms(1)] by (simp add: money_def)
qed

section \<open>Messages and buttons\<close>

definition allowed :: "bot_env \<Rightarrow> int option \<Rightarrow> bool" where
  "allowed B tid \<longleftrightarrow> bs_allowlist (be_settings B) = [] \<or> tid_text tid \<in> set (bs_allowlist (be_settings B))"

lemma message_changed:
  assumes "opa_faithful (se_services (be_shop B))" "money (bo_sim (snd (handle_message B m s))) \<noteq> money (bo_sim s)"
  shows "allowed B (ms_from m) \<and> chat_linked (db (sm_world (bo_sim s))) (tid_text (ms_from m)) \<and> within_seed (be_shop B) (db (sm_world (bo_sim s)))"
proof -
  let ?g = "\<lambda>s. money (bo_sim s)" and ?t = "strip (case ms_text m of None \<Rightarrow> '''' | Some x \<Rightarrow> x)"
  have send: "money (bo_sim (snd (send_message B c ts bs v))) = money (bo_sim v)" for c ts bs v
    using evolvesD [OF bot_keeps_send(1) [of money B c ts bs], of v] by (simp add: bot_keeps_def)
  have link: "money (bo_sim (snd (bindE (link_code B ?t (ms_from m)) f s))) = money (bo_sim s)" if "\<And>x. evolves (bot_keeps money) (f x)" for f :: "_ \<Rightarrow> unit bact"
    using evolvesD [OF bot_frame.ev_bind [OF link_keeps_money that], of s] by (simp add: bot_keeps_def)
  have quiet: "evolves (bot_keeps money) (case p of (ok, detail) \<Rightarrow> send_message B c [if ok then x detail else y detail] [])" for p c x y
    by (cases p) (simp add: bot_keeps_send)
  have who: "money (bo_sim (snd (whoami B (ms_from m) s))) = money (bo_sim s)" for s
    using evolvesD [OF whoami_keeps_money, of s B "ms_from m"] by (simp add: bot_keeps_def)
  from assms(2) have a: "allowed B (ms_from m)" and
    c: "?g (snd (bindE (whoami B (ms_from m)) (\<lambda>user. if \<not> nonempty user then send_message B (Some (ms_chat m)) [NotLinked] []
       else if starts ''/status'' ?t then send_message B (Some (ms_chat m)) [StatusText (esc (the user))] []
       else run_for_chat B (Some (ms_chat m)) ?t) s)) \<noteq> ?g s"
    by (auto simp: handle_message_def Let_def send link [OF quiet] allowed_def split: if_splits)
  obtain user s1 where w: "whoami B (ms_from m) s = (Inr user, s1)" and d: "?g (snd ((if \<not> nonempty user then send_message B (Some (ms_chat m)) [NotLinked] []
       else if starts ''/status'' ?t then send_message B (Some (ms_chat m)) [StatusText (esc (the user))] []
       else run_for_chat B (Some (ms_chat m)) ?t) s1)) \<noteq> ?g s1"
    using changed_in_bind [where g = "?g", OF who c] by metis
  from d have n: "nonempty user" and r: "?g (snd (run_for_chat B (Some (ms_chat m)) ?t s1)) \<noteq> ?g s1"
    by (auto simp: send split: if_splits)
  from whoami_linked [OF w] n run_for_chat_changed [OF assms(1) r] a show ?thesis by simp
qed

lemma approve_snd: "snd (approve_route S i t) = snd (approve_and_resume S i t)"
  by (simp add: approve_route_def snd_bind_ret)

text \<open>Whoever presses an approve button approves: nothing about the chat is asked.\<close>

lemma callback_approves:
  assumes "be_telegram B = (\<lambda>_. Accepted)" "be_net B = (\<lambda>_. Delivered d)" "callback_action (ck_data q) = (''approve'', i)" "segment i"
  shows "bo_sim (snd (handle_callback B q s)) = later_by d (snd (approve_and_resume (be_shop B) i (bo_sim s)))"
proof -
  have send: "send_message B c ts bs v = (Inr (), v\<lparr>bo_calls := Suc (bo_calls v), bo_sent := bo_sent v @ [\<lparr>og_chat = c, og_texts = ts, og_buttons = bs\<rparr>]\<rparr>)" for c ts bs v
    by (simp add: send_message_def telegram_call_def assms(1) Let_def)
  have ans: "answer_callback_query B v = (Inr (), v\<lparr>bo_calls := Suc (bo_calls v)\<rparr>)" for v
    by (simp add: answer_callback_query_def telegram_call_def assms(1) Let_def)
  have run: "bo_sim (snd (approve_run B i v)) = later_by d (snd (approve_and_resume (be_shop B) i (bo_sim v)))" for v
    by (simp add: approve_run_def agent_call_snd assms(4) service_call_def assms(2) Let_def approve_snd [symmetric] split: prod.split)
  let ?v = "s\<lparr>bo_calls := Suc (Suc (bo_calls s)), bo_sent := bo_sent s @ [\<lparr>og_chat = ck_chat q, og_texts = [Approving], og_buttons = []\<rparr>]\<rparr>"
  obtain r t where p: "approve_run B i ?v = (r, t)" by fastforce
  with run [of ?v] show ?thesis
    by (cases r) (simp_all add: handle_callback_def Let_def assms(3) thenE_def bindE_def send ans tryE_def)
qed

lemma callback_changed:
  assumes "opa_faithful (se_services (be_shop B))" "money (bo_sim (snd (handle_callback B q s))) \<noteq> money (bo_sim s)"
  shows "\<exists>i. callback_action (ck_data q) = (''approve'', i) \<and> segment i \<and> paid (be_shop B) (sm_world (bo_sim s))"
proof -
  obtain act i where q: "callback_action (ck_data q) = (act, i)" by fastforce
  have send: "bo_sim (snd (send_message B c ts bs v)) = bo_sim v" "bo_sim (snd (answer_callback_query B v)) = bo_sim v" for c ts bs v
    using evolvesD [OF bot_keeps_send(1) [of "\<lambda>t. t" B c ts bs], of v] evolvesD [OF bot_keeps_send(2) [of "\<lambda>t. t" B], of v] by (simp_all add: bot_keeps_def)
  have seg: "money (bo_sim (snd (approve_run B i v))) = money (bo_sim v)" if "\<not> segment i" for v
    using service_changed [of B "raise (PyError ''NotFound'' '''') :: run_summary sact" v] that by (auto simp: approve_run_def agent_call_snd)
  have paid: "money (bo_sim (snd (approve_run B i v))) \<noteq> money (bo_sim v) \<Longrightarrow> paid (be_shop B) (sm_world (bo_sim v))" for v
  proof -
    assume c: "money (bo_sim (snd (approve_run B i v))) \<noteq> money (bo_sim v)"
    with seg have "segment i" by blast
    with c have "money (snd (approve_and_resume (be_shop B) i (bo_sim v))) \<noteq> money (bo_sim v)"
      using service_changed [of B "approve_route (be_shop B) i" v] by (auto simp: approve_run_def agent_call_snd approve_snd)
    with evolvesD [OF contained_approve, of "be_shop B" "bo_sim v" i] assms(1) show ?thesis by (auto simp: contained_def kept_def money_def)
  qed
  have "act = ''approve'' \<and> (\<exists>v. bo_sim v = bo_sim s \<and> money (bo_sim (snd (approve_run B i v))) \<noteq> money (bo_sim v))"
    using assms(2) q by (auto simp: handle_callback_def Let_def thenE_def bindE_def tryE_def send split: prod.splits sum.splits if_splits) (metis send snd_conv)+
  with q paid seg show ?thesis by metis
qed

end
