(* ===== verification/Redis.thy ===== *)
theory Redis
  imports Store "HOL-Library.AList"
begin

text \<open>
  \<open>RedisStore\<close> of \<open>gateway/store.py\<close>, the store of every deployment but the in-process one. The
  server is not in the repository: it is a parameter, a function from the time, a command and its
  state to a reply and a state, and the locale \<open>redis_server\<close> states of it what its command
  reference documents. Under these laws the client's operations answer as those of \<open>MemoryStore\<close>,
  over which the rest of this development is proved.
\<close>

section \<open>Commands and replies\<close>

datatype 'v command = GET string | SET string 'v bool "int option" | DEL string
  | SADD string string | SREM string string | SISMEMBER string string | SMEMBERS string
  | ZREMRANGEBYSCORE string real | ZADD string string real | ZCARD string | ZCOUNT string real
  | EXPIRE string int

datatype 'v reply = RNil | ROk | RBulk 'v | RNumber nat | RMembers "string list" | RError string

datatype 'v rvalue = RStr 'v | RSet "string set" | RZset "string \<rightharpoonup> real"

type_synonym ('v, 's) server = "real \<Rightarrow> 'v command \<Rightarrow> 's \<Rightarrow> 'v reply \<times> 's"

text \<open>An error reply is raised by the client library.\<close>

type_synonym ('a, 's) answered = "(string + 'a) \<times> 's"

definition answer :: "('v reply \<Rightarrow> 'a) \<Rightarrow> 'v reply \<times> 's \<Rightarrow> ('a, 's) answered" where
  "answer f = (\<lambda>(r, s). case r of RError e \<Rightarrow> (Inl e, s) | _ \<Rightarrow> (Inr (f r), s))"

section \<open>RedisStore\<close>

definition bulk :: "'v reply \<Rightarrow> 'v option" where "bulk r = (case r of RBulk v \<Rightarrow> Some v | _ \<Rightarrow> None)"

text \<open>\<open>bool(reply)\<close>.\<close>

definition truth :: "'v reply \<Rightarrow> bool" where "truth r = (case r of ROk \<Rightarrow> True | RNumber n \<Rightarrow> n \<noteq> 0 | _ \<Rightarrow> False)"

definition number :: "'v reply \<Rightarrow> nat" where "number r = (case r of RNumber n \<Rightarrow> n | _ \<Rightarrow> 0)"

definition listed :: "'v reply \<Rightarrow> string set" where "listed r = (case r of RMembers ms \<Rightarrow> set ms | _ \<Rightarrow> {})"

definition rs_get :: "('v, 's) server \<Rightarrow> real \<Rightarrow> string \<Rightarrow> 's \<Rightarrow> ('v option, 's) answered" where
  "rs_get call now key s = answer bulk (call now (GET key) s)"

definition rs_set :: "('v, 's) server \<Rightarrow> real \<Rightarrow> string \<Rightarrow> 'v \<Rightarrow> int option \<Rightarrow> 's \<Rightarrow> (bool, 's) answered" where
  "rs_set call now key v ex s = answer truth (call now (SET key v False ex) s)"

definition rs_set_nx :: "('v, 's) server \<Rightarrow> real \<Rightarrow> string \<Rightarrow> 'v \<Rightarrow> int option \<Rightarrow> 's \<Rightarrow> (bool, 's) answered" where
  "rs_set_nx call now key v ex s = answer truth (call now (SET key v True ex) s)"

text \<open>\<open>_UNLOCK\<close>, a script the server runs as one step: compare, then delete.\<close>

definition unlock_script :: "('v, 's) server \<Rightarrow> real \<Rightarrow> string \<Rightarrow> 'v \<Rightarrow> 's \<Rightarrow> 'v reply \<times> 's" where
  "unlock_script call now key v s = (case call now (GET key) s of
       (RError e, s1) \<Rightarrow> (RError e, s1)
     | (r, s1) \<Rightarrow> if bulk r = Some v then call now (DEL key) s1 else (RNumber 0, s1))"

definition rs_delete_if_value :: "('v, 's) server \<Rightarrow> real \<Rightarrow> string \<Rightarrow> 'v \<Rightarrow> 's \<Rightarrow> (bool, 's) answered" where
  "rs_delete_if_value call now key v s = answer truth (unlock_script call now key v s)"

definition rs_sadd :: "('v, 's) server \<Rightarrow> real \<Rightarrow> string \<Rightarrow> string \<Rightarrow> 's \<Rightarrow> (unit, 's) answered" where
  "rs_sadd call now key m s = answer (\<lambda>_. ()) (call now (SADD key m) s)"

definition rs_srem :: "('v, 's) server \<Rightarrow> real \<Rightarrow> string \<Rightarrow> string \<Rightarrow> 's \<Rightarrow> (unit, 's) answered" where
  "rs_srem call now key m s = answer (\<lambda>_. ()) (call now (SREM key m) s)"

definition rs_sismember :: "('v, 's) server \<Rightarrow> real \<Rightarrow> string \<Rightarrow> string \<Rightarrow> 's \<Rightarrow> (bool, 's) answered" where
  "rs_sismember call now key m s = answer truth (call now (SISMEMBER key m) s)"

definition rs_smembers :: "('v, 's) server \<Rightarrow> real \<Rightarrow> string \<Rightarrow> 's \<Rightarrow> (string set, 's) answered" where
  "rs_smembers call now key s = answer listed (call now (SMEMBERS key) s)"

text \<open>A pipeline of the client is a transaction of the server; its execution raises the first error.\<close>

fun transaction :: "('v, 's) server \<Rightarrow> real \<Rightarrow> 'v command list \<Rightarrow> 's \<Rightarrow> 'v reply list \<times> 's" where
  "transaction call now [] s = ([], s)"
| "transaction call now (c # cs) s = (case call now c s of (r, s1) \<Rightarrow>
     case transaction call now cs s1 of (rs, s2) \<Rightarrow> (r # rs, s2))"

definition first_error :: "'v reply list \<Rightarrow> string option" where
  "first_error rs = (case [e. RError e \<leftarrow> rs] of [] \<Rightarrow> None | e # _ \<Rightarrow> Some e)"

text \<open>\<open>now\<close> is the client's clock, \<open>t\<close> the server's.\<close>

definition rs_zadd_window :: "('v, 's) server \<Rightarrow> real \<Rightarrow> real \<Rightarrow> string \<Rightarrow> int \<Rightarrow> string \<Rightarrow> 's \<Rightarrow> (nat, 's) answered" where
  "rs_zadd_window call t now key window member s = (case transaction call t
       [ZREMRANGEBYSCORE key (now - of_int window), ZADD key member now, ZCARD key, EXPIRE key (window * 2)] s of
     (rs, s') \<Rightarrow> (case first_error rs of Some e \<Rightarrow> (Inl e, s') | None \<Rightarrow> (Inr (number (rs ! 2)), s')))"

definition rs_zcount_window :: "('v, 's) server \<Rightarrow> real \<Rightarrow> real \<Rightarrow> string \<Rightarrow> int \<Rightarrow> 's \<Rightarrow> (nat, 's) answered" where
  "rs_zcount_window call t now key window s = answer number (call t (ZCOUNT key (now - of_int window)) s)"

section \<open>What the server documents\<close>

text \<open>\<open>look t s k\<close> is the value of key \<open>k\<close> at time \<open>t\<close> if nobody writes it from state \<open>s\<close> on.\<close>

definition members :: "'v rvalue option \<Rightarrow> string set" where
  "members x = (case x of Some (RSet M) \<Rightarrow> M | _ \<Rightarrow> {})"

definition scores :: "'v rvalue option \<Rightarrow> string \<rightharpoonup> real" where
  "scores x = (case x of Some (RZset F) \<Rightarrow> F | _ \<Rightarrow> Map.empty)"

definition is_plain :: "'v rvalue option \<Rightarrow> bool" where "is_plain x \<longleftrightarrow> (case x of None \<Rightarrow> True | Some (RStr _) \<Rightarrow> True | _ \<Rightarrow> False)"
definition is_set :: "'v rvalue option \<Rightarrow> bool" where "is_set x \<longleftrightarrow> (case x of None \<Rightarrow> True | Some (RSet _) \<Rightarrow> True | _ \<Rightarrow> False)"
definition is_zset :: "'v rvalue option \<Rightarrow> bool" where "is_zset x \<longleftrightarrow> (case x of None \<Rightarrow> True | Some (RZset _) \<Rightarrow> True | _ \<Rightarrow> False)"

text \<open>A set or sorted set that becomes empty is removed; an update keeps the time to live.\<close>

definition set_or_none :: "string set \<Rightarrow> 'v rvalue option" where "set_or_none M = (if M = {} then None else Some (RSet M))"
definition zset_or_none :: "(string \<rightharpoonup> real) \<Rightarrow> 'v rvalue option" where "zset_or_none F = (if F = Map.empty then None else Some (RZset F))"

definition updated :: "'v rvalue option \<Rightarrow> 'v rvalue option \<Rightarrow> 'v rvalue option \<Rightarrow> 'v rvalue option" where
  "updated old later new = (if old \<noteq> None \<and> later = None then None else new)"

lemma updated_same [simp]: "updated x x y = y" by (cases x) (simp_all add: updated_def)

locale redis_server =
  fixes call :: "('v, 's) server" and look :: "real \<Rightarrow> 's \<Rightarrow> string \<Rightarrow> 'v rvalue option"
  assumes gone: "now \<le> t \<Longrightarrow> look now s k = None \<Longrightarrow> look t s k = None"
    and stays: "now \<le> t \<Longrightarrow> look t s k = Some y \<Longrightarrow> look now s k = Some y"
    and no_empty: "look now s k \<noteq> Some (RSet {})"
    and finite_scores: "finite (dom (scores (look now s k)))"
    and GET: "is_plain (look now s k) \<Longrightarrow> fst (call now (GET k) s) = (case look now s k of Some (RStr v) \<Rightarrow> RBulk v | _ \<Rightarrow> RNil)"
    and SISMEMBER: "is_set (look now s k) \<Longrightarrow> fst (call now (SISMEMBER k m) s) = RNumber (if m \<in> members (look now s k) then 1 else 0)"
    and SMEMBERS: "is_set (look now s k) \<Longrightarrow> \<exists>ms. fst (call now (SMEMBERS k) s) = RMembers ms \<and> set ms = members (look now s k)"
    and ZCARD: "is_zset (look now s k) \<Longrightarrow> fst (call now (ZCARD k) s) = RNumber (card (dom (scores (look now s k))))"
    and ZCOUNT: "is_zset (look now s k) \<Longrightarrow>
      fst (call now (ZCOUNT k b) s) = RNumber (card {m. \<exists>x. scores (look now s k) m = Some x \<and> b \<le> x})"
    and reads: "c \<in> {GET j, SISMEMBER j m, SMEMBERS j, ZCARD j, ZCOUNT j b} \<Longrightarrow> now \<le> t \<Longrightarrow> look t (snd (call now c s)) k = look t s k"
    and SET_invalid: "e \<le> 0 \<Longrightarrow> \<exists>msg. fst (call now (SET k v nx (Some e)) s) = RError msg"
    and SET_taken: "\<forall>e. ex = Some e \<longrightarrow> 0 < e \<Longrightarrow> look now s k \<noteq> None \<Longrightarrow> now \<le> t \<Longrightarrow>
      fst (call now (SET k v True ex) s) = RNil \<and> look t (snd (call now (SET k v True ex) s)) j = look t s j"
    and SET: "\<forall>e. ex = Some e \<longrightarrow> 0 < e \<Longrightarrow> \<not> nx \<or> look now s k = None \<Longrightarrow> now \<le> t \<Longrightarrow>
      fst (call now (SET k v nx ex) s) = ROk \<and> look t (snd (call now (SET k v nx ex) s)) j =
        (if j = k then (case ex of None \<Rightarrow> Some (RStr v) | Some e \<Rightarrow> if now + of_int e < t then None else Some (RStr v)) else look t s j)"
    and DEL: "now \<le> t \<Longrightarrow> fst (call now (DEL k) s) = RNumber (if look now s k = None then 0 else 1) \<and>
      look t (snd (call now (DEL k) s)) j = (if j = k then None else look t s j)"
    and SADD: "is_set (look now s k) \<Longrightarrow> now \<le> t \<Longrightarrow> (\<exists>n. fst (call now (SADD k m) s) = RNumber n) \<and>
      look t (snd (call now (SADD k m) s)) j = (if j = k then updated (look now s k) (look t s k) (Some (RSet (insert m (members (look now s k))))) else look t s j)"
    and SREM: "is_set (look now s k) \<Longrightarrow> now \<le> t \<Longrightarrow> (\<exists>n. fst (call now (SREM k m) s) = RNumber n) \<and>
      look t (snd (call now (SREM k m) s)) j = (if j = k then updated (look now s k) (look t s k) (set_or_none (members (look now s k) - {m})) else look t s j)"
    and ZREMRANGEBYSCORE: "is_zset (look now s k) \<Longrightarrow> now \<le> t \<Longrightarrow> (\<exists>n. fst (call now (ZREMRANGEBYSCORE k b) s) = RNumber n) \<and>
      look t (snd (call now (ZREMRANGEBYSCORE k b) s)) j = (if j = k then updated (look now s k) (look t s k)
        (zset_or_none (\<lambda>m. case scores (look now s k) m of Some x \<Rightarrow> if b < x then Some x else None | None \<Rightarrow> None)) else look t s j)"
    and ZADD: "is_zset (look now s k) \<Longrightarrow> now \<le> t \<Longrightarrow> (\<exists>n. fst (call now (ZADD k m x) s) = RNumber n) \<and>
      look t (snd (call now (ZADD k m x) s)) j = (if j = k then updated (look now s k) (look t s k) (Some (RZset ((scores (look now s k))(m \<mapsto> x)))) else look t s j)"
    and EXPIRE: "0 < n \<Longrightarrow> now \<le> t \<Longrightarrow> (\<exists>r. fst (call now (EXPIRE k n) s) = RNumber r) \<and>
      look t (snd (call now (EXPIRE k n) s)) j = (if j = k then (if now + of_int n < t then None else look now s k) else look t s j)"

section \<open>The same answers\<close>

text \<open>
  In Redis the three kinds of key share one space of names; in the code every key is used as one of
  them only, a window always with the same length.
\<close>

datatype key_kind = Plain | Members | Window int

definition live :: "real \<Rightarrow> (string \<times> real) set \<Rightarrow> (string \<times> real) set" where
  "live b z = {(m, x) \<in> z. b < x}"

definition key_mirrors :: "key_kind \<Rightarrow> real \<Rightarrow> 'v store \<Rightarrow> 'v rvalue option \<Rightarrow> string \<Rightarrow> bool" where
  "key_mirrors kind t M x k = (case kind of
       Plain \<Rightarrow> x = map_option RStr (st_look t M k)
     | Members \<Rightarrow> is_set x \<and> members x = set (sets M k)
     | Window w \<Rightarrow> is_zset x \<and> live (t - of_int w) {(m, y). scores x m = Some y} = live (t - of_int w) (set (zsets M k)))"

definition mirrors :: "(real \<Rightarrow> 's \<Rightarrow> string \<Rightarrow> 'v rvalue option) \<Rightarrow> (string \<Rightarrow> key_kind) \<Rightarrow> real \<Rightarrow> 'v store \<Rightarrow> 's \<Rightarrow> bool" where
  "mirrors look kind now M s \<longleftrightarrow> (\<forall>k t. now \<le> t \<longrightarrow> key_mirrors (kind k) t M (look t s k) k) \<and>
     (\<forall>k. distinct (map fst (zsets M k)) \<and> (\<forall>(m, x) \<in> set (zsets M k). x \<le> now))"

text \<open>The surface of the store as requests, and how each implementation answers one.\<close>

datatype 'v store_request = Get string | Put string 'v "int option" | PutNew string 'v "int option" | DeleteIf string 'v
  | Add string string | Remove string string | IsMember string string | ListMembers string
  | CountUp string int string | CountIn string int

datatype 'v store_result = Value "'v option" | Flag bool | Unit | Count nat | MemberNames "string set" | Raised string

fun mem_serve :: "real \<Rightarrow> 'v store_request \<Rightarrow> 'v store \<Rightarrow> 'v store_result \<times> 'v store" where
  "mem_serve now (Get k) M = apfst Value (st_get now k M)"
| "mem_serve now (Put k v ex) M = apfst Flag (st_set now k v ex M)"
| "mem_serve now (PutNew k v ex) M = apfst Flag (st_set_nx now k v ex M)"
| "mem_serve now (DeleteIf k v) M = apfst Flag (st_delete_if_value now k v M)"
| "mem_serve now (Add k m) M = (Unit, st_sadd k m M)"
| "mem_serve now (Remove k m) M = (Unit, st_srem k m M)"
| "mem_serve now (IsMember k m) M = (Flag (st_sismember k m M), M)"
| "mem_serve now (ListMembers k) M = (MemberNames (set (st_smembers k M)), M)"
| "mem_serve now (CountUp k w m) M = apfst Count (st_zadd_window now k w m M)"
| "mem_serve now (CountIn k w) M = (Count (st_zcount_window now k w M), M)"

definition reported :: "('a \<Rightarrow> 'v store_result) \<Rightarrow> ('a, 's) answered \<Rightarrow> 'v store_result \<times> 's" where
  "reported f = apfst (\<lambda>r. case r of Inl e \<Rightarrow> Raised e | Inr x \<Rightarrow> f x)"

fun redis_serve :: "('v, 's) server \<Rightarrow> real \<Rightarrow> 'v store_request \<Rightarrow> 's \<Rightarrow> 'v store_result \<times> 's" where
  "redis_serve call now (Get k) s = reported Value (rs_get call now k s)"
| "redis_serve call now (Put k v ex) s = reported Flag (rs_set call now k v ex s)"
| "redis_serve call now (PutNew k v ex) s = reported Flag (rs_set_nx call now k v ex s)"
| "redis_serve call now (DeleteIf k v) s = reported Flag (rs_delete_if_value call now k v s)"
| "redis_serve call now (Add k m) s = reported (\<lambda>_. Unit) (rs_sadd call now k m s)"
| "redis_serve call now (Remove k m) s = reported (\<lambda>_. Unit) (rs_srem call now k m s)"
| "redis_serve call now (IsMember k m) s = reported Flag (rs_sismember call now k m s)"
| "redis_serve call now (ListMembers k) s = reported MemberNames (rs_smembers call now k s)"
| "redis_serve call now (CountUp k w m) s = reported Count (rs_zadd_window call now now k w m s)"
| "redis_serve call now (CountIn k w) s = reported Count (rs_zcount_window call now now k w s)"

text \<open>
  What a request must keep to: its key's kind, a positive time to live if any, a new name for a
  record, and no record exactly as old as the window.
\<close>

definition off_edge :: "real \<Rightarrow> 'v rvalue option \<Rightarrow> (string \<times> real) list \<Rightarrow> bool" where
  "off_edge b x z \<longleftrightarrow> (\<forall>m. scores x m \<noteq> Some b \<and> (m, b) \<notin> set z)"

definition ttl_ok :: "int option \<Rightarrow> bool" where "ttl_ok ex \<longleftrightarrow> (case ex of None \<Rightarrow> True | Some e \<Rightarrow> 0 < e)"

fun proper :: "(string \<Rightarrow> key_kind) \<Rightarrow> real \<Rightarrow> 'v store \<Rightarrow> (string \<Rightarrow> 'v rvalue option) \<Rightarrow> 'v store_request \<Rightarrow> bool" where
  "proper kind now M x (Get k) \<longleftrightarrow> kind k = Plain"
| "proper kind now M x (Put k v ex) \<longleftrightarrow> kind k = Plain \<and> ttl_ok ex"
| "proper kind now M x (PutNew k v ex) \<longleftrightarrow> kind k = Plain \<and> ttl_ok ex"
| "proper kind now M x (DeleteIf k v) \<longleftrightarrow> kind k = Plain"
| "proper kind now M x (Add k m) \<longleftrightarrow> kind k = Members"
| "proper kind now M x (Remove k m) \<longleftrightarrow> kind k = Members"
| "proper kind now M x (IsMember k m) \<longleftrightarrow> kind k = Members"
| "proper kind now M x (ListMembers k) \<longleftrightarrow> kind k = Members"
| "proper kind now M x (CountUp k w m) \<longleftrightarrow> kind k = Window w \<and> 0 < w \<and> off_edge (now - of_int w) (x k) (zsets M k) \<and>
     m \<notin> fst ` set (zsets M k) \<and> scores (x k) m = None"
| "proper kind now M x (CountIn k w) \<longleftrightarrow> kind k = Window w \<and> off_edge (now - of_int w) (x k) (zsets M k)"

lemma live_mono: "a \<le> b \<Longrightarrow> live b z = live b (live a z)" by (auto simp: live_def)

lemma st_look_other: "st_look t (M\<lparr>zsets := z\<rparr>) k = st_look t M k" "st_look t (M\<lparr>sets := y\<rparr>) k = st_look t M k"
  by (simp_all add: st_look_def)

lemma st_look_get: "now \<le> t \<Longrightarrow> st_look t (snd (st_get now k M)) j = st_look t M j" by (rule mem.get_look)

lemma card_filter_keys: "distinct (map fst z) \<Longrightarrow> card (fst ` set (filter P z)) = length (filter P z)"
  by (metis distinct_card distinct_map_filter length_map list.set_map)

context redis_server begin

lemma plain_if: "is_plain (map_option RStr y)" by (cases y) (simp_all add: is_plain_def)

lemma mirrorsD: "mirrors look kind now M s \<Longrightarrow> now \<le> t \<Longrightarrow> key_mirrors (kind k) t M (look t s k) k"
  by (simp add: mirrors_def)

lemma mirrors_later: "mirrors look kind now M s \<Longrightarrow> now \<le> t \<Longrightarrow> mirrors look kind t M s"
  by (fastforce simp: mirrors_def)

lemma plain_mirror: "mirrors look kind now M s \<Longrightarrow> kind k = Plain \<Longrightarrow> now \<le> t \<Longrightarrow> look t s k = map_option RStr (st_look t M k)"
  using mirrorsD [of kind now M s t k] by (simp add: key_mirrors_def)

lemma set_mirror: "mirrors look kind now M s \<Longrightarrow> kind k = Members \<Longrightarrow> now \<le> t \<Longrightarrow> is_set (look t s k) \<and> members (look t s k) = set (sets M k)"
  using mirrorsD [of kind now M s t k] by (simp add: key_mirrors_def)

text \<open>A request on a plain key leaves the rest of both stores alone.\<close>

lemma mirrors_plain:
  assumes "mirrors look kind now M s" "kind k = Plain" "sets M' = sets M" "zsets M' = zsets M"
    and "\<And>t j. now \<le> t \<Longrightarrow> j \<noteq> k \<Longrightarrow> look t s' j = look t s j" "\<And>t j. now \<le> t \<Longrightarrow> j \<noteq> k \<Longrightarrow> st_look t M' j = st_look t M j"
    and "\<And>t. now \<le> t \<Longrightarrow> look t s' k = map_option RStr (st_look t M' k)"
  shows "mirrors look kind now M' s'"
  unfolding mirrors_def
proof (intro conjI allI impI)
  fix j t assume "now \<le> t"
  with assms mirrorsD [OF assms(1), of t j] show "key_mirrors (kind j) t M' (look t s' j) j"
    by (cases "j = k") (auto simp: key_mirrors_def split: key_kind.split)
qed (use assms(1,4) in \<open>auto simp: mirrors_def\<close>)

text \<open>Plain keys.\<close>

lemma get_step:
  assumes "mirrors look kind now M s" "kind k = Plain"
  shows "fst (rs_get call now k s) = Inr (fst (st_get now k M)) \<and> mirrors look kind now (snd (st_get now k M)) (snd (rs_get call now k s))"
proof -
  have l: "look now s k = map_option RStr (st_look now M k)" by (rule plain_mirror [OF assms order.refl])
  have g: "fst (call now (GET k) s) = (case st_look now M k of Some v \<Rightarrow> RBulk v | None \<Rightarrow> RNil)"
    using GET [of now s k] by (simp add: l plain_if split: option.split)
  then have a: "rs_get call now k s = (Inr (st_look now M k), snd (call now (GET k) s))"
    by (cases "call now (GET k) s") (auto simp: rs_get_def answer_def bulk_def split: option.split)
  have "mirrors look kind now (snd (st_get now k M)) (snd (call now (GET k) s))"
    by (rule mirrors_plain [OF assms])
      (simp_all add: reads [of _ k] st_look_get plain_mirror [OF assms], simp_all add: store_defs split: option.split prod.split)
  with a mem.get_val [of now k M] show ?thesis by simp
qed

lemma put_step:
  assumes "mirrors look kind now M s" "kind k = Plain" "ttl_ok ex"
  shows "fst (rs_set call now k v ex s) = Inr (fst (st_set now k v ex M)) \<and> mirrors look kind now (snd (st_set now k v ex M)) (snd (rs_set call now k v ex s))"
proof -
  have e: "\<forall>e. ex = Some e \<longrightarrow> 0 < e" using assms(3) by (simp add: ttl_ok_def split: option.splits)
  note c = SET [OF e, of False now s k _ v, simplified]
  have a: "rs_set call now k v ex s = (Inr True, snd (call now (SET k v False ex) s))"
    using c [of now] by (cases "call now (SET k v False ex) s") (simp add: rs_set_def answer_def truth_def)
  have "mirrors look kind now (snd (st_set now k v ex M)) (snd (call now (SET k v False ex) s))"
    using e by (intro mirrors_plain [OF assms(1,2)])
      (simp_all add: c st_set_look, auto simp: st_set_def expiry_of_def split: option.split)
  then show ?thesis by (simp add: a st_set_def)
qed

lemma put_new_step:
  assumes "mirrors look kind now M s" "kind k = Plain" "ttl_ok ex"
  shows "fst (rs_set_nx call now k v ex s) = Inr (fst (st_set_nx now k v ex M)) \<and> mirrors look kind now (snd (st_set_nx now k v ex M)) (snd (rs_set_nx call now k v ex s))"
proof -
  have e: "\<forall>e. ex = Some e \<longrightarrow> 0 < e" using assms(3) by (simp add: ttl_ok_def split: option.splits)
  let ?s' = "snd (call now (SET k v True ex) s)" and ?M' = "snd (st_set_nx now k v ex M)"
  have same: "sets ?M' = sets M" "zsets ?M' = zsets M" by (simp_all add: store_defs split: option.split prod.split)
  have l: "look t s k = map_option RStr (st_look t M k)" if "now \<le> t" for t by (rule plain_mirror [OF assms(1,2) that])
  show ?thesis
  proof (cases "st_look now M k")
    case None
    note c = SET [OF e, of True now s k _ v, simplified l [OF order.refl] None, simplified]
    have new: "now \<le> t \<Longrightarrow> st_look t ?M' k = (case ex of None \<Rightarrow> Some v | Some e \<Rightarrow> if now + of_int e < t then None else Some v)" for t
      using None e by (auto simp: store_defs st_look_def expiry_of_def split: option.splits prod.splits if_splits)
    have "mirrors look kind now ?M' ?s'"
      using None by (intro mirrors_plain [OF assms(1,2) same])
        (simp_all add: c new mem.nx_old split: option.split)
    moreover have "fst (st_set_nx now k v ex M)" using mem.nx_ok [of now k v ex M] None by simp
    moreover have "rs_set_nx call now k v ex s = (Inr True, ?s')"
      using c [of now] by (cases "call now (SET k v True ex) s") (simp add: rs_set_nx_def answer_def truth_def)
    ultimately show ?thesis by simp
  next
    case (Some y)
    have n: "look now s k \<noteq> None" using l [of now] Some by simp
    note c = SET_taken [OF e n]
    have "mirrors look kind now ?M' ?s'"
      using Some by (intro mirrors_plain [OF assms(1,2) same]) (simp_all add: c mem.nx_old l)
    moreover have "\<not> fst (st_set_nx now k v ex M)" using mem.nx_ok [of now k v ex M] Some by simp
    moreover have "rs_set_nx call now k v ex s = (Inr False, ?s')"
      using c [of now v] by (cases "call now (SET k v True ex) s") (simp add: rs_set_nx_def answer_def truth_def)
    ultimately show ?thesis by simp
  qed
qed

lemma delete_if_step:
  assumes "mirrors look kind now M s" "kind k = Plain"
  shows "fst (rs_delete_if_value call now k v s) = Inr (fst (st_delete_if_value now k v M)) \<and>
    mirrors look kind now (snd (st_delete_if_value now k v M)) (snd (rs_delete_if_value call now k v s))"
proof -
  let ?s1 = "snd (call now (GET k) s)" and ?M' = "snd (st_delete_if_value now k v M)"
  have same: "sets ?M' = sets M" "zsets ?M' = zsets M" by (simp_all add: store_defs split: option.split prod.split)
  have l: "look t s k = map_option RStr (st_look t M k)" if "now \<le> t" for t by (rule plain_mirror [OF assms that])
  have q: "now \<le> t \<Longrightarrow> look t ?s1 j = look t s j" for t j by (rule reads [of _ k]) simp_all
  have g: "fst (call now (GET k) s) = (case st_look now M k of Some v \<Rightarrow> RBulk v | None \<Rightarrow> RNil)"
    using GET [of now s k] by (simp add: l plain_if split: option.split)
  show ?thesis
  proof (cases "st_look now M k = Some v")
    case True
    have u: "unlock_script call now k v s = call now (DEL k) ?s1"
      using g True by (cases "call now (GET k) s") (simp add: unlock_script_def bulk_def)
    note d = DEL [of now _ k ?s1]
    have "rs_delete_if_value call now k v s = (Inr True, snd (call now (DEL k) ?s1))"
      using d [of now] True unfolding rs_delete_if_value_def u
      by (cases "call now (DEL k) ?s1") (simp add: answer_def truth_def q l)
    moreover have "mirrors look kind now ?M' (snd (call now (DEL k) ?s1))"
      using True by (intro mirrors_plain [OF assms same]) (simp_all add: d q mem.del_look)
    ultimately show ?thesis using mem.del_ok [of now k v M] True by simp
  next
    case False
    have "rs_delete_if_value call now k v s = (Inr False, ?s1)"
      using g False unfolding rs_delete_if_value_def unlock_script_def
      by (cases "call now (GET k) s") (auto simp: answer_def truth_def bulk_def split: option.splits)
    moreover have "mirrors look kind now ?M' ?s1"
      using False by (intro mirrors_plain [OF assms same]) (simp_all add: q mem.del_look l)
    ultimately show ?thesis using mem.del_ok [of now k v M] False by simp
  qed
qed

text \<open>Sets.\<close>

lemma mirrors_set:
  assumes "mirrors look kind now M s" "kind k = Members"
    and "\<And>t j. now \<le> t \<Longrightarrow> look t s' j = (if j = k then updated (look now s k) (look t s k) x else look t s j)"
    and "is_set x" "members x = set ms" "look now s k = None \<or> (\<forall>t \<ge> now. look t s k \<noteq> None)"
  shows "mirrors look kind now (M\<lparr>sets := (sets M)(k := ms)\<rparr>) s'"
  unfolding mirrors_def
proof (intro conjI allI impI)
  fix j t assume "now \<le> t"
  with assms mirrorsD [OF assms(1), of t j] show "key_mirrors (kind j) t (M\<lparr>sets := (sets M)(k := ms)\<rparr>) (look t s' j) j"
    by (cases "j = k") (auto simp: key_mirrors_def updated_def st_look_def is_set_def members_def split: key_kind.split)
qed (use assms(1) in \<open>auto simp: mirrors_def\<close>)

text \<open>A set in use has no deadline: what mirrors an unchanging set does not vanish.\<close>

lemma set_no_deadline:
  assumes "mirrors look kind now M s" "kind k = Members"
  shows "look now s k = None \<or> (\<forall>t \<ge> now. look t s k \<noteq> None)"
proof (cases "look now s k")
  case (Some x)
  then obtain A where x: "look now s k = Some (RSet A)" using set_mirror [OF assms order.refl] by (cases x) (simp_all add: is_set_def)
  with no_empty [of now s k] have "A \<noteq> {}" by auto
  with set_mirror [OF assms order.refl] x have "set (sets M k) \<noteq> {}" by (simp add: members_def)
  then have "now \<le> t \<Longrightarrow> look t s k \<noteq> None" for t using set_mirror [OF assms, of t] by (cases "look t s k") (simp_all add: members_def)
  then show ?thesis by blast
qed simp

lemma add_step:
  assumes "mirrors look kind now M s" "kind k = Members"
  shows "fst (rs_sadd call now k m s) = Inr () \<and> mirrors look kind now (st_sadd k m M) (snd (rs_sadd call now k m s))"
proof -
  note i = set_mirror [OF assms order.refl]
  note c = SADD [OF i [THEN conjunct1], of _ m]
  have "mirrors look kind now (st_sadd k m M) (snd (call now (SADD k m) s))"
    unfolding st_sadd_def using i set_no_deadline [OF assms]
    by (intro mirrors_set [OF assms, where x = "Some (RSet (insert m (members (look now s k))))"])
      (simp_all add: c, simp_all add: is_set_def members_def)
  then show ?thesis using c [OF order.refl, THEN conjunct1] by (cases "call now (SADD k m) s") (auto simp: rs_sadd_def answer_def)
qed

lemma remove_step:
  assumes "mirrors look kind now M s" "kind k = Members"
  shows "fst (rs_srem call now k m s) = Inr () \<and> mirrors look kind now (st_srem k m M) (snd (rs_srem call now k m s))"
proof -
  note i = set_mirror [OF assms order.refl]
  note c = SREM [OF i [THEN conjunct1], of _ m]
  have "mirrors look kind now (st_srem k m M) (snd (call now (SREM k m) s))"
    unfolding st_srem_def using i set_no_deadline [OF assms]
    by (intro mirrors_set [OF assms, where x = "set_or_none (members (look now s k) - {m})"])
      (simp_all add: c, auto simp: is_set_def members_def set_or_none_def)
  then show ?thesis using c [OF order.refl, THEN conjunct1] by (cases "call now (SREM k m) s") (auto simp: rs_srem_def answer_def)
qed

text \<open>A read keeps both stores.\<close>

lemma mirrors_read: "mirrors look kind now M s \<Longrightarrow> (\<And>t j. now \<le> t \<Longrightarrow> look t s' j = look t s j) \<Longrightarrow> mirrors look kind now M s'"
  by (auto simp: mirrors_def)

lemma member_step:
  assumes "mirrors look kind now M s" "kind k = Members"
  shows "fst (rs_sismember call now k m s) = Inr (st_sismember k m M) \<and> mirrors look kind now M (snd (rs_sismember call now k m s))"
proof -
  note i = set_mirror [OF assms order.refl]
  have "mirrors look kind now M (snd (call now (SISMEMBER k m) s))"
    by (rule mirrors_read [OF assms(1)]) (rule reads [of _ k m], simp_all)
  then show ?thesis using SISMEMBER [OF i [THEN conjunct1], of m] i
    by (cases "call now (SISMEMBER k m) s") (auto simp: rs_sismember_def answer_def truth_def st_sismember_def)
qed

lemma list_step:
  assumes "mirrors look kind now M s" "kind k = Members"
  shows "fst (rs_smembers call now k s) = Inr (set (st_smembers k M)) \<and> mirrors look kind now M (snd (rs_smembers call now k s))"
proof -
  note i = set_mirror [OF assms order.refl]
  have "mirrors look kind now M (snd (call now (SMEMBERS k) s))"
    by (rule mirrors_read [OF assms(1)]) (rule reads [of _ k], simp_all)
  then show ?thesis using SMEMBERS [OF i [THEN conjunct1]] i
    by (cases "call now (SMEMBERS k) s") (auto simp: rs_smembers_def answer_def listed_def st_smembers_def)
qed

text \<open>Windows.\<close>

lemma window_mirror: "mirrors look kind now M s \<Longrightarrow> kind k = Window w \<Longrightarrow> now \<le> t \<Longrightarrow>
    is_zset (look t s k) \<and> live (t - of_int w) {(m, y). scores (look t s k) m = Some y} = live (t - of_int w) (set (zsets M k))"
  using mirrorsD [of kind now M s t k] by (simp add: key_mirrors_def)

lemma count_in_step:
  assumes "mirrors look kind now M s" "kind k = Window w" "off_edge (now - of_int w) (look now s k) (zsets M k)"
  shows "fst (rs_zcount_window call now now k w s) = Inr (st_zcount_window now k w M) \<and> mirrors look kind now M (snd (rs_zcount_window call now now k w s))"
proof -
  let ?b = "now - of_int w" and ?F = "scores (look now s k)"
  note i = window_mirror [OF assms(1,2) order.refl]
  have "{m. \<exists>x. ?F m = Some x \<and> ?b \<le> x} = fst ` live ?b {(m, y). ?F m = Some y}"
    using assms(3) by (force simp: live_def off_edge_def order.order_iff_strict)
  also have "\<dots> = fst ` set (filter (\<lambda>(m, ts). ts \<ge> ?b) (zsets M k))"
    unfolding i [THEN conjunct2] using assms(3) by (intro arg_cong [where f = "image fst"]) (auto simp: live_def off_edge_def order.order_iff_strict)
  finally have "card {m. \<exists>x. ?F m = Some x \<and> ?b \<le> x} = st_zcount_window now k w M"
    using assms(1) using card_filter_keys [of "zsets M k" "\<lambda>(m, ts). ts \<ge> ?b"] by (simp only: st_zcount_window_def mirrors_def)
  then have c: "fst (call now (ZCOUNT k ?b) s) = RNumber (st_zcount_window now k w M)" using ZCOUNT [OF i [THEN conjunct1], of ?b] by simp
  have "mirrors look kind now M (snd (call now (ZCOUNT k ?b) s))"
    by (rule mirrors_read [OF assms(1)]) (rule reads [of _ k _ ?b], simp_all)
  with c show ?thesis by (cases "call now (ZCOUNT k ?b) s") (simp add: rs_zcount_window_def answer_def number_def)
qed

definition recent :: "real \<Rightarrow> (string \<rightharpoonup> real) \<Rightarrow> string \<rightharpoonup> real" where
  "recent b F = (\<lambda>m. case F m of Some x \<Rightarrow> if b < x then Some x else None | None \<Rightarrow> None)"

text \<open>The four commands of the pipeline.\<close>

lemma zadd_pipeline:
  assumes z: "is_zset (look now s k)" and n: "scores (look now s k) m = None" and w: "0 < w"
  shows "\<exists>s'. rs_zadd_window call now now k w m s = (Inr (Suc (card (dom (recent (now - of_int w) (scores (look now s k)))))), s') \<and>
    (\<forall>t \<ge> now. \<forall>j. look t s' j = (if j = k then (if now + of_int (w * 2) < t then None
       else Some (RZset ((recent (now - of_int w) (scores (look now s k)))(m \<mapsto> now)))) else look t s j))"
proof -
  let ?b = "now - of_int w" and ?G = "recent (now - of_int w) (scores (look now s k))"
  obtain r1 s1 where 1: "call now (ZREMRANGEBYSCORE k ?b) s = (r1, s1)" by fastforce
  obtain r2 s2 where 2: "call now (ZADD k m now) s1 = (r2, s2)" by fastforce
  obtain r3 s3 where 3: "call now (ZCARD k) s2 = (r3, s3)" by fastforce
  obtain r4 s4 where 4: "call now (EXPIRE k (w * 2)) s3 = (r4, s4)" by fastforce
  note c1 = ZREMRANGEBYSCORE [OF z, of _ ?b, unfolded 1 fst_conv snd_conv, folded recent_def]
  have l1: "look now s1 k = zset_or_none ?G" using c1 [of now k] by simp
  then have s1: "is_zset (look now s1 k)" "scores (look now s1 k) = ?G" by (simp_all add: zset_or_none_def is_zset_def scores_def)
  note c2 = ZADD [OF s1(1), of _ m now, unfolded 2 fst_conv snd_conv s1(2)]
  have l2: "look now s2 k = Some (RZset (?G(m \<mapsto> now)))" using c2 [of now k] l1 by simp
  have l3: "now \<le> t \<Longrightarrow> look t s3 j = look t s2 j" for t j using reads [of "ZCARD k" k _ _ now t s2 j] 3 by simp
  note c4 = EXPIRE [of "w * 2" now _ k s3, unfolded 4 fst_conv snd_conv]
  have g: "?G m = None" using n by (simp add: recent_def)
  have f: "finite (dom ?G)" by (rule finite_subset [OF _ finite_scores [of now s k]]) (auto simp: recent_def split: option.splits if_splits)
  have r3: "r3 = RNumber (Suc (card (dom ?G)))" using ZCARD [of now s2 k] 3 l2 f g by (auto simp: is_zset_def scores_def card_insert_if)
  obtain n1 n2 n4 where r: "r1 = RNumber n1" "r2 = RNumber n2" "r4 = RNumber n4" using c1 [of now k] c2 [of now k] c4 [of now k] w by auto
  have "rs_zadd_window call now now k w m s = (Inr (Suc (card (dom ?G))), s4)"
    by (simp add: rs_zadd_window_def 1 2 3 4 r r3 first_error_def number_def numeral_2_eq_2)
  moreover have "now \<le> t \<Longrightarrow> look t s4 j = (if j = k then (if now + of_int (w * 2) < t then None else Some (RZset (?G(m \<mapsto> now)))) else look t s j)" for t j
    using c4 [of t j] w l3 [of t j] l3 [of now k] l2 c1 [of t j] c2 [of t j] by simp
  ultimately show ?thesis by blast
qed

lemma recent_live: "{(m, y). recent b F m = Some y} = live b {(m, y). F m = Some y}"
  by (auto simp: recent_def live_def split: option.splits if_splits)

lemma count_up_step:
  assumes "mirrors look kind now M s" "kind k = Window w" "0 < w" "off_edge (now - of_int w) (look now s k) (zsets M k)"
    and "m \<notin> fst ` set (zsets M k)" "scores (look now s k) m = None"
  shows "fst (rs_zadd_window call now now k w m s) = Inr (fst (st_zadd_window now k w m M)) \<and>
    mirrors look kind now (snd (st_zadd_window now k w m M)) (snd (rs_zadd_window call now now k w m s))"
proof -
  let ?b = "now - of_int w" and ?F = "scores (look now s k)" and ?M' = "snd (st_zadd_window now k w m M)"
  let ?G = "recent ?b ?F" and ?L = "filter (\<lambda>(m, ts). \<not> ts < ?b) (zsets M k)"
  note i = window_mirror [OF assms(1,2) order.refl]
  obtain s' where rs: "rs_zadd_window call now now k w m s = (Inr (Suc (card (dom ?G))), s')"
    and l: "\<And>t j. now \<le> t \<Longrightarrow> look t s' j = (if j = k then (if now + of_int (w * 2) < t then None else Some (RZset (?G(m \<mapsto> now)))) else look t s j)"
    using zadd_pipeline [OF i [THEN conjunct1] assms(6,3)] by blast
  have ms: "st_zadd_window now k w m M = (Suc (length ?L), M\<lparr>zsets := (zsets M)(k := ?L @ [(m, now)])\<rparr>)"
    by (simp only: st_zadd_window_def Let_def zadd_filter_fresh [OF assms(5)]) simp
  have d: "distinct (map fst (zsets M k))" and le: "\<And>j p. p \<in> set (zsets M j) \<Longrightarrow> snd p \<le> now" using assms(1) by (fastforce simp: mirrors_def)+
  have G: "{(m, y). ?G m = Some y} = set ?L"
    unfolding recent_live i [THEN conjunct2] using assms(4) by (auto simp: live_def off_edge_def order.order_iff_strict not_less)
  have "dom ?G = fst ` {(m, y). ?G m = Some y}" by force
  then have count: "card (dom ?G) = length ?L" unfolding G using card_filter_keys [OF d] by simp
  have "?G m = None" using assms(6) by (simp add: recent_def)
  then have "{(j, y). (?G(m \<mapsto> now)) j = Some y} = insert (m, now) {(j, y). ?G j = Some y}" by (auto split: if_splits)
  then have G': "{(j, y). (?G(m \<mapsto> now)) j = Some y} = set (?L @ [(m, now)])" by (simp only: G) simp
  have "mirrors look kind now ?M' s'"
    unfolding mirrors_def
  proof (intro conjI allI impI)
    fix j t assume t: "now \<le> t"
    show "key_mirrors (kind j) t ?M' (look t s' j) j"
    proof (cases "j = k")
      case True
      have "live (t - of_int w) (set (?L @ [(m, now)])) = {}" if "now + of_int (w * 2) < t"
        using that le [of _ k] assms(3) by (force simp: live_def)
      then show ?thesis using True t G' assms(2)
        by (auto simp: key_mirrors_def ms l is_zset_def scores_def live_def)
    next
      case False
      with mirrorsD [OF assms(1) t, of j] t show ?thesis by (cases "kind j") (simp_all add: key_mirrors_def ms l st_look_other)
    qed
  next
    fix j show "distinct (map fst (zsets ?M' j))" using assms(1,5) d by (auto simp: ms mirrors_def intro: distinct_map_filter)
    show "\<forall>(m, x) \<in> set (zsets ?M' j). x \<le> now" by (cases "j = k") (auto simp: ms dest!: le)
  qed
  then show ?thesis by (simp add: rs ms count)
qed

text \<open>One request, and any sequence of them.\<close>

lemma serve_step:
  assumes "mirrors look kind now M s" "proper kind now M (look now s) q"
  shows "fst (redis_serve call now q s) = fst (mem_serve now q M) \<and> mirrors look kind now (snd (mem_serve now q M)) (snd (redis_serve call now q s))"
  using assms
  by (cases q) (simp_all add: reported_def get_step put_step put_new_step delete_if_step add_step remove_step member_step list_step count_up_step count_in_step)

end

text \<open>Requests at given times, served one after the other.\<close>

fun answers :: "(real \<Rightarrow> 'q \<Rightarrow> 's \<Rightarrow> 'r \<times> 's) \<Rightarrow> (real \<times> 'q) list \<Rightarrow> 's \<Rightarrow> 'r list" where
  "answers f [] s = []"
| "answers f ((t, q) # qs) s = (case f t q s of (r, s') \<Rightarrow> r # answers f qs s')"

fun proper_run :: "('v, 's) server \<Rightarrow> (real \<Rightarrow> 's \<Rightarrow> string \<Rightarrow> 'v rvalue option) \<Rightarrow> (string \<Rightarrow> key_kind) \<Rightarrow> real \<Rightarrow>
    (real \<times> 'v store_request) list \<Rightarrow> 'v store \<Rightarrow> 's \<Rightarrow> bool" where
  "proper_run call look kind now [] M s \<longleftrightarrow> True"
| "proper_run call look kind now ((t, q) # qs) M s \<longleftrightarrow> now \<le> t \<and> proper kind t M (look t s) q \<and>
     proper_run call look kind t qs (snd (mem_serve t q M)) (snd (redis_serve call t q s))"

context redis_server begin

lemma serve_all_same:
  assumes "mirrors look kind now M s" "proper_run call look kind now qs M s"
  shows "answers (redis_serve call) qs s = answers mem_serve qs M"
  using assms
proof (induction qs arbitrary: now M s)
  case (Cons p qs)
  obtain t q where p: "p = (t, q)" by fastforce
  with Cons.prems have m: "mirrors look kind t M s" and q: "proper kind t M (look t s) q" using mirrors_later by auto
  from serve_step [OF m q] Cons.IH [of t "snd (mem_serve t q M)" "snd (redis_serve call t q s)"] Cons.prems(2)
  show ?case by (auto simp: p split: prod.split)
qed simp

end

section \<open>A server that keeps the laws\<close>

text \<open>The laws can be met: a server over a map of cells with deadlines, which witnesses them.\<close>

datatype 'v cell = CStr 'v | CSet "string list" | CZset "(string \<times> real) list"

type_synonym 'v cells = "string \<rightharpoonup> 'v cell \<times> real option"

definition cell_value :: "'v cell \<Rightarrow> 'v rvalue option" where
  "cell_value c = (case c of CStr v \<Rightarrow> Some (RStr v) | CSet ms \<Rightarrow> set_or_none (set ms) | CZset z \<Rightarrow> zset_or_none (map_of z))"

definition visible :: "real \<Rightarrow> 'v cells \<Rightarrow> string \<Rightarrow> 'v rvalue option" where
  "visible t s k = (case s k of None \<Rightarrow> None
     | Some (c, deadline) \<Rightarrow> if (case deadline of None \<Rightarrow> False | Some d \<Rightarrow> d < t) then None else cell_value c)"

definition deadline_of :: "real \<Rightarrow> 'v cells \<Rightarrow> string \<Rightarrow> real option" where
  "deadline_of now s k = (if visible now s k = None then None else Option.bind (s k) snd)"

definition set_cell :: "real \<Rightarrow> 'v cells \<Rightarrow> string \<Rightarrow> string list" where
  "set_cell now s k = (case visible now s k of None \<Rightarrow> [] | _ \<Rightarrow> (case s k of Some (CSet ms, _) \<Rightarrow> ms | _ \<Rightarrow> []))"

definition zset_cell :: "real \<Rightarrow> 'v cells \<Rightarrow> string \<Rightarrow> (string \<times> real) list" where
  "zset_cell now s k = (case visible now s k of None \<Rightarrow> [] | _ \<Rightarrow> (case s k of Some (CZset z, _) \<Rightarrow> AList.clearjunk z | _ \<Rightarrow> []))"

fun serve_command :: "real \<Rightarrow> 'v command \<Rightarrow> 'v cells \<Rightarrow> 'v reply \<times> 'v cells" where
  "serve_command now (GET k) s = (case visible now s k of None \<Rightarrow> RNil | Some (RStr v) \<Rightarrow> RBulk v | _ \<Rightarrow> RError ''WRONGTYPE'', s)"
| "serve_command now (SET k v nx ex) s = (if (case ex of None \<Rightarrow> False | Some e \<Rightarrow> e \<le> 0) then (RError ''invalid expire time'', s)
     else if nx \<and> visible now s k \<noteq> None then (RNil, s)
     else (ROk, s(k \<mapsto> (CStr v, map_option (\<lambda>e. now + of_int e) ex))))"
| "serve_command now (DEL k) s = (RNumber (if visible now s k = None then 0 else 1), s(k := None))"
| "serve_command now (SADD k m) s = (RNumber (if m \<in> set (set_cell now s k) then 0 else 1), s(k \<mapsto> (CSet (m # set_cell now s k), deadline_of now s k)))"
| "serve_command now (SREM k m) s = (RNumber (if m \<in> set (set_cell now s k) then 1 else 0), s(k \<mapsto> (CSet (removeAll m (set_cell now s k)), deadline_of now s k)))"
| "serve_command now (SISMEMBER k m) s = (RNumber (if m \<in> set (set_cell now s k) then 1 else 0), s)"
| "serve_command now (SMEMBERS k) s = (RMembers (set_cell now s k), s)"
| "serve_command now (ZREMRANGEBYSCORE k b) s = (RNumber (length (filter (\<lambda>(m, x). x \<le> b) (zset_cell now s k))),
     s(k \<mapsto> (CZset (filter (\<lambda>(m, x). b < x) (zset_cell now s k)), deadline_of now s k)))"
| "serve_command now (ZADD k m x) s = (RNumber 1, s(k \<mapsto> (CZset ((m, x) # zset_cell now s k), deadline_of now s k)))"
| "serve_command now (ZCARD k) s = (RNumber (length (zset_cell now s k)), s)"
| "serve_command now (ZCOUNT k b) s = (RNumber (length (filter (\<lambda>(m, x). b \<le> x) (zset_cell now s k))), s)"
| "serve_command now (EXPIRE k n) s = (case s k of Some (c, _) \<Rightarrow> if visible now s k = None then (RNumber 0, s(k := None))
     else (RNumber 1, s(k \<mapsto> (c, Some (now + of_int n)))) | None \<Rightarrow> (RNumber 0, s))"

lemma zset_cell_distinct: "distinct (map fst (zset_cell now s k))"
  by (auto simp: zset_cell_def distinct_clearjunk split: option.split cell.split)

lemma set_cell_members: "is_set (visible now s k) \<Longrightarrow> set (set_cell now s k) = members (visible now s k)"
  by (auto simp: set_cell_def members_def visible_def cell_value_def is_set_def set_or_none_def zset_or_none_def
      split: option.splits prod.splits cell.splits if_splits)

lemma zset_cell_scores: "is_zset (visible now s k) \<Longrightarrow> map_of (zset_cell now s k) = scores (visible now s k)"
  by (auto simp: zset_cell_def scores_def visible_def cell_value_def is_zset_def set_or_none_def zset_or_none_def map_of_clearjunk
      split: option.splits prod.splits cell.splits if_splits)

lemma visible_put: "now \<le> t \<Longrightarrow> visible t (s(k \<mapsto> (c, deadline_of now s k))) j =
    (if j = k then updated (visible now s k) (visible t s k) (cell_value c) else visible t s j)"
  by (auto simp: visible_def deadline_of_def updated_def cell_value_def split: option.splits prod.splits if_splits)

lemma visible_finite: "finite (dom (scores (visible now s k)))"
  by (auto simp: visible_def cell_value_def scores_def set_or_none_def zset_or_none_def finite_dom_map_of
      split: option.split prod.split cell.split)

lemma length_filter_scores:
  assumes "is_zset (visible now s k)"
  shows "length (filter (\<lambda>(m, x). P x) (zset_cell now s k)) = card {m. \<exists>x. scores (visible now s k) m = Some x \<and> P x}"
proof -
  have "fst ` set (filter (\<lambda>(m, x). P x) (zset_cell now s k)) = {m. \<exists>x. scores (visible now s k) m = Some x \<and> P x}"
    unfolding zset_cell_scores [OF assms, symmetric] using zset_cell_distinct [of now s k] by (force simp: map_of_eq_Some_iff)
  with card_filter_keys [OF zset_cell_distinct [of now s k], of "\<lambda>(m, x). P x"] show ?thesis by simp
qed

lemma map_of_filter_scores:
  "distinct (map fst z) \<Longrightarrow> map_of (filter (\<lambda>(m, x). P x) z) m = (case map_of z m of Some x \<Rightarrow> if P x then Some x else None | None \<Rightarrow> None)"
  by (induction z) (auto simp: map_of_eq_None_iff image_iff split: option.split)

lemma visible_gone: "now \<le> t \<Longrightarrow> visible now s k = None \<Longrightarrow> visible t s k = None"
  by (auto simp: visible_def split: option.splits prod.splits if_splits)

lemma visible_stays: "now \<le> t \<Longrightarrow> visible t s k = Some y \<Longrightarrow> visible now s k = Some y"
  by (auto simp: visible_def split: option.splits prod.splits if_splits)

lemma cell_value_zset [simp]: "cell_value (CZset z) = zset_or_none (map_of z)" "cell_value (CSet ms) = set_or_none (set ms)"
  "cell_value (CStr v) = Some (RStr v)"
  by (simp_all add: cell_value_def)

interpretation reference_server: redis_server serve_command visible
proof (unfold_locales, goal_cases)
  case (1 now t s k) then show ?case by (rule visible_gone)
next
  case (2 now t s k y) then show ?case by (rule visible_stays)
next
  case (3 now s k) show ?case
    by (auto simp: visible_def cell_value_def set_or_none_def zset_or_none_def split: option.splits prod.splits cell.splits if_splits)
next
  case (4 now s k) show ?case by (rule visible_finite)
next
  case (5 now s k) then show ?case by (auto simp: is_plain_def split: option.splits rvalue.splits)
next
  case (6 now s k m) then show ?case by (simp add: set_cell_members)
next
  case (7 now s k) then show ?case by (simp add: set_cell_members)
next
  case (8 now s k) then show ?case using length_filter_scores [of now s k "\<lambda>_. True"] by (simp add: dom_def)
next
  case (9 now s k b) then show ?case using length_filter_scores [of now s k "\<lambda>x. b \<le> x"] by simp
next
  case (10 c j m b now t s k) then show ?case by auto
next
  case (11 e now k v nx s) then show ?case by simp
next
  case (12 ex now s k t v j) then show ?case by (auto split: option.splits)
next
  case (13 ex nx now s k t v j) then show ?case by (auto simp: visible_def split: option.splits)
next
  case (14 now t k s j) then show ?case by (simp add: visible_def)
next
  case (15 now s k t m j) then show ?case by (auto simp: visible_put set_cell_members set_or_none_def)
next
  case (16 now s k t m j) then show ?case by (simp add: visible_put set_cell_members)
next
  case (17 now s k t b j)
  have "map_of (filter (\<lambda>(m, x). b < x) (zset_cell now s k)) =
      (\<lambda>m. case map_of (zset_cell now s k) m of Some x \<Rightarrow> if b < x then Some x else None | None \<Rightarrow> None)"
    by (rule ext) (rule map_of_filter_scores [OF zset_cell_distinct, where P = "\<lambda>x. b < x"])
  with 17 show ?case by (simp add: visible_put zset_cell_scores)
next
  case (18 now s k t m x j) then show ?case by (simp add: visible_put zset_cell_scores zset_or_none_def)
next
  case (19 n now t k s j) then show ?case
    by (auto simp: visible_def split: option.splits prod.splits if_splits)
qed

section \<open>Dropping the replay state\<close>

text \<open>
  The branch of \<open>reset_replay_state\<close> (\<open>payments.py\<close>) for Redis. \<open>scan now p s\<close> are the keys the
  server's scan yields for the pattern \<open>p*\<close>. What the in-process branch drops besides (locks and the
  windows of the edge limiter) stays.
\<close>

definition replay_prefixes :: "string list" where
  "replay_prefixes = [''agentpay:idem:'', ''agentpay:fp:'', ''agentpay:velocity:'', ''agentpay:approval:'']"

fun delete_all :: "('v, 's) server \<Rightarrow> real \<Rightarrow> string list \<Rightarrow> 's \<Rightarrow> 's" where
  "delete_all call now [] s = s"
| "delete_all call now (k # ks) s = delete_all call now ks (snd (call now (DEL k) s))"

definition drop_prefix :: "('v, 's) server \<Rightarrow> (real \<Rightarrow> string \<Rightarrow> 's \<Rightarrow> string list) \<Rightarrow> real \<Rightarrow> string \<Rightarrow> 's \<Rightarrow> 's" where
  "drop_prefix call scan now p s = delete_all call now (scan now p s) s"

definition redis_reset_replay :: "('v, 's) server \<Rightarrow> (real \<Rightarrow> string \<Rightarrow> 's \<Rightarrow> string list) \<Rightarrow> real \<Rightarrow> 's \<Rightarrow> 's" where
  "redis_reset_replay call scan now s = foldl (\<lambda>s p. drop_prefix call scan now p s) s replay_prefixes"

context redis_server begin

lemma delete_all_look: "now \<le> t \<Longrightarrow> look t (delete_all call now ks s) j = (if j \<in> set ks then None else look t s j)"
  by (induction ks arbitrary: s) (simp_all add: DEL)

text \<open>A scan that yields every key with the prefix, and no other.\<close>

lemma drop_prefix_look:
  assumes "\<And>s. set (scan now p s) = {k. look now s k \<noteq> None \<and> startswith k p}" "now \<le> t"
  shows "look t (drop_prefix call scan now p s) j = (if startswith j p then None else look t s j)"
  using assms gone [OF assms(2), of s j] by (auto simp: drop_prefix_def delete_all_look)

lemma reset_replay_look:
  assumes "\<And>p s. set (scan now p s) = {k. look now s k \<noteq> None \<and> startswith k p}" "now \<le> t"
  shows "look t (redis_reset_replay call scan now s) j = (if list_ex (startswith j) replay_prefixes then None else look t s j)"
  by (simp add: redis_reset_replay_def replay_prefixes_def drop_prefix_look [where scan = scan and now = now, OF assms])

end

lemmas redis_demo_simps = store_defs empty_store_def expiry_of_def ttl_ok_def off_edge_def reported_def rs_set_nx_def rs_delete_if_value_def
  unlock_script_def rs_zadd_window_def rs_zcount_window_def answer_def truth_def number_def bulk_def first_error_def visible_def cell_value_def
  set_or_none_def zset_or_none_def scores_def zset_cell_def deadline_of_def st_zadd_window_def st_zcount_window_def Let_def

end
