(* ===== verification/Startup.thy ===== *)
theory Startup
  imports Outcomes Control
begin

text \<open>
  What must hold before a service answers: \<open>gateway/main.py\<close>, \<open>gateway/db.py\<close>, \<open>get_store\<close> of
  \<open>gateway/store.py\<close>, \<open>control_plane/main.py\<close>, the readiness report of \<open>gateway/routes/health.py\<close> and the
  probe that reads it (\<open>scripts/smoke.py\<close>), and the key pairs of \<open>scripts/gen_keys.py\<close>.
\<close>

section \<open>The store of a process\<close>

datatype store_kind = InProcess | AtRedis string

text \<open>The module's \<open>_store\<close>, which \<open>get_store\<close> fills and \<open>reset_store\<close> clears.\<close>

definition get_store :: "settings \<Rightarrow> store_kind option \<Rightarrow> (exn + store_kind) \<times> store_kind option" where
  "get_store c cached = (case cached of Some k \<Rightarrow> (Inr k, cached)
     | None \<Rightarrow> if startswith (cfg_redis_url c) ''memory://'' then
           (if cfg_environment c = ''production'' then (Inl (RuntimeErr ''memory:// store is not permitted in production''), None)
            else (Inr InProcess, Some InProcess))
         else (Inr (AtRedis (cfg_redis_url c)), Some (AtRedis (cfg_redis_url c))))"

definition reset_store :: "store_kind option \<Rightarrow> store_kind option" where "reset_store cached = None"

section \<open>The databases\<close>

text \<open>\<open>get_engine\<close>: the pool size and overflow of a server database; SQLite has no pool to size.\<close>

definition pool_of :: "string \<Rightarrow> nat \<times> nat \<Rightarrow> (nat \<times> nat) option" where
  "pool_of url sizes = (if startswith url ''sqlite'' then None else Some sizes)"

record engine =
  en_url :: string
  en_pool :: "(nat \<times> nat) option"

definition get_engine :: "settings \<Rightarrow> engine option \<Rightarrow> engine option" where
  "get_engine c cached = (case cached of Some e \<Rightarrow> Some e
     | None \<Rightarrow> Some \<lparr>en_url = cfg_database_url c, en_pool = pool_of (cfg_database_url c) (10, 20)\<rparr>)"

definition checkpoint_engine :: "settings \<Rightarrow> engine option \<Rightarrow> engine option" where
  "checkpoint_engine c cached = (case cached of Some e \<Rightarrow> Some e
     | None \<Rightarrow> Some \<lparr>en_url = cfg_checkpoint_database_url c, en_pool = pool_of (cfg_checkpoint_database_url c) (5, 5)\<rparr>)"

text \<open>What a process holds between requests.\<close>

record process =
  ps_store :: "store_kind option"
  ps_engine :: "engine option"
  ps_checkpoints :: "engine option"

record boot =
  bt_process :: process
  bt_world :: world

type_synonym 'a booting = "(boot, exn, 'a) prog"

text \<open>\<open>create_all\<close> adds the tables that are missing and leaves their rows.\<close>

definition create_all :: "env \<Rightarrow> unit booting" where
  "create_all E = (\<lambda>b. let w = bt_world b; b1 = b\<lparr>bt_world := tick E w\<rparr> in
     if e_db_ok E (ops w) then (Inr (), b1) else (Inl DbDown, b1))"

definition init_db :: "env \<Rightarrow> unit booting" where
  "init_db E = thenE (modifyE (\<lambda>b. b\<lparr>bt_process := (bt_process b)\<lparr>ps_engine := get_engine (e_cfg E) (ps_engine (bt_process b))\<rparr>\<rparr>)) (create_all E)"

definition init_checkpoint_db :: "env \<Rightarrow> unit booting" where
  "init_checkpoint_db E = (if cfg_checkpoint_database_url (e_cfg E) = '''' then ret ()
     else thenE (modifyE (\<lambda>b. b\<lparr>bt_process := (bt_process b)\<lparr>ps_checkpoints := checkpoint_engine (e_cfg E) (ps_checkpoints (bt_process b))\<rparr>\<rparr>)) (create_all E))"

definition dispose_db :: "process \<Rightarrow> process" where "dispose_db p = p\<lparr>ps_engine := None\<rparr>"
definition dispose_checkpoint_db :: "process \<Rightarrow> process" where "dispose_checkpoint_db p = p\<lparr>ps_checkpoints := None\<rparr>"

section \<open>Starting the gateway\<close>

definition relaxed :: "string \<Rightarrow> bool" where
  "relaxed environment \<longleftrightarrow> lower environment \<in> {''dev'', ''test'', ''local''}"

text \<open>\<open>await get_store().ping()\<close>, whose every failure is only logged.\<close>

definition ping_store :: "env \<Rightarrow> unit booting" where
  "ping_store E = (\<lambda>b. case get_store (e_cfg E) (ps_store (bt_process b)) of
       (Inl e, k) \<Rightarrow> (Inl e, b\<lparr>bt_process := (bt_process b)\<lparr>ps_store := k\<rparr>\<rparr>)
     | (Inr _, k) \<Rightarrow> let w = bt_world b; b1 = b\<lparr>bt_process := (bt_process b)\<lparr>ps_store := k\<rparr>, bt_world := tick E w\<rparr> in
         if e_store_ok E (ops w) then (Inr (), b1) else (Inl StoreDown, b1))"

definition gateway_start :: "env \<Rightarrow> unit booting" where
  "gateway_start E = (if cfg_allow_degraded_classifier (e_cfg E) \<and> \<not> relaxed (cfg_environment (e_cfg E))
     then raise (RuntimeErr ''ALLOW_DEGRADED_CLASSIFIER is set outside dev/test'')
     else thenE (init_db E) (thenE (init_checkpoint_db E) (thenE (tryE (ping_store E)) (ret ()))))"

definition gateway_stop :: "process \<Rightarrow> process" where
  "gateway_stop p = dispose_db (dispose_checkpoint_db (p\<lparr>ps_store := reset_store (ps_store p)\<rparr>))"

text \<open>The control plane, whose settings are its own: here those of \<open>E\<close>.\<close>

definition control_start :: "env \<Rightarrow> unit booting" where
  "control_start E = (if e_admin_api_key E = '''' \<and> \<not> relaxed (cfg_environment (e_cfg E))
     then raise (RuntimeErr ''ADMIN_API_KEY is not set'') else init_db E)"

section \<open>What a start guarantees\<close>

lemma gateway_start_guard:
  "gateway_start E b = (Inr (), b') \<Longrightarrow> cfg_allow_degraded_classifier (e_cfg E) \<Longrightarrow> relaxed (cfg_environment (e_cfg E))"
  by (auto simp: gateway_start_def raise_def split: if_splits)

lemma control_start_guard:
  "control_start E b = (Inr (), b') \<Longrightarrow> \<not> relaxed (cfg_environment (e_cfg E)) \<Longrightarrow> e_admin_api_key E \<noteq> ''''"
  by (auto simp: control_start_def raise_def split: if_splits)

text \<open>Nothing but the guard and the databases can stop a start.\<close>

lemma create_all_runs: "(\<And>n. e_db_ok E n) \<Longrightarrow> \<exists>b'. create_all E b = (Inr (), b')"
  by (simp add: create_all_def Let_def)

lemma ping_store_caught: "\<exists>r b'. tryE (ping_store E) b = (Inr r, b')"
  by (cases "ping_store E b") (auto simp: tryE_def)

lemma gateway_starts:
  assumes "\<And>n. e_db_ok E n" "cfg_allow_degraded_classifier (e_cfg E) \<Longrightarrow> relaxed (cfg_environment (e_cfg E))"
  shows "\<exists>b'. gateway_start E b = (Inr (), b')"
proof -
  have d: "\<exists>b'. init_db E v = (Inr (), b')" for v
    using create_all_runs [OF assms(1)] by (auto simp: init_db_def thenE_def bindE_def modifyE_def)
  have c: "\<exists>b'. init_checkpoint_db E v = (Inr (), b')" for v
    using create_all_runs [OF assms(1)] by (auto simp: init_checkpoint_db_def thenE_def bindE_def modifyE_def ret_def)
  obtain b1 where 1: "init_db E b = (Inr (), b1)" using d by blast
  obtain b2 where 2: "init_checkpoint_db E b1 = (Inr (), b2)" using c by blast
  obtain r b3 where "tryE (ping_store E) b2 = (Inr r, b3)" using ping_store_caught by blast
  with 1 2 assms(2) show ?thesis by (auto simp: gateway_start_def thenE_def bindE_def ret_def)
qed

text \<open>A gateway that runs outside development never pays on an outage of the classifier without a human.\<close>

lemma started_screening:
  assumes "opa_faithful E" "gateway_start E b = (Inr (), b')" "\<not> relaxed (cfg_environment (e_cfg E))"
    and "provider (snd (create_payment_intent E p h xr x w)) \<noteq> provider w"
  shows "\<exists>i pa t a v v'. now w \<le> t \<and> t \<le> now v \<and> analyze E (build_canonical E p i pa t) v = (Inr a, v') \<and>
    (approved_after E (build_canonical E p i pa t) t \<or> \<not> an_classifier_degraded a)"
proof -
  have "\<not> cfg_allow_degraded_classifier (e_cfg E)" using gateway_start_guard [OF assms(2)] assms(3) by blast
  with charge_screened [OF assms(1,4)] show ?thesis unfolding needs_no_human_def by metis
qed

text \<open>The in-process store is refused under one spelling of one environment only.\<close>

lemma memory_store_refused:
  "startswith (cfg_redis_url c) ''memory://'' \<Longrightarrow> fst (get_store c None) = Inr InProcess \<longleftrightarrow> cfg_environment c \<noteq> ''production''"
  by (simp add: get_store_def)

lemma stopped_clean: "gateway_stop p = \<lparr>ps_store = None, ps_engine = None, ps_checkpoints = None\<rparr>" if "process.more p = ()" for p
  using that by (simp add: gateway_stop_def dispose_db_def dispose_checkpoint_db_def reset_store_def)

section \<open>Readiness\<close>

datatype check = Okay | HttpStatus nat | CheckError string

datatype llm_mode = Offline | Unconfigured | Live

record readiness =
  rd_ready :: bool
  rd_store :: check
  rd_opa :: check
  rd_llm_mode :: llm_mode
  rd_fail_closed :: bool
  rd_degraded_routes_to_review :: bool

definition llm_mode_of :: "settings \<Rightarrow> llm_mode" where
  "llm_mode_of c = (if cfg_classifier_offline c then Offline else if cfg_groq_api_key c = '''' then Unconfigured else Live)"

text \<open>The outcome of the ping, and of OPA's health route: a status or an exception.\<close>

definition readyz :: "settings \<Rightarrow> string + unit \<Rightarrow> string + nat \<Rightarrow> readiness" where
  "readyz c ping opa = (let
     st = (case ping of Inr _ \<Rightarrow> Okay | Inl e \<Rightarrow> CheckError e);
     op = (case opa of Inl e \<Rightarrow> CheckError e | Inr s \<Rightarrow> if s = 200 then Okay else HttpStatus s)
     in \<lparr>rd_ready = list_all (\<lambda>x. x = Okay) [st, op], rd_store = st, rd_opa = op, rd_llm_mode = llm_mode_of c,
       rd_fail_closed = (\<not> cfg_allow_degraded_classifier c), rd_degraded_routes_to_review = cfg_degraded_requires_review c\<rparr>)"

lemma readyz_ready: "rd_ready (readyz c ping opa) \<longleftrightarrow> isl ping = False \<and> opa = Inr 200"
  by (cases ping; cases opa) (auto simp: readyz_def Let_def)

text \<open>\<open>_probe\<close> and \<open>main\<close> of the smoke test: a route is up if it answers 200 and its key is \<open>True\<close> or \<open>"ok"\<close>.\<close>

datatype probe_answer = ProbeFails string | ProbeStatus nat | ProbeBody "(string \<times> json) list"

definition probe :: "string option \<Rightarrow> probe_answer \<Rightarrow> bool" where
  "probe key r = (case r of ProbeFails e \<Rightarrow> False | ProbeStatus s \<Rightarrow> s = 200 \<and> key = None
     | ProbeBody b \<Rightarrow> (case key of None \<Rightarrow> True | Some k \<Rightarrow> (case map_of b k of Some (JBool v) \<Rightarrow> v | Some (JStr s) \<Rightarrow> s = ''ok'' | Some (JInt n) \<Rightarrow> n = 1 | Some (JFloat x) \<Rightarrow> x = 1 | _ \<Rightarrow> False)))"

definition CHECKS :: "(string \<times> string \<times> string option) list" where
  "CHECKS = [(''web'', ''/'', None), (''gateway'', ''/healthz'', Some ''status''), (''gateway ready'', ''/readyz'', Some ''ready''),
     (''control-plane'', ''/healthz'', Some ''status''), (''agent-sim'', ''/healthz'', Some ''status''), (''agent ready'', ''/readyz'', Some ''ready''),
     (''provider'', ''/healthz'', Some ''status''), (''event-relay'', ''/healthz'', Some ''status'')]"

definition smoke :: "(string \<Rightarrow> probe_answer) \<Rightarrow> nat" where
  "smoke answer_of = (if list_all (\<lambda>(name, path, key). probe key (answer_of name)) CHECKS then 0 else 1)"

section \<open>Key pairs\<close>

text \<open>\<open>_write_pair\<close> and \<open>main\<close>: \<open>fresh\<close> is the generated pair of a name.\<close>

type_synonym files = "string \<rightharpoonup> string"

definition write_pair :: "(string \<Rightarrow> string \<times> string) \<Rightarrow> string \<Rightarrow> files \<Rightarrow> bool \<times> files" where
  "write_pair fresh name fs = (let priv = name @ ''_private.pem''; pub = name @ ''_public.pem'' in
     if fs priv \<noteq> None \<and> fs pub \<noteq> None then (False, fs)
     else (True, fs(priv \<mapsto> fst (fresh name), pub \<mapsto> snd (fresh name))))"

definition PAIRS :: "string list" where "PAIRS = [''delegation'', ''payment'']"

definition gen_keys :: "(string \<Rightarrow> string \<times> string) \<Rightarrow> files \<Rightarrow> files" where
  "gen_keys fresh fs = foldl (\<lambda>fs name. snd (write_pair fresh name fs)) fs PAIRS"

text \<open>Run twice, the second run changes nothing.\<close>

lemma write_pair_keeps: "n \<noteq> m \<Longrightarrow> m = ''delegation'' \<or> m = ''payment'' \<Longrightarrow> n = ''delegation'' \<or> n = ''payment'' \<Longrightarrow>
    snd (write_pair fresh n fs) (m @ ''_private.pem'') = fs (m @ ''_private.pem'') \<and> snd (write_pair fresh n fs) (m @ ''_public.pem'') = fs (m @ ''_public.pem'')"
  by (auto simp: write_pair_def Let_def)

lemma gen_keys_idem: "gen_keys fresh' (gen_keys fresh fs) = gen_keys fresh fs"
  by (simp add: gen_keys_def PAIRS_def write_pair_def Let_def)

end
