(* ===== verification/Health.thy ===== *)
theory Health
  imports Startup Relay Shopper
begin

text \<open>
  The readiness routes as the smoke test reads them: the body of the gateway's (\<open>routes/health.py\<close>), the
  agent's (\<open>agent_simulator/main.py\<close>) and the relay's (\<open>event_relay/main.py\<close>), and what a passed smoke
  test says of them.
\<close>

section \<open>The gateway\<close>

definition check_text :: "check \<Rightarrow> string" where
  "check_text c = (case c of Okay \<Rightarrow> ''ok'' | HttpStatus s \<Rightarrow> ''http '' @ str_nat s | CheckError e \<Rightarrow> ''error: '' @ e)"

definition llm_mode_text :: "llm_mode \<Rightarrow> string" where
  "llm_mode_text m = (case m of Offline \<Rightarrow> ''offline'' | Unconfigured \<Rightarrow> ''unconfigured'' | Live \<Rightarrow> ''live'')"

definition readyz_body :: "settings \<Rightarrow> readiness \<Rightarrow> (string \<times> json) list" where
  "readyz_body c r = [(''ready'', JBool (rd_ready r)),
     (''checks'', JObj [(''store'', JStr (check_text (rd_store r))), (''opa'', JStr (check_text (rd_opa r)))]),
     (''policy_version'', JStr (cfg_policy_version c)),
     (''classifier'', JObj [(''llm_mode'', JStr (llm_mode_text (rd_llm_mode r))), (''fail_closed'', JBool (rd_fail_closed r)),
        (''deterministic_layers'', JList [JStr ''rules'', JStr ''similarity'']),
        (''degraded_routes_to_review'', JBool (rd_degraded_routes_to_review r))])]"

section \<open>The agent\<close>

datatype sim_gateway = GatewayOk | GatewayDegraded | GatewayError string
datatype sim_llm = LlmOffline | LlmLive | LlmMissing

text \<open>\<open>health\<close> is the gateway's body, or the exception of the call; a missing \<open>ready\<close> is false.\<close>

definition truthy_ready :: "(string \<times> json) list \<Rightarrow> bool" where
  "truthy_ready b = (case map_of b ''ready'' of Some (JBool v) \<Rightarrow> v | _ \<Rightarrow> False)"

definition sim_gateway_check :: "string + (string \<times> json) list \<Rightarrow> sim_gateway" where
  "sim_gateway_check health = (case health of Inl e \<Rightarrow> GatewayError e
     | Inr b \<Rightarrow> if truthy_ready b then GatewayOk else GatewayDegraded)"

definition sim_llm_check :: "sim_env \<Rightarrow> sim_llm" where
  "sim_llm_check S = (if offline S then LlmOffline else if ss_groq_api_key (se_settings S) \<noteq> '''' then LlmLive else LlmMissing)"

text \<open>Ready unless a check's text starts with \<open>error\<close>: a degraded gateway does not count.\<close>

definition sim_ready :: "sim_env \<Rightarrow> string + (string \<times> json) list \<Rightarrow> bool" where
  "sim_ready S health \<longleftrightarrow> (case sim_gateway_check health of GatewayError _ \<Rightarrow> False | _ \<Rightarrow> True) \<and> sim_llm_check S \<noteq> LlmMissing"

section \<open>The relay\<close>

record relay_readiness =
  rr_ready :: bool
  rr_events_seen :: nat
  rr_subscribers :: nat
  rr_buffered :: nat

definition relay_readyz :: "relay \<Rightarrow> relay_readiness" where
  "relay_readyz h = \<lparr>rr_ready = rl_connected h, rr_events_seen = rl_events_seen h,
     rr_subscribers = card (dom (rl_subscribers h)), rr_buffered = length (rl_recent h)\<rparr>"

section \<open>What a passed smoke test says\<close>

lemma probe_ready: "probe (Some ''ready'') (ProbeBody (readyz_body c r)) \<longleftrightarrow> rd_ready r"
  by (simp add: probe_def readyz_body_def)

lemma smoke_passed: "smoke answer_of = 0 \<Longrightarrow> (name, path, key) \<in> set CHECKS \<Longrightarrow> probe key (answer_of name)"
  by (auto simp: smoke_def list_all_iff split: if_splits)

text \<open>If the stack is reported up, the gateway's store and its policy server both answered.\<close>

lemma smoke_gateway_ready:
  assumes "smoke answer_of = 0" "answer_of ''gateway ready'' = ProbeBody (readyz_body c (readyz c ping opa))"
  shows "\<not> isl ping" "opa = Inr 200"
proof -
  have "probe (Some ''ready'') (answer_of ''gateway ready'')" by (rule smoke_passed [OF assms(1)]) (simp add: CHECKS_def)
  then have "rd_ready (readyz c ping opa)" by (simp add: assms(2) probe_ready)
  then show "\<not> isl ping" "opa = Inr 200" by (simp_all add: readyz_ready)
qed

text \<open>The agent's report alone does not say so: any answer of the gateway will do.\<close>

lemma sim_ready_iff: "sim_ready S health \<longleftrightarrow> \<not> isl health \<and> (offline S \<or> ss_groq_api_key (se_settings S) \<noteq> '''')"
  by (cases health) (auto simp: sim_ready_def sim_gateway_check_def sim_llm_check_def)

end
