(* ===== verification/Benchrun.thy ===== *)
theory Benchrun
  imports Demos
begin

text \<open>
  \<open>_one\<close>, \<open>_run_scenario\<close> and \<open>_amain\<close> of \<open>scripts/bench.py\<close> at its default concurrency of one: the
  requests run one after the other. A time is the difference of the clock around the call. The stage times
  come from the relay and are an argument of the report.
\<close>

section \<open>A run\<close>

definition bench_policy :: policy_in where
  "bench_policy = script_policy\<lparr>pl_per_transaction_limit := \<lparr>coeff = 1000000000, dexp = -2\<rparr>,
     pl_daily_limit := \<lparr>coeff = 10000000, dexp = -2\<rparr>, pl_approval_threshold := \<lparr>coeff = 900000000, dexp = -2\<rparr>,
     pl_max_per_hour := 100000\<rparr>"

definition bench_seed :: "script_env \<Rightarrow> string scr" where
  "bench_seed K = bindE (script_seed K) (\<lambda>token. thenE (script_admin K (UpsertPolicy bench_policy)) (ret token))"

definition clock_of :: "real scr" where "clock_of = asks (\<lambda>s. now (sp_world s))"

text \<open>One request: its time in milliseconds, and what is noted of its answer.\<close>

definition bench_one :: "script_env \<Rightarrow> string \<Rightarrow> bool \<Rightarrow> nat \<Rightarrow> (real \<times> outcome_key) scr" where
  "bench_one K token adversarial i = bindE (script_uuid K) (\<lambda>r. bindE clock_of (\<lambda>t0. bindE (script_uuid K) (\<lambda>u.
     bindE (send K (post_intent (sc_services K) (bench_intent adversarial u i) (Some (''Bearer '' @ token)) (Some (''bench_'' @ take 16 r)))) (\<lambda>a.
     bindE clock_of (\<lambda>t1. ret ((t1 - t0) * 1000, case a of Inr b \<Rightarrow> outcome_of b | Inl _ \<Rightarrow> (Some ''HTTP_500'', [])))))))"

definition bench_scenario :: "script_env \<Rightarrow> bool \<Rightarrow> nat \<Rightarrow> nat \<Rightarrow> (real list \<times> outcome_key list) scr" where
  "bench_scenario K adversarial n warmup = bindE (bench_seed K) (\<lambda>token.
     thenE (forE [0..<warmup] (\<lambda>i. thenE (bench_one K token adversarial i) (ret ())))
       (foldE (\<lambda>(e2e, outcomes) i. bindE (bench_one K token adversarial (i + warmup)) (\<lambda>(dt, k).
          ret (e2e @ [dt], outcomes @ [k]))) ([], []) [0..<n]))"

definition report :: "(string \<rightharpoonup> real list) \<Rightarrow> real list \<times> outcome_key list \<Rightarrow> row list \<times> (nat \<times> real \<times> outcome_key) list \<times> nat" where
  "report stages = (\<lambda>(e2e, outcomes). (summary_rows e2e stages, mix_rows outcomes, degraded_count outcomes))"

definition bench_main :: "script_env \<Rightarrow> bool list \<Rightarrow> nat \<Rightarrow> nat \<Rightarrow> (real list \<times> outcome_key list) list scr" where
  "bench_main K scenarios n warmup = thenE (require_gateway K) (thenE (reset_demo K) (thenE (script_reset_provider K)
     (foldE (\<lambda>results adversarial. bindE (bench_scenario K adversarial n warmup) (\<lambda>r. ret (results @ [r]))) [] scenarios)))"

section \<open>Every request is counted\<close>

lemma fold_counts:
  assumes "foldE (\<lambda>(xs, ys) i. bindE (f i) (\<lambda>(x, y). ret (xs @ [x], ys @ [y]))) acc is s = (Inr r, s')"
  shows "length (fst r) = length (fst acc) + length is \<and> length (snd r) = length (snd acc) + length is"
  using assms
proof (induction "is" arbitrary: acc s)
  case (Cons i "is")
  obtain xs ys where acc: "acc = (xs, ys)" by fastforce
  let ?f = "\<lambda>(xs, ys) i. bindE (f i) (\<lambda>(x, y). ret (xs @ [x], ys @ [y]))"
  from Cons.prems have "bindE (?f (xs, ys) i) (\<lambda>b. foldE ?f b is) s = (Inr r, s')" by (simp only: acc foldE.simps)
  then obtain b t where b: "?f (xs, ys) i s = (Inr b, t)" and r: "foldE ?f b is t = (Inr r, s')" by (rule bindE_InrE)
  from b obtain x y where "b = (xs @ [x], ys @ [y])" by (auto elim!: bindE_InrE)
  with Cons.IH [OF r] show ?case by (simp add: acc)
qed (simp add: ret_def)

lemma bench_counts:
  assumes "bench_scenario K adversarial n warmup s = (Inr (e2e, outcomes), s')"
  shows "length e2e = n" "length outcomes = n"
  using assms by (auto simp: bench_scenario_def dest!: fold_counts elim!: bindE_InrE thenE_InrE)

section \<open>The adversarial run moves no money\<close>

definition uncharged :: "script \<Rightarrow> script \<Rightarrow> bool" where
  "uncharged s t \<longleftrightarrow> provider (sp_world t) = provider (sp_world s)"

interpretation unpaid: evolution uncharged by unfold_locales (simp_all add: uncharged_def)

lemma uncharged_send: "(\<And>w. provider (snd (serve w)) = provider w) \<Longrightarrow> evolves uncharged (send K serve)"
  by (simp add: evolves_def uncharged_def send_provider)

lemma uncharged_admin: "evolves uncharged (script_admin K req)"
  unfolding script_admin_def send_ok_def
  by (intro unpaid.ev_rules uncharged_send keepsD [OF keeps_admin]) simp_all

lemma uncharged_seed: "evolves uncharged (bench_seed K)"
  unfolding bench_seed_def script_seed_def
  by (intro unpaid.ev_rules uncharged_admin) (auto intro: unpaid.ev_rules split: admin_reply.split)

lemma uncharged_uuid: "evolves uncharged (script_uuid K)"
  by (simp add: script_uuid_def evolves_def uncharged_def)

lemma uncharged_one:
  assumes "opa_faithful (sc_services K)"
  shows "evolves uncharged (bench_one K token True i)"
  unfolding bench_one_def clock_of_def
  by (intro unpaid.ev_rules uncharged_uuid uncharged_send post_intent_provider [OF assms bench_matched])

lemma uncharged_scenario:
  assumes "opa_faithful (sc_services K)"
  shows "evolves uncharged (bench_scenario K True n warmup)"
  unfolding bench_scenario_def case_prod_unfold
  by (intro unpaid.ev_rules uncharged_seed uncharged_one [OF assms])

lemma bench_unpaid: "opa_faithful (sc_services K) \<Longrightarrow> provider (sp_world (snd (bench_scenario K True n warmup s))) = provider (sp_world s)"
  using evolvesD [OF uncharged_scenario] by (simp add: uncharged_def)

end
